theory Spec2Isabelle
  imports Complex_Main "HOL-Library.Multiset"
begin

section \<open>Python values used by variable\_mgr.py\<close>

text \<open>
  The module builds a dataflow graph: its methods receive and return Python lists of
  (gradient, variable) tuples, read configuration from the \<open>benchmark_cnn\<close> object and
  raise Python exceptions. Exceptions are values of \<open>py_error\<close>; a method that can raise
  returns \<open>py_error + 'a\<close> with \<open>Inl\<close> for the exception.
\<close>

datatype py_error =
    ValueError string
  | AssertionError
  | IndexError
  | KeyError string
  | TFError

text \<open>\<open>s.split(sep)\<close> for a one-character separator: the result is never empty.\<close>

fun split :: "char \<Rightarrow> string \<Rightarrow> string list" where
  "split sep [] = [[]]"
| "split sep (c # cs) =
     (if c = sep then [] # split sep cs
      else (case split sep cs of
              [] \<Rightarrow> [[c]]
            | w # ws \<Rightarrow> (c # w) # ws))"

text \<open>\<open>sep.join(parts)\<close>.\<close>

fun join :: "string \<Rightarrow> string list \<Rightarrow> string" where
  "join sep [] = []"
| "join sep [p] = p"
| "join sep (p # q # ps) = p @ sep @ join sep (q # ps)"

text \<open>\<open>s.startswith(p)\<close> and \<open>s.endswith(p)\<close>.\<close>

definition startswith :: "string \<Rightarrow> string \<Rightarrow> bool" where
  "startswith s p = (take (length p) s = p)"

definition endswith :: "string \<Rightarrow> string \<Rightarrow> bool" where
  "endswith s p = (length p \<le> length s \<and> drop (length s - length p) s = p)"

text \<open>\<open>'%s' % n\<close> for a non-negative integer: its decimal digits.\<close>

definition digit_char :: "nat \<Rightarrow> char" where
  "digit_char d = ''0123456789'' ! d"

fun str_nat :: "nat \<Rightarrow> string" where
  "str_nat n = (if n < 10 then [digit_char n] else str_nat (n div 10) @ [digit_char (n mod 10)])"

declare str_nat.simps [simp del]

text \<open>
  Subscripting a Python list, \<open>xs[i]\<close>: the indices \<open>0 .. len(xs) - 1\<close> read from the
  front, the indices \<open>-len(xs) .. -1\<close> read from the back, and every other index raises
  IndexError.
\<close>

definition py_index :: "'a list \<Rightarrow> int \<Rightarrow> py_error + 'a" where
  "py_index xs i =
     (if 0 \<le> i \<and> i < int (length xs) then Inr (xs ! nat i)
      else if i < 0 \<and> - int (length xs) \<le> i then Inr (xs ! nat (int (length xs) + i))
      else Inl IndexError)"

section \<open>Graph objects\<close>

text \<open>
  A variable of the graph: its name and the identity of the Python object. The gradient
  type \<open>'g\<close> is left open where a method only moves gradients around.
\<close>

record variable =
  name :: string
  uid :: nat

text \<open>
  The operations the module adds to the graph. \<open>ReadValue v deps\<close> is \<open>v.read_value()\<close>
  and \<open>Assign v x deps\<close> is \<open>v.assign(x)\<close>, each created under
  \<open>tf.control_dependencies(deps)\<close>; \<open>ApplyGradients gv\<close> is \<open>opt.apply_gradients(gv)\<close>;
  \<open>SyncBarrier n after\<close> is the op returned by
  \<open>benchmark_cnn.add_sync_queues_and_barrier(n, after)\<close>.
\<close>

datatype 'g graph_op =
    ReadValue variable "'g graph_op list"
  | Assign variable "'g graph_op" "'g graph_op list"
  | ApplyGradients "('g \<times> variable) list"
  | SyncBarrier string "'g graph_op list"

section \<open>Variable scopes\<close>

text \<open>
  \<open>create_outer_variable_scope\<close> of the modes where each tower has its own variables
  (Independent, LocalReplicated, DistributedAllReduce): \<open>tf.variable_scope('v%s' % device_num)\<close>.
\<close>

definition create_outer_variable_scope :: "nat \<Rightarrow> string" where
  "create_outer_variable_scope device_num = ''v'' @ str_nat device_num"

section \<open>VariableMgrLocalReplicated: post-init ops and savable variables\<close>

text \<open>\<open>dict([(v.name, v) for v in global_vars])\<close>: a later entry replaces an earlier one.\<close>

definition var_by_name :: "variable list \<Rightarrow> (string \<rightharpoonup> variable)" where
  "var_by_name global_vars = map_of (rev (map (\<lambda>v. (name v, v)) global_vars))"

text \<open>
  The loop of \<open>VariableMgrLocalReplicated.get_post_init_ops\<close> over \<open>global_vars\<close>, with
  \<open>post_init_ops\<close> as accumulator; the dictionary lookup raises KeyError.
\<close>

fun LocalReplicated_post_init_loop ::
  "(string \<rightharpoonup> variable) \<Rightarrow> variable list \<Rightarrow> 'g graph_op list \<Rightarrow> py_error + 'g graph_op list" where
  "LocalReplicated_post_init_loop by_name [] post_init_ops = Inr post_init_ops"
| "LocalReplicated_post_init_loop by_name (v # vs) post_init_ops =
     (let split_name = split CHR ''/'' (name v) in
      if hd split_name = ''v0'' \<or> \<not> startswith (name v) ''v''
      then LocalReplicated_post_init_loop by_name vs post_init_ops
      else (let split_name' = split_name[0 := ''v0''] in
            case by_name (join ''/'' split_name') of
              None \<Rightarrow> Inl (KeyError (join ''/'' split_name'))
            | Some copy_from \<Rightarrow>
                LocalReplicated_post_init_loop by_name vs
                  (post_init_ops @ [Assign v (ReadValue copy_from []) []])))"

definition LocalReplicated_get_post_init_ops ::
  "variable list \<Rightarrow> py_error + 'g graph_op list" where
  "LocalReplicated_get_post_init_ops global_vars =
     LocalReplicated_post_init_loop (var_by_name global_vars) global_vars []"

fun LocalReplicated_savable_loop :: "variable list \<Rightarrow> variable list \<Rightarrow> variable list" where
  "LocalReplicated_savable_loop [] params = params"
| "LocalReplicated_savable_loop (v # vs) params =
     (let split_name = split CHR ''/'' (name v) in
      if hd split_name = ''v0'' \<or> \<not> startswith (name v) ''v''
      then LocalReplicated_savable_loop vs (params @ [v])
      else LocalReplicated_savable_loop vs params)"

definition LocalReplicated_savable_variables :: "variable list \<Rightarrow> variable list" where
  "LocalReplicated_savable_variables global_vars = LocalReplicated_savable_loop global_vars []"

section \<open>VariableMgrDistributedAllReduce: post-init ops and savable variables\<close>

fun DistributedAllReduce_post_init_loop ::
  "(string \<rightharpoonup> variable) \<Rightarrow> variable list \<Rightarrow> 'g graph_op list \<Rightarrow> py_error + 'g graph_op list" where
  "DistributedAllReduce_post_init_loop by_name [] post_init_ops = Inr post_init_ops"
| "DistributedAllReduce_post_init_loop by_name (v # vs) post_init_ops =
     (let split_name = split CHR ''/'' (name v) in
      if hd split_name = ''v0'' \<or> \<not> startswith (name v) ''v''
      then DistributedAllReduce_post_init_loop by_name vs post_init_ops
      else (let split_name' = split_name[0 := ''v0''] in
            case by_name (join ''/'' split_name') of
              None \<Rightarrow> Inl (KeyError (join ''/'' split_name'))
            | Some copy_from \<Rightarrow>
                DistributedAllReduce_post_init_loop by_name vs
                  (post_init_ops @ [Assign v (ReadValue copy_from []) []])))"

definition DistributedAllReduce_get_post_init_ops ::
  "variable list \<Rightarrow> py_error + 'g graph_op list" where
  "DistributedAllReduce_get_post_init_ops global_vars =
     DistributedAllReduce_post_init_loop (var_by_name global_vars) global_vars []"

fun DistributedAllReduce_savable_loop :: "variable list \<Rightarrow> variable list \<Rightarrow> variable list" where
  "DistributedAllReduce_savable_loop [] params = params"
| "DistributedAllReduce_savable_loop (v # vs) params =
     (let split_name = split CHR ''/'' (name v) in
      if hd split_name = ''v0'' \<or> \<not> startswith (name v) ''v''
      then DistributedAllReduce_savable_loop vs (params @ [v])
      else DistributedAllReduce_savable_loop vs params)"

definition DistributedAllReduce_savable_variables :: "variable list \<Rightarrow> variable list" where
  "DistributedAllReduce_savable_variables global_vars =
     DistributedAllReduce_savable_loop global_vars []"

subsection \<open>The two operations as the specification words them\<close>

text \<open>
  The scope of a variable is the first component of its name; a variable is copied after
  initialisation when its name starts with \<open>v\<close> and its scope is not \<open>v0\<close>, from the
  variable of the same name under \<open>v0\<close>; it is saved when its scope is \<open>v0\<close> or its name
  does not start with \<open>v\<close>.
\<close>

definition scope_of :: "variable \<Rightarrow> string" where
  "scope_of v = hd (split CHR ''/'' (name v))"

definition copied_after_init :: "variable \<Rightarrow> bool" where
  "copied_after_init v = (startswith (name v) ''v'' \<and> scope_of v \<noteq> ''v0'')"

definition name_under_v0 :: "variable \<Rightarrow> string" where
  "name_under_v0 v = join ''/'' (''v0'' # tl (split CHR ''/'' (name v)))"

definition is_saved :: "variable \<Rightarrow> bool" where
  "is_saved v = (scope_of v = ''v0'' \<or> \<not> startswith (name v) ''v'')"

definition copy_op :: "(string \<rightharpoonup> variable) \<Rightarrow> variable \<Rightarrow> 'g graph_op \<Rightarrow> bool" where
  "copy_op by_name v op =
     (case by_name (name_under_v0 v) of
        None \<Rightarrow> False
      | Some copy_from \<Rightarrow> op = Assign v (ReadValue copy_from []) [])"

section \<open>Configuration and gradients\<close>

text \<open>
  The fields of \<open>benchmark_cnn\<close> (and of its \<open>params\<close>) that the module reads. A device
  is the string that names it.
\<close>

type_synonym device = string

record benchmark_cnn =
  devices :: "device list"
  raw_devices :: "device list"
  param_server_device :: device
  cpu_device :: device
  gpu_indices :: "int list"
  enable_auto_loss_scale :: bool
  hierarchical_copy :: bool
  gradient_repacking :: int

text \<open>
  \<open>device_grads[t][g] = (gradient, variable)\<close>, where \<open>t\<close> is the index of the tower and
  \<open>g\<close> the index of the gradient-variable pair.
\<close>

type_synonym ('g, 'v) device_grads = "('g \<times> 'v) list list"

text \<open>One entry of a parsed all-reduce spec: algorithm, number of shards, size limit.\<close>

record all_reduce_spec_tuple =
  alg :: string
  shards :: int
  limit :: int

text \<open>
  The instance field \<open>self.grad_has_inf_nan\<close>: \<open>None\<close> until a method assigns the flag.
  A method that assigns it takes the current value and returns the new one.
\<close>

type_synonym inf_nan_flag = "bool option"

section \<open>Functions of the modules variable\_mgr\_util and allreduce\<close>

text \<open>
  \<open>variable_mgr.py\<close> calls functions of two sibling modules and of TensorFlow. A method
  of the model takes the functions it calls as arguments, with these types; each may raise.
  The aggregation functions return the aggregated gradients and the inf/nan flag
  (\<open>None\<close> when \<open>check_inf_nan\<close> is false).
\<close>

type_synonym ('g, 'v) aggregate_fn =
  "('g, 'v) device_grads \<Rightarrow> bool \<Rightarrow> bool \<Rightarrow> py_error + (('g \<times> 'v) list \<times> inf_nan_flag)"

type_synonym ('g, 'v) aggregate_with_device_selection_fn =
  "benchmark_cnn \<Rightarrow> ('g, 'v) device_grads \<Rightarrow> bool \<Rightarrow> bool
     \<Rightarrow> py_error + (('g \<times> 'v) list \<times> inf_nan_flag)"

type_synonym ('g, 'v) aggregate_hierarchical_fn =
  "benchmark_cnn \<Rightarrow> ('g, 'v) device_grads \<Rightarrow> bool \<Rightarrow> bool
     \<Rightarrow> py_error + (('g, 'v) device_grads \<times> inf_nan_flag)"

text \<open>
  \<open>allreduce.sum_gradients_all_reduce(dev_prefixes, tower_grads, num_workers, alg,
  num_shards, gpu_indices, agg_small_grads_max_bytes, agg_small_grads_max_group)\<close>.
\<close>

type_synonym ('g, 'v) sum_gradients_all_reduce_fn =
  "string list \<Rightarrow> ('g, 'v) device_grads \<Rightarrow> int \<Rightarrow> string \<Rightarrow> int \<Rightarrow> int list \<Rightarrow> int \<Rightarrow> int
     \<Rightarrow> py_error + ('g, 'v) device_grads"

type_synonym ('g, 'v) split_grads_by_size_fn =
  "int \<Rightarrow> ('g, 'v) device_grads \<Rightarrow> py_error + (('g, 'v) device_grads \<times> ('g, 'v) device_grads)"

type_synonym parse_all_reduce_spec_fn = "string \<Rightarrow> py_error + all_reduce_spec_tuple list"

section \<open>The variable managers\<close>

text \<open>
  An instance of one of the eight classes, with the fields its constructor stores.
  LocalReplicated holds one spec tuple or \<open>None\<close>; DistributedAllReduce holds the parsed
  list, the device prefixes and the number of workers; both hold the two thresholds for
  aggregating small gradients.
\<close>

datatype variable_mgr =
    VariableMgrIndependent benchmark_cnn
  | VariableMgrLocalFetchFromPS benchmark_cnn
  | VariableMgrLocalFetchFromStagedPS benchmark_cnn
  | VariableMgrLocalReplicated benchmark_cnn "all_reduce_spec_tuple option" int int
  | VariableMgrDistributedAllReduce benchmark_cnn "all_reduce_spec_tuple list" "string list" int int int
  | VariableMgrDistributedFetchFromPS benchmark_cnn
  | VariableMgrDistributedFetchFromStagedPS benchmark_cnn
  | VariableMgrDistributedReplicated benchmark_cnn

fun each_tower_has_variables :: "variable_mgr \<Rightarrow> bool" where
  "each_tower_has_variables (VariableMgrIndependent _) = True"
| "each_tower_has_variables (VariableMgrLocalFetchFromPS _) = False"
| "each_tower_has_variables (VariableMgrLocalFetchFromStagedPS _) = False"
| "each_tower_has_variables (VariableMgrLocalReplicated _ _ _ _) = True"
| "each_tower_has_variables (VariableMgrDistributedAllReduce _ _ _ _ _ _) = True"
| "each_tower_has_variables (VariableMgrDistributedFetchFromPS _) = False"
| "each_tower_has_variables (VariableMgrDistributedFetchFromStagedPS _) = False"
| "each_tower_has_variables (VariableMgrDistributedReplicated _) = True"

subsection \<open>Constructors\<close>

text \<open>
  The flag \<open>all_reduce_spec\<close> is a string or \<open>None\<close>; \<open>if all_reduce_spec:\<close> holds for a
  non-empty string.
\<close>

definition truthy :: "string option \<Rightarrow> bool" where
  "truthy s = (case s of None \<Rightarrow> False | Some t \<Rightarrow> t \<noteq> [])"

definition LocalReplicated_init ::
  "parse_all_reduce_spec_fn \<Rightarrow> benchmark_cnn \<Rightarrow> string option \<Rightarrow> int \<Rightarrow> int
     \<Rightarrow> py_error + variable_mgr" where
  "LocalReplicated_init parse_all_reduce_spec cnn all_reduce_spec
       agg_small_grads_max_bytes agg_small_grads_max_group =
     (if truthy all_reduce_spec then
        (case parse_all_reduce_spec (the all_reduce_spec) of
           Inl e \<Rightarrow> Inl e
         | Inr spec \<Rightarrow>
             if length spec \<noteq> 1
             then Inl (ValueError ''replicated mode does not support hybrid all-reduce strategies'')
             else Inr (VariableMgrLocalReplicated cnn (Some (hd spec))
                         agg_small_grads_max_bytes agg_small_grads_max_group))
      else Inr (VariableMgrLocalReplicated cnn None
                  agg_small_grads_max_bytes agg_small_grads_max_group))"

definition DistributedAllReduce_init ::
  "parse_all_reduce_spec_fn \<Rightarrow> (string \<Rightarrow> int \<Rightarrow> string list) \<Rightarrow> benchmark_cnn \<Rightarrow> string option
     \<Rightarrow> string \<Rightarrow> int \<Rightarrow> int \<Rightarrow> int \<Rightarrow> py_error + variable_mgr" where
  "DistributedAllReduce_init parse_all_reduce_spec build_all_reduce_device_prefixes cnn
       all_reduce_spec job_name num_workers agg_small_grads_max_bytes agg_small_grads_max_group =
     (if \<not> truthy all_reduce_spec
      then Inl (ValueError ''distributed_all_reduce requires a non-empty all_reduce_spec'')
      else
        (case parse_all_reduce_spec (the all_reduce_spec) of
           Inl e \<Rightarrow> Inl e
         | Inr spec \<Rightarrow>
             if spec = []
             then Inl (ValueError ''all_reduce_spec must be specified'')
             else Inr (VariableMgrDistributedAllReduce cnn spec
                         (build_all_reduce_device_prefixes job_name num_workers) num_workers
                         agg_small_grads_max_bytes agg_small_grads_max_group)))"

text \<open>
  The TensorFlow operations applied to a gradient: \<open>tf_is_finite_all g\<close> is
  \<open>tf.reduce_all(tf.is_finite(g))\<close>, \<open>tf_flatten g\<close> is \<open>tf.reshape(g, [-1])\<close>,
  \<open>tf_concat gs\<close> is \<open>tf.concat(gs, 0)\<close> and \<open>tf_device g\<close> is \<open>g.device\<close>.
  \<open>tf_add_n gs\<close> is the sum \<open>tf.add_n(gs)\<close> and \<open>tf_divide g n\<close> is \<open>g\<close> divided by the
  number \<open>n\<close>; the aggregation functions use these two.
\<close>

record 'g tensorflow =
  tf_add_n :: "'g list \<Rightarrow> 'g"
  tf_divide :: "'g \<Rightarrow> nat \<Rightarrow> 'g"
  tf_is_finite_all :: "'g \<Rightarrow> bool"
  tf_flatten :: "'g \<Rightarrow> 'g"
  tf_shape :: "'g \<Rightarrow> nat list"
  tf_size :: "'g \<Rightarrow> int"
  tf_concat :: "'g list \<Rightarrow> py_error + 'g"
  tf_split :: "'g \<Rightarrow> int list \<Rightarrow> py_error + 'g list"
  tf_reshape :: "'g \<Rightarrow> nat list \<Rightarrow> py_error + 'g"
  tf_device :: "'g \<Rightarrow> device"

text \<open>
  The functions of \<open>variable_mgr_util\<close> and \<open>allreduce\<close> that the preprocessing and
  retrieval methods call. \<open>aggregate_gradients_using_hierarchical_copy\<close> is called on the
  device gradients and, in the repacking branch, on packs whose variable is \<open>None\<close>: the
  record has the function at both types.
\<close>

record ('g, 'v) modules =
  sum_gradients_all_reduce :: "('g, 'v) sum_gradients_all_reduce_fn"
  split_grads_by_size :: "('g, 'v) split_grads_by_size_fn"
  aggregate_gradients_using_copy :: "('g, 'v) aggregate_fn"
  aggregate_gradients_using_copy_with_variable_colocation :: "('g, 'v) aggregate_fn"
  aggregate_gradients_using_copy_with_device_selection ::
    "('g, 'v) aggregate_with_device_selection_fn"
  aggregate_gradients_using_hierarchical_copy :: "('g, 'v) aggregate_hierarchical_fn"
  aggregate_gradients_using_hierarchical_copy_packs ::
    "('g, 'v option) aggregate_hierarchical_fn"

text \<open>A \<open>for\<close> loop that builds a list and stops at the first exception.\<close>

fun map_err :: "('a \<Rightarrow> py_error + 'b) \<Rightarrow> 'a list \<Rightarrow> py_error + 'b list" where
  "map_err f [] = Inr []"
| "map_err f (x # xs) =
     (case f x of
        Inl e \<Rightarrow> Inl e
      | Inr y \<Rightarrow> (case map_err f xs of Inl e \<Rightarrow> Inl e | Inr ys \<Rightarrow> Inr (y # ys)))"

subsection \<open>VariableMgrIndependent\<close>

definition Independent_preprocess_device_grads ::
  "benchmark_cnn \<Rightarrow> ('g, 'v) device_grads \<Rightarrow> device list \<times> ('g, 'v) device_grads" where
  "Independent_preprocess_device_grads cnn device_grads = (devices cnn, device_grads)"

text \<open>
  Returns the tower's list and the value of \<open>self.grad_has_inf_nan\<close> after the call.
\<close>

definition Independent_get_gradients_to_apply ::
  "'g tensorflow \<Rightarrow> benchmark_cnn \<Rightarrow> inf_nan_flag \<Rightarrow> int \<Rightarrow> ('g, 'v) device_grads
     \<Rightarrow> py_error + (('g \<times> 'v) list \<times> inf_nan_flag)" where
  "Independent_get_gradients_to_apply tf cnn grad_has_inf_nan device_num gradient_state =
     (case py_index gradient_state device_num of
        Inl e \<Rightarrow> Inl e
      | Inr tower_grad \<Rightarrow>
          if enable_auto_loss_scale cnn \<and> device_num = 0
          then (let has_inf_nan_list = map (\<lambda>(grad, _). tf_is_finite_all tf grad) tower_grad
                in Inr (tower_grad, Some (\<not> list_all (\<lambda>b. b) has_inf_nan_list)))
          else Inr (tower_grad, grad_has_inf_nan))"

subsection \<open>VariableMgrLocalFetchFromPS and VariableMgrLocalFetchFromStagedPS\<close>

definition LocalFetchFromPS_preprocess_device_grads ::
  "benchmark_cnn \<Rightarrow> ('g, 'v) device_grads \<Rightarrow> device list \<times> ('g, 'v) device_grads" where
  "LocalFetchFromPS_preprocess_device_grads cnn device_grads =
     ([param_server_device cnn], device_grads)"

definition LocalFetchFromPS_get_gradients_to_apply ::
  "('g, 'v) modules \<Rightarrow> benchmark_cnn \<Rightarrow> int \<Rightarrow> ('g, 'v) device_grads
     \<Rightarrow> py_error + (('g \<times> 'v) list \<times> inf_nan_flag)" where
  "LocalFetchFromPS_get_gradients_to_apply m cnn device_num gradient_state =
     (if device_num \<noteq> 0 then Inl AssertionError
      else aggregate_gradients_using_copy_with_variable_colocation m gradient_state
             True (enable_auto_loss_scale cnn))"

subsection \<open>VariableMgrDistributedFetchFromPS and VariableMgrDistributedFetchFromStagedPS\<close>

definition DistributedFetchFromPS_preprocess_device_grads ::
  "benchmark_cnn \<Rightarrow> ('g, 'v) device_grads \<Rightarrow> device list \<times> ('g, 'v) device_grads" where
  "DistributedFetchFromPS_preprocess_device_grads cnn device_grads =
     ([param_server_device cnn], device_grads)"

definition DistributedFetchFromPS_get_gradients_to_apply ::
  "('g, 'v) modules \<Rightarrow> benchmark_cnn \<Rightarrow> int \<Rightarrow> ('g, 'v) device_grads
     \<Rightarrow> py_error + (('g \<times> 'v) list \<times> inf_nan_flag)" where
  "DistributedFetchFromPS_get_gradients_to_apply m cnn device_num gradient_state =
     (if device_num \<noteq> 0 then Inl AssertionError
      else aggregate_gradients_using_copy m gradient_state True (enable_auto_loss_scale cnn))"

subsection \<open>VariableMgrDistributedReplicated\<close>

definition DistributedReplicated_preprocess_device_grads ::
  "benchmark_cnn \<Rightarrow> ('g, 'v) device_grads \<Rightarrow> device list \<times> ('g, 'v) device_grads" where
  "DistributedReplicated_preprocess_device_grads cnn device_grads =
     ([param_server_device cnn], device_grads)"

text \<open>
  The loop that replaces each averaged gradient's variable by its shadow variable on the
  parameter server. \<open>get_variable my_name v\<close> is the call \<open>tf.get_variable(my_name,
  dtype=v.dtype.base_dtype, initializer=v.initial_value, trainable=True)\<close>, and
  \<open>prefix\<close> is \<open>variable_mgr_util.PS_SHADOW_VAR_PREFIX\<close>.
\<close>

fun DistributedReplicated_shadow_loop ::
  "(string \<Rightarrow> variable \<Rightarrow> py_error + variable) \<Rightarrow> string \<Rightarrow> ('g \<times> variable) list
     \<Rightarrow> py_error + ('g \<times> variable) list" where
  "DistributedReplicated_shadow_loop get_variable prefix [] = Inr []"
| "DistributedReplicated_shadow_loop get_variable prefix ((g, v) # avg_grads) =
     (let my_name = prefix @ ''/'' @ name v;
          my_name' = (if endswith my_name '':0''
                      then take (length my_name - 2) my_name else my_name)
      in case get_variable my_name' v of
           Inl e \<Rightarrow> Inl e
         | Inr new_v \<Rightarrow>
             (case DistributedReplicated_shadow_loop get_variable prefix avg_grads of
                Inl e \<Rightarrow> Inl e
              | Inr rest \<Rightarrow> Inr ((g, new_v) # rest)))"

definition DistributedReplicated_get_gradients_to_apply ::
  "('g, variable) modules \<Rightarrow> (string \<Rightarrow> variable \<Rightarrow> py_error + variable) \<Rightarrow> string
     \<Rightarrow> benchmark_cnn \<Rightarrow> int \<Rightarrow> ('g, variable) device_grads
     \<Rightarrow> py_error + (('g \<times> variable) list \<times> inf_nan_flag)" where
  "DistributedReplicated_get_gradients_to_apply m get_variable prefix cnn device_num
       gradient_state =
     (case aggregate_gradients_using_copy_with_device_selection m cnn gradient_state
             True (enable_auto_loss_scale cnn) of
        Inl e \<Rightarrow> Inl e
      | Inr (avg_grads, flag) \<Rightarrow>
          (case DistributedReplicated_shadow_loop get_variable prefix avg_grads of
             Inl e \<Rightarrow> Inl e
           | Inr avg_grads' \<Rightarrow> Inr (avg_grads', flag)))"

subsection \<open>VariableMgrLocalReplicated\<close>

text \<open>
  The sizes of the packs: \<open>[split_size] * (num_splits - 1) + [split_size_last]\<close>. A list
  repeated a non-positive number of times is empty.
\<close>

definition split_sizes :: "int \<Rightarrow> int \<Rightarrow> int list" where
  "split_sizes total_grad_size num_splits =
     (let split_size = total_grad_size div num_splits;
          split_size_last = total_grad_size - split_size * (num_splits - 1)
      in replicate (nat (num_splits - 1)) split_size @ [split_size_last])"

text \<open>
  The body of the first loop of the repacking branch, for one tower: the packs paired with
  \<open>None\<close>, the shapes and the sizes of the tower's gradients. Subscripting an empty tower
  with \<open>[0][0]\<close> raises IndexError.
\<close>

definition pack_tower ::
  "'g tensorflow \<Rightarrow> int \<Rightarrow> ('g \<times> 'v) list
     \<Rightarrow> py_error + (('g \<times> 'v option) list \<times> nat list list \<times> int list)" where
  "pack_tower tf num_splits tower_grads_and_vars =
     (if tower_grads_and_vars = [] then Inl IndexError
      else
        (let flat_grads = map (\<lambda>(g, _). tf_flatten tf g) tower_grads_and_vars;
             tower_shapes = map (\<lambda>(g, _). tf_shape tf g) tower_grads_and_vars;
             tower_sizes = map (\<lambda>(g, _). tf_size tf g) tower_grads_and_vars
         in case tf_concat tf flat_grads of
              Inl e \<Rightarrow> Inl e
            | Inr concat_grads \<Rightarrow>
                (case tf_split tf concat_grads
                        (split_sizes (tf_size tf concat_grads) num_splits) of
                   Inl e \<Rightarrow> Inl e
                 | Inr grad_packs \<Rightarrow>
                     Inr (zip grad_packs (replicate (nat num_splits) None),
                          tower_shapes, tower_sizes))))"

text \<open>
  The body of the second loop, for one tower: the summed packs are concatenated, split
  into the recorded sizes, reshaped to the recorded shapes and paired with the tower's
  own variables.
\<close>

definition unpack_tower ::
  "'g tensorflow
     \<Rightarrow> ('g \<times> 'v option) list \<times> ('g \<times> 'v) list \<times> nat list list \<times> int list
     \<Rightarrow> py_error + ('g \<times> 'v) list" where
  "unpack_tower tf row =
     (case row of (summed_tower_grad_packs, tower_grads_and_vars, tower_shapes, tower_sizes) \<Rightarrow>
        if summed_tower_grad_packs = [] then Inl IndexError
        else
          (let device_grad_packs = map (\<lambda>(g, _). g) summed_tower_grad_packs
           in case tf_concat tf device_grad_packs of
                Inl e \<Rightarrow> Inl e
              | Inr device_grads_concat \<Rightarrow>
                  (case tf_split tf device_grads_concat tower_sizes of
                     Inl e \<Rightarrow> Inl e
                   | Inr grads_with_sizes \<Rightarrow>
                       (case map_err (\<lambda>(shape, grad). tf_reshape tf grad shape)
                               (zip tower_shapes grads_with_sizes) of
                          Inl e \<Rightarrow> Inl e
                        | Inr grads_with_shapes \<Rightarrow>
                            Inr (map (\<lambda>(g, (_, v)). (g, v))
                                   (zip grads_with_shapes tower_grads_and_vars))))))"

text \<open>The repacking branch: pack every tower, aggregate the packs, unpack every tower.\<close>

definition repack_and_aggregate ::
  "'g tensorflow \<Rightarrow> ('g, 'v) modules \<Rightarrow> benchmark_cnn \<Rightarrow> ('g, 'v) device_grads
     \<Rightarrow> py_error + (('g, 'v) device_grads \<times> inf_nan_flag)" where
  "repack_and_aggregate tf m cnn device_grads =
     (case map_err (pack_tower tf (gradient_repacking cnn)) device_grads of
        Inl e \<Rightarrow> Inl e
      | Inr packed \<Rightarrow>
          (let device_grad_packs = map (\<lambda>(packs, shapes, sizes). packs) packed;
               all_tower_shapes = map (\<lambda>(packs, shapes, sizes). shapes) packed;
               all_tower_sizes = map (\<lambda>(packs, shapes, sizes). sizes) packed
           in case aggregate_gradients_using_hierarchical_copy_packs m cnn device_grad_packs
                     False (enable_auto_loss_scale cnn) of
                Inl e \<Rightarrow> Inl e
              | Inr (summed_device_grad_packs, flag) \<Rightarrow>
                  (case map_err (unpack_tower tf)
                          (zip summed_device_grad_packs
                             (zip device_grads (zip all_tower_shapes all_tower_sizes))) of
                     Inl e \<Rightarrow> Inl e
                   | Inr aggregated_device_grads \<Rightarrow> Inr (aggregated_device_grads, flag))))"

text \<open>
  \<open>preprocess_device_grads\<close>: the devices on which gradients are applied, the gradient
  state and the value of \<open>self.grad_has_inf_nan\<close> after the call (the all-reduce branch
  does not assign it).
\<close>

definition LocalReplicated_preprocess_device_grads ::
  "'g tensorflow \<Rightarrow> ('g, 'v) modules \<Rightarrow> benchmark_cnn \<Rightarrow> all_reduce_spec_tuple option
     \<Rightarrow> int \<Rightarrow> int \<Rightarrow> inf_nan_flag \<Rightarrow> ('g, 'v) device_grads
     \<Rightarrow> py_error + (device list \<times> ('g, 'v) device_grads \<times> inf_nan_flag)" where
  "LocalReplicated_preprocess_device_grads tf m cnn all_reduce_spec
       agg_small_grads_max_bytes agg_small_grads_max_group grad_has_inf_nan device_grads =
     (case all_reduce_spec of
        Some spec \<Rightarrow>
          (case sum_gradients_all_reduce m [''/job:localhost''] device_grads 1
                  (alg spec) (shards spec) (gpu_indices cnn)
                  agg_small_grads_max_bytes agg_small_grads_max_group of
             Inl e \<Rightarrow> Inl e
           | Inr aggregated_device_grads \<Rightarrow>
               Inr (devices cnn, aggregated_device_grads, grad_has_inf_nan))
      | None \<Rightarrow>
          if \<not> hierarchical_copy cnn then
            (case aggregate_gradients_using_copy_with_device_selection m cnn device_grads
                    False (enable_auto_loss_scale cnn) of
               Inl e \<Rightarrow> Inl e
             | Inr (agg_grads, flag) \<Rightarrow>
                 Inr (devices cnn,
                      map (\<lambda>arr. map (\<lambda>((_, v), (g, _)). (g, v)) (zip arr agg_grads)) device_grads,
                      flag))
          else if gradient_repacking cnn = 0 then
            (case aggregate_gradients_using_hierarchical_copy m cnn device_grads
                    False (enable_auto_loss_scale cnn) of
               Inl e \<Rightarrow> Inl e
             | Inr (aggregated_device_grads, flag) \<Rightarrow>
                 Inr (devices cnn, aggregated_device_grads, flag))
          else
            (case repack_and_aggregate tf m cnn device_grads of
               Inl e \<Rightarrow> Inl e
             | Inr (aggregated_device_grads, flag) \<Rightarrow>
                 Inr (devices cnn, aggregated_device_grads, flag)))"

definition LocalReplicated_get_gradients_to_apply ::
  "int \<Rightarrow> ('g, 'v) device_grads \<Rightarrow> py_error + ('g \<times> 'v) list" where
  "LocalReplicated_get_gradients_to_apply device_num gradient_state =
     py_index gradient_state device_num"

subsection \<open>VariableMgrDistributedAllReduce\<close>

text \<open>
  The loop of \<open>preprocess_device_grads\<close> over the spec tuples, with \<open>remaining_grads\<close>
  and \<open>aggregated_grads\<close> as loop state. A tuple with a negative limit takes all the
  remaining gradients; any other tuple takes what \<open>split_grads_by_size\<close> returns first
  and leaves what it returns second. The result is the state after the last tuple.
\<close>

fun DistributedAllReduce_spec_loop ::
  "('g, 'v) modules \<Rightarrow> benchmark_cnn \<Rightarrow> string list \<Rightarrow> int \<Rightarrow> int \<Rightarrow> int
     \<Rightarrow> all_reduce_spec_tuple list \<Rightarrow> ('g, 'v) device_grads \<Rightarrow> ('g, 'v) device_grads
     \<Rightarrow> py_error + (('g, 'v) device_grads \<times> ('g, 'v) device_grads)" where
  "DistributedAllReduce_spec_loop m cnn prefixes num_workers max_bytes max_group
       [] remaining_grads aggregated_grads = Inr (remaining_grads, aggregated_grads)"
| "DistributedAllReduce_spec_loop m cnn prefixes num_workers max_bytes max_group
       (spec_tuple # spec) remaining_grads aggregated_grads =
     (case (if limit spec_tuple < 0 then Inr (remaining_grads, [])
            else split_grads_by_size m (limit spec_tuple) remaining_grads) of
        Inl e \<Rightarrow> Inl e
      | Inr (this_grads, remaining_grads') \<Rightarrow>
          if this_grads \<noteq> [] then
            (case sum_gradients_all_reduce m prefixes this_grads num_workers
                    (alg spec_tuple) (shards spec_tuple) (gpu_indices cnn) max_bytes max_group of
               Inl e \<Rightarrow> Inl e
             | Inr range_agg_grads \<Rightarrow>
                 if aggregated_grads = [] then
                   DistributedAllReduce_spec_loop m cnn prefixes num_workers max_bytes max_group
                     spec remaining_grads' range_agg_grads
                 else if length aggregated_grads \<noteq> length range_agg_grads then Inl AssertionError
                 else
                   DistributedAllReduce_spec_loop m cnn prefixes num_workers max_bytes max_group
                     spec remaining_grads'
                     (map (\<lambda>(a, r). a @ r) (zip aggregated_grads range_agg_grads)))
          else
            DistributedAllReduce_spec_loop m cnn prefixes num_workers max_bytes max_group
              spec remaining_grads' aggregated_grads)"

text \<open>\<open>g, v = grads[0]\<close> followed by \<open>g.device\<close>, for one tower.\<close>

definition first_grad_device :: "'g tensorflow \<Rightarrow> ('g \<times> 'v) list \<Rightarrow> py_error + device" where
  "first_grad_device tf grads =
     (case grads of [] \<Rightarrow> Inl IndexError | (g, v) # _ \<Rightarrow> Inr (tf_device tf g))"

definition DistributedAllReduce_preprocess_device_grads ::
  "'g tensorflow \<Rightarrow> ('g, 'v) modules \<Rightarrow> benchmark_cnn \<Rightarrow> all_reduce_spec_tuple list
     \<Rightarrow> string list \<Rightarrow> int \<Rightarrow> int \<Rightarrow> int \<Rightarrow> ('g, 'v) device_grads
     \<Rightarrow> py_error + (device list \<times> ('g, 'v) device_grads)" where
  "DistributedAllReduce_preprocess_device_grads tf m cnn all_reduce_spec prefixes num_workers
       max_bytes max_group device_grads =
     (case DistributedAllReduce_spec_loop m cnn prefixes num_workers max_bytes max_group
             all_reduce_spec device_grads [] of
        Inl e \<Rightarrow> Inl e
      | Inr (remaining_grads, aggregated_grads) \<Rightarrow>
          if remaining_grads \<noteq> [] then Inl AssertionError
          else
            (case map_err (first_grad_device tf) device_grads of
               Inl e \<Rightarrow> Inl e
             | Inr full_device_set \<Rightarrow> Inr (full_device_set, aggregated_grads)))"

definition DistributedAllReduce_get_gradients_to_apply ::
  "int \<Rightarrow> ('g, 'v) device_grads \<Rightarrow> py_error + ('g \<times> 'v) list" where
  "DistributedAllReduce_get_gradients_to_apply device_num gradient_state =
     (if device_num \<ge> int (length gradient_state)
      then Inl (ValueError (''device_num '' @ str_nat (nat device_num)
                  @ '' exceeds length of device_grads ('' @ str_nat (length gradient_state)
                  @ '')''))
      else py_index gradient_state device_num)"

text \<open>
  The loop as the specification words it: the ranges are processed in order, each taking
  its partition from the remainder left by the one before. \<open>spec_trace\<close> lists, for
  each range, the partition it takes and the remainder it leaves.
\<close>

fun spec_trace ::
  "('g, 'v) modules \<Rightarrow> all_reduce_spec_tuple list \<Rightarrow> ('g, 'v) device_grads
     \<Rightarrow> py_error + (('g, 'v) device_grads \<times> ('g, 'v) device_grads) list" where
  "spec_trace m [] remaining = Inr []"
| "spec_trace m (spec_tuple # spec) remaining =
     (case (if limit spec_tuple < 0 then Inr (remaining, [])
            else split_grads_by_size m (limit spec_tuple) remaining) of
        Inl e \<Rightarrow> Inl e
      | Inr (this_grads, remaining') \<Rightarrow>
          (case spec_trace m spec remaining' of
             Inl e \<Rightarrow> Inl e
           | Inr trace \<Rightarrow> Inr ((this_grads, remaining') # trace)))"

definition remainder_before ::
  "('g, 'v) device_grads \<Rightarrow> (('g, 'v) device_grads \<times> ('g, 'v) device_grads) list \<Rightarrow> nat
     \<Rightarrow> ('g, 'v) device_grads" where
  "remainder_before device_grads trace k =
     (if k = 0 then device_grads else snd (trace ! (k - 1)))"

definition final_remainder ::
  "('g, 'v) device_grads \<Rightarrow> (('g, 'v) device_grads \<times> ('g, 'v) device_grads) list
     \<Rightarrow> ('g, 'v) device_grads" where
  "final_remainder device_grads trace = remainder_before device_grads trace (length trace)"

text \<open>
  The reductions as the specification words them: every partition that is not empty is
  reduced by the tree-reduction engine with the algorithm and the number of shards of
  its range, in the order of the ranges, and the reduced partitions are joined tower by
  tower, an AssertionError being raised when a reduction returns another number of towers
  than the ones before. \<open>reduce_ranges\<close> gives the joined result for the partitions of
  the ranges, from the result of the ranges before.
\<close>

fun reduce_ranges ::
  "('g, 'v) modules \<Rightarrow> benchmark_cnn \<Rightarrow> string list \<Rightarrow> int \<Rightarrow> int \<Rightarrow> int
     \<Rightarrow> all_reduce_spec_tuple list \<Rightarrow> ('g, 'v) device_grads list \<Rightarrow> ('g, 'v) device_grads
     \<Rightarrow> py_error + ('g, 'v) device_grads" where
  "reduce_ranges m cnn prefixes num_workers max_bytes max_group
       (spec_tuple # spec) (this_grads # others) joined =
     (if this_grads = [] then
        reduce_ranges m cnn prefixes num_workers max_bytes max_group spec others joined
      else
        (case sum_gradients_all_reduce m prefixes this_grads num_workers
                (alg spec_tuple) (shards spec_tuple) (gpu_indices cnn) max_bytes max_group of
           Inl e \<Rightarrow> Inl e
         | Inr reduced \<Rightarrow>
             if joined = [] then
               reduce_ranges m cnn prefixes num_workers max_bytes max_group spec others reduced
             else if length joined \<noteq> length reduced then Inl AssertionError
             else
               reduce_ranges m cnn prefixes num_workers max_bytes max_group spec others
                 (map (\<lambda>(tower, more). tower @ more) (zip joined reduced))))"
| "reduce_ranges m cnn prefixes num_workers max_bytes max_group spec others joined =
     Inr joined"

subsection \<open>The methods, dispatched on the class of the manager\<close>

text \<open>
  \<open>mgr.preprocess_device_grads(device_grads)\<close>: the devices on which gradients are
  applied and the gradient state.
\<close>

fun preprocess_device_grads ::
  "'g tensorflow \<Rightarrow> ('g, 'v) modules \<Rightarrow> variable_mgr \<Rightarrow> ('g, 'v) device_grads
     \<Rightarrow> py_error + (device list \<times> ('g, 'v) device_grads)" where
  "preprocess_device_grads tf m (VariableMgrIndependent cnn) dg =
     Inr (Independent_preprocess_device_grads cnn dg)"
| "preprocess_device_grads tf m (VariableMgrLocalFetchFromPS cnn) dg =
     Inr (LocalFetchFromPS_preprocess_device_grads cnn dg)"
| "preprocess_device_grads tf m (VariableMgrLocalFetchFromStagedPS cnn) dg =
     Inr (LocalFetchFromPS_preprocess_device_grads cnn dg)"
| "preprocess_device_grads tf m (VariableMgrLocalReplicated cnn spec max_bytes max_group) dg =
     (case LocalReplicated_preprocess_device_grads tf m cnn spec max_bytes max_group None dg of
        Inl e \<Rightarrow> Inl e
      | Inr (apply_devices, state, flag) \<Rightarrow> Inr (apply_devices, state))"
| "preprocess_device_grads tf m
       (VariableMgrDistributedAllReduce cnn spec prefixes num_workers max_bytes max_group) dg =
     DistributedAllReduce_preprocess_device_grads tf m cnn spec prefixes num_workers
       max_bytes max_group dg"
| "preprocess_device_grads tf m (VariableMgrDistributedFetchFromPS cnn) dg =
     Inr (DistributedFetchFromPS_preprocess_device_grads cnn dg)"
| "preprocess_device_grads tf m (VariableMgrDistributedFetchFromStagedPS cnn) dg =
     Inr (DistributedFetchFromPS_preprocess_device_grads cnn dg)"
| "preprocess_device_grads tf m (VariableMgrDistributedReplicated cnn) dg =
     Inr (DistributedReplicated_preprocess_device_grads cnn dg)"

text \<open>
  \<open>mgr.get_gradients_to_apply(device_num, gradient_state)\<close>: the list of
  (gradient, variable) pairs to apply for \<open>device_num\<close>.
\<close>

fun get_gradients_to_apply ::
  "'g tensorflow \<Rightarrow> ('g, variable) modules \<Rightarrow> (string \<Rightarrow> variable \<Rightarrow> py_error + variable)
     \<Rightarrow> string \<Rightarrow> variable_mgr \<Rightarrow> int \<Rightarrow> ('g, variable) device_grads
     \<Rightarrow> py_error + ('g \<times> variable) list" where
  "get_gradients_to_apply tf m get_variable prefix (VariableMgrIndependent cnn) device_num st =
     map_sum (\<lambda>e. e) fst (Independent_get_gradients_to_apply tf cnn None device_num st)"
| "get_gradients_to_apply tf m get_variable prefix (VariableMgrLocalFetchFromPS cnn) device_num st =
     map_sum (\<lambda>e. e) fst (LocalFetchFromPS_get_gradients_to_apply m cnn device_num st)"
| "get_gradients_to_apply tf m get_variable prefix (VariableMgrLocalFetchFromStagedPS cnn)
       device_num st =
     map_sum (\<lambda>e. e) fst (LocalFetchFromPS_get_gradients_to_apply m cnn device_num st)"
| "get_gradients_to_apply tf m get_variable prefix (VariableMgrLocalReplicated cnn spec b g)
       device_num st =
     LocalReplicated_get_gradients_to_apply device_num st"
| "get_gradients_to_apply tf m get_variable prefix
       (VariableMgrDistributedAllReduce cnn spec prefixes n b g) device_num st =
     DistributedAllReduce_get_gradients_to_apply device_num st"
| "get_gradients_to_apply tf m get_variable prefix (VariableMgrDistributedFetchFromPS cnn)
       device_num st =
     map_sum (\<lambda>e. e) fst (DistributedFetchFromPS_get_gradients_to_apply m cnn device_num st)"
| "get_gradients_to_apply tf m get_variable prefix (VariableMgrDistributedFetchFromStagedPS cnn)
       device_num st =
     map_sum (\<lambda>e. e) fst (DistributedFetchFromPS_get_gradients_to_apply m cnn device_num st)"
| "get_gradients_to_apply tf m get_variable prefix (VariableMgrDistributedReplicated cnn)
       device_num st =
     map_sum (\<lambda>e. e) fst
       (DistributedReplicated_get_gradients_to_apply m get_variable prefix cnn device_num st)"

subsection \<open>VariableMgrDistributedReplicated: applying the gradients\<close>

text \<open>
  Modelled from the spec: \<open>benchmark_cnn.add_sync_queues_and_barrier\<close>, a method of the
  benchmark object, which is not among the sources. The specification calls it a
  rendezvous, queue-based barrier across the workers; the call returns the barrier
  operation, kept here with the name prefix and the list of operations after which the
  worker enters the barrier.
\<close>

definition add_sync_queues_and_barrier :: "string \<Rightarrow> 'g graph_op list \<Rightarrow> 'g graph_op" where
  "add_sync_queues_and_barrier name_prefix enqueue_after_list =
     SyncBarrier name_prefix enqueue_after_list"

text \<open>
  The inner loop of \<open>get_apply_gradients_ops_func\<close> over \<open>range(len(devices))\<close>: one
  assignment of the updated value to the local copy \<open>device_grads[my_d][i][1]\<close> of each
  tower, created under \<open>tf.control_dependencies([barrier])\<close>.
\<close>

definition broadcast_assigns ::
  "benchmark_cnn \<Rightarrow> ('g, variable) device_grads \<Rightarrow> nat \<Rightarrow> 'g graph_op \<Rightarrow> 'g graph_op
     \<Rightarrow> py_error + 'g graph_op list" where
  "broadcast_assigns cnn device_grads i updated_value barrier =
     map_err (\<lambda>my_d.
        case py_index device_grads (int my_d) of
          Inl e \<Rightarrow> Inl e
        | Inr tower \<Rightarrow>
            (case py_index tower (int i) of
               Inl e \<Rightarrow> Inl e
             | Inr (g, v) \<Rightarrow> Inr (Assign v updated_value [barrier])))
       [0..<length (devices cnn)]"

text \<open>
  The outer loop over \<open>enumerate(grads)\<close>, from index \<open>i\<close> on: the gradient is applied to
  the shadow variable, the barrier \<open>replicate_variable_<i>\<close> is entered after that, and
  the value read after the barrier is assigned to every tower's copy.
\<close>

fun apply_gradients_ops_loop ::
  "benchmark_cnn \<Rightarrow> ('g, variable) device_grads \<Rightarrow> nat \<Rightarrow> ('g \<times> variable) list
     \<Rightarrow> py_error + 'g graph_op list" where
  "apply_gradients_ops_loop cnn device_grads i [] = Inr []"
| "apply_gradients_ops_loop cnn device_grads i ((g, v) # grads) =
     (let apply_gradient_op = ApplyGradients [(g, v)];
          barrier = add_sync_queues_and_barrier (''replicate_variable_'' @ str_nat i)
                      [apply_gradient_op];
          updated_value = ReadValue v [barrier]
      in case broadcast_assigns cnn device_grads i updated_value barrier of
           Inl e \<Rightarrow> Inl e
         | Inr assigns \<Rightarrow>
             (case apply_gradients_ops_loop cnn device_grads (Suc i) grads of
                Inl e \<Rightarrow> Inl e
              | Inr apply_gradients_ops \<Rightarrow> Inr (assigns @ apply_gradients_ops)))"

definition get_apply_gradients_ops_func ::
  "benchmark_cnn \<Rightarrow> ('g, variable) device_grads \<Rightarrow> ('g \<times> variable) list
     \<Rightarrow> py_error + 'g graph_op list" where
  "get_apply_gradients_ops_func cnn device_grads grads =
     apply_gradients_ops_loop cnn device_grads 0 grads"

text \<open>
  \<open>append_apply_gradients_ops\<close> hands the operations, the loss scale parameters and the
  inf/nan flag to \<open>variable_mgr_util.append_gradients_with_loss_scale\<close>.
\<close>

definition DistributedReplicated_append_apply_gradients_ops ::
  "('t \<Rightarrow> (py_error + 'g graph_op list) \<Rightarrow> 'p \<Rightarrow> inf_nan_flag \<Rightarrow> 'r) \<Rightarrow> benchmark_cnn
     \<Rightarrow> inf_nan_flag \<Rightarrow> ('g, variable) device_grads \<Rightarrow> ('g \<times> variable) list \<Rightarrow> 't \<Rightarrow> 'p \<Rightarrow> 'r" where
  "DistributedReplicated_append_apply_gradients_ops append_gradients_with_loss_scale cnn
       grad_has_inf_nan gradient_state grads training_ops loss_scale_params =
     append_gradients_with_loss_scale training_ops
       (get_apply_gradients_ops_func cnn gradient_state grads) loss_scale_params
       grad_has_inf_nan"

text \<open>
  The operations of parameter \<open>i\<close> as the specification names them: the barrier keyed by
  the parameter index, entered after the apply operation of that parameter, and the
  broadcast of the updated value to the copy of tower \<open>d\<close>.
\<close>

definition barrier_name :: "nat \<Rightarrow> string" where
  "barrier_name i = ''replicate_variable_'' @ str_nat i"

definition barrier_op :: "nat \<Rightarrow> 'g \<times> variable \<Rightarrow> 'g graph_op" where
  "barrier_op i gv = SyncBarrier (barrier_name i) [ApplyGradients [gv]]"

definition broadcast_read :: "nat \<Rightarrow> 'g \<times> variable \<Rightarrow> 'g graph_op" where
  "broadcast_read i gv = ReadValue (snd gv) [barrier_op i gv]"

definition broadcast_op ::
  "('g, variable) device_grads \<Rightarrow> nat \<Rightarrow> nat \<Rightarrow> 'g \<times> variable \<Rightarrow> 'g graph_op" where
  "broadcast_op device_grads d i gv =
     Assign (snd (device_grads ! d ! i)) (broadcast_read i gv) [barrier_op i gv]"

section \<open>Execution of the graph, from the specification\<close>

text \<open>
  Modelled from the spec: the runtime that executes the graph, which is not part of the
  repository. The specification says that the runtime respects data dependencies and
  that, at the barrier, the update-apply operation on every worker must complete before any
  worker's broadcast-read proceeds. An operation's inputs are its control and data
  dependencies; the graph of a worker holds the operations it returns and everything they
  depend on. A run lists the completions, each a worker and an operation, in the order
  they happen. A run is valid when every operation completes after its inputs on the same
  worker, and a barrier completes only after, on every worker, the operations that the
  worker handed to its barrier of the same name.
\<close>

fun op_inputs :: "'g graph_op \<Rightarrow> 'g graph_op list" where
  "op_inputs (ReadValue v deps) = deps"
| "op_inputs (Assign v x deps) = x # deps"
| "op_inputs (ApplyGradients gv) = []"
| "op_inputs (SyncBarrier n after) = after"

fun reachable_ops :: "'g graph_op \<Rightarrow> 'g graph_op list" where
  "reachable_ops (ReadValue v deps) = ReadValue v deps # concat (map reachable_ops deps)"
| "reachable_ops (Assign v x deps) =
     Assign v x deps # reachable_ops x @ concat (map reachable_ops deps)"
| "reachable_ops (ApplyGradients gv) = [ApplyGradients gv]"
| "reachable_ops (SyncBarrier n after) =
     SyncBarrier n after # concat (map reachable_ops after)"

definition graph_of :: "'g graph_op list \<Rightarrow> 'g graph_op list" where
  "graph_of ops = concat (map reachable_ops ops)"

definition entered_after :: "string \<Rightarrow> 'g graph_op \<Rightarrow> 'g graph_op list" where
  "entered_after n b = (case b of SyncBarrier n' after \<Rightarrow> if n' = n then after else [] | _ \<Rightarrow> [])"

definition barrier_waits_for :: "'g graph_op list list \<Rightarrow> 'g graph_op \<Rightarrow> (nat \<times> 'g graph_op) list" where
  "barrier_waits_for graphs b =
     (case b of
        SyncBarrier n after \<Rightarrow>
          concat (map (\<lambda>w'. map (\<lambda>d. (w', d)) (concat (map (entered_after n) (graphs ! w'))))
                    [0..<length graphs])
      | _ \<Rightarrow> [])"

definition valid_run :: "'g graph_op list list \<Rightarrow> (nat \<times> 'g graph_op) list \<Rightarrow> bool" where
  "valid_run graphs run =
     list_all (\<lambda>k. case run ! k of (w, b) \<Rightarrow>
                 list_all (\<lambda>d. (w, d) \<in> set (take k run)) (op_inputs b)
               \<and> list_all (\<lambda>ev. ev \<in> set (take k run)) (barrier_waits_for graphs b))
       [0..<length run]"

text \<open>
  A worker of the distributed replicated mode builds its part of the graph from its
  \<open>benchmark_cnn\<close>, its device gradients and the gradients it applies to the shadow
  variables. \<open>built_graphs\<close> holds when every worker has at least one device and its
  graph is the one of the operations \<open>get_apply_gradients_ops_func\<close> returns.
\<close>

type_synonym 'g worker = "benchmark_cnn \<times> ('g, variable) device_grads \<times> ('g \<times> variable) list"

definition worker_grads :: "'g worker \<Rightarrow> ('g \<times> variable) list" where
  "worker_grads worker = snd (snd worker)"

definition built_graphs :: "'g worker list \<Rightarrow> 'g graph_op list list \<Rightarrow> bool" where
  "built_graphs workers graphs =
     (length graphs = length workers
      \<and> list_all (\<lambda>w. case workers ! w of (cnn, device_grads, grads) \<Rightarrow>
                   devices cnn \<noteq> []
                 \<and> map_sum (\<lambda>e. e) graph_of (get_apply_gradients_ops_func cnn device_grads grads)
                     = Inr (graphs ! w))
          [0..<length workers])"

section \<open>Update targets\<close>

text \<open>
  \<open>self.benchmark_cnn\<close> of a manager, and the number of devices on which a manager applies
  gradients when there are \<open>n\<close> replicas: one, the parameter server device, for the four
  parameter-server classes and for the distributed replicated class, whose updates go to
  the shadow variables on the parameter servers; \<open>n\<close> for the independent, the local
  replicated and the distributed all-reduce class.
\<close>

fun manager_cnn :: "variable_mgr \<Rightarrow> benchmark_cnn" where
  "manager_cnn (VariableMgrIndependent cnn) = cnn"
| "manager_cnn (VariableMgrLocalFetchFromPS cnn) = cnn"
| "manager_cnn (VariableMgrLocalFetchFromStagedPS cnn) = cnn"
| "manager_cnn (VariableMgrLocalReplicated cnn _ _ _) = cnn"
| "manager_cnn (VariableMgrDistributedAllReduce cnn _ _ _ _ _) = cnn"
| "manager_cnn (VariableMgrDistributedFetchFromPS cnn) = cnn"
| "manager_cnn (VariableMgrDistributedFetchFromStagedPS cnn) = cnn"
| "manager_cnn (VariableMgrDistributedReplicated cnn) = cnn"

fun update_targets :: "variable_mgr \<Rightarrow> nat \<Rightarrow> nat" where
  "update_targets (VariableMgrIndependent _) n = n"
| "update_targets (VariableMgrLocalFetchFromPS _) n = 1"
| "update_targets (VariableMgrLocalFetchFromStagedPS _) n = 1"
| "update_targets (VariableMgrLocalReplicated _ _ _ _) n = n"
| "update_targets (VariableMgrDistributedAllReduce _ _ _ _ _ _) n = n"
| "update_targets (VariableMgrDistributedFetchFromPS _) n = 1"
| "update_targets (VariableMgrDistributedFetchFromStagedPS _) n = 1"
| "update_targets (VariableMgrDistributedReplicated _) n = 1"

section \<open>Aggregation by copy, from the specification\<close>

text \<open>
  \<open>zip(*tower_grads)\<close>: for each position present in every tower, the entries of all
  towers at that position, in tower order.
\<close>

definition common_length :: "'a list list \<Rightarrow> nat" where
  "common_length rows = (case rows of [] \<Rightarrow> 0 | r # rs \<Rightarrow> foldr (\<lambda>x n. min (length x) n) rs (length r))"

definition zip_star :: "'a list list \<Rightarrow> 'a list list" where
  "zip_star rows = map (\<lambda>j. map (\<lambda>row. row ! j) rows) [0..<common_length rows]"

text \<open>
  Modelled from the spec: \<open>aggregate_gradients_using_copy_with_device_selection\<close> of the
  module \<open>variable_mgr_util\<close>, which is not among the sources. The specification: given
  the device gradient matrix it produces one aggregated sequence of (gradient, parameter)
  pairs aligned positionally with the per-replica sequences; every replica's gradient for
  a parameter is copied to one device and summed there, or averaged when \<open>use_mean\<close>; with
  \<open>check_inf_nan\<close> it also returns a flag that is true iff any input gradient contained a
  non-finite value, for every parameter, reduced by logical or. The parameter handle of an
  aggregated pair is taken from the first replica.
\<close>

definition spec_aggregate_single ::
  "'g tensorflow \<Rightarrow> bool \<Rightarrow> ('g \<times> 'v) list \<Rightarrow> 'g \<times> 'v" where
  "spec_aggregate_single tf use_mean single_grads =
     (let grad = tf_add_n tf (map fst single_grads)
      in (if use_mean then tf_divide tf grad (length single_grads) else grad,
          snd (hd single_grads)))"

definition spec_aggregate_gradients_using_copy_with_device_selection ::
  "'g tensorflow \<Rightarrow> ('g, 'v) aggregate_with_device_selection_fn" where
  "spec_aggregate_gradients_using_copy_with_device_selection tf cnn tower_grads
       use_mean check_inf_nan =
     Inr (map (spec_aggregate_single tf use_mean) (zip_star tower_grads),
          if check_inf_nan
          then Some (list_ex (\<lambda>single_grads.
                       list_ex (\<lambda>(g, v). \<not> tf_is_finite_all tf g) single_grads)
                     (zip_star tower_grads))
          else None)"

text \<open>
  Modelled from the spec: \<open>split_grads_by_size\<close> of the module \<open>allreduce\<close>, which is not
  among the sources. The specification: given a byte limit it partitions the gradients in
  positional order by a cumulative threshold pass; once the running byte total of the
  current batch would exceed the limit, the batch is closed and a new one starts; every
  partition's cumulative byte size is at most the limit, except a partition of a single
  gradient whose own size exceeds the limit; the partitions concatenated are the original
  list in order. The call returns, of every tower, the first batch and what follows it;
  a tower of which nothing is taken, or nothing is left, is not listed in that result, so
  that a result without gradients is the empty list. \<open>byte_size\<close> gives the number of
  bytes of a gradient.

  \<open>within_limit\<close> counts the leading gradients that the pass adds to a batch of the given
  running byte total before it closes the batch; \<open>first_batch\<close> is the length of the first
  batch of a tower.
\<close>

fun within_limit :: "('g \<Rightarrow> int) \<Rightarrow> int \<Rightarrow> int \<Rightarrow> ('g \<times> 'v) list \<Rightarrow> nat" where
  "within_limit byte_size byte_limit running [] = 0"
| "within_limit byte_size byte_limit running ((g, v) # grads) =
     (if running + byte_size g \<le> byte_limit
      then Suc (within_limit byte_size byte_limit (running + byte_size g) grads)
      else 0)"

definition first_batch :: "('g \<Rightarrow> int) \<Rightarrow> int \<Rightarrow> ('g \<times> 'v) list \<Rightarrow> nat" where
  "first_batch byte_size byte_limit tower =
     (if tower = [] then 0 else max 1 (within_limit byte_size byte_limit 0 tower))"

definition spec_split_grads_by_size :: "('g \<Rightarrow> int) \<Rightarrow> ('g, 'v) split_grads_by_size_fn" where
  "spec_split_grads_by_size byte_size byte_limit device_grads =
     Inr (filter (\<lambda>tower. tower \<noteq> [])
            (map (\<lambda>tower. take (first_batch byte_size byte_limit tower) tower) device_grads),
          filter (\<lambda>tower. tower \<noteq> [])
            (map (\<lambda>tower. drop (first_batch byte_size byte_limit tower) tower) device_grads))"

section \<open>Tensors as lists\<close>

text \<open>
  A dense tensor: its shape and its elements in row-major order. A tensor is well formed
  when the product of its shape is the number of its elements. The structural operations
  of TensorFlow on such tensors: flattening keeps the elements, concatenation of rank-1
  tensors appends them, \<open>tf.split(value, size_splits)\<close> cuts a rank-1 tensor into pieces
  of the given sizes, and \<open>tf.reshape\<close> fails unless the new shape has as many elements.
  One size of a split may be -1: it stands for what the other sizes leave of the tensor.
  The split fails unless the sizes, with that one filled in, are non-negative and sum to
  the length of the tensor.
\<close>

record 'a tensor =
  shape :: "nat list"
  elems :: "'a list"

definition well_formed :: "'a tensor \<Rightarrow> bool" where
  "well_formed g = (prod_list (shape g) = length (elems g))"

definition rank1 :: "'a list \<Rightarrow> 'a tensor" where
  "rank1 xs = \<lparr>shape = [length xs], elems = xs\<rparr>"

fun chop :: "nat list \<Rightarrow> 'a list \<Rightarrow> 'a list list" where
  "chop [] xs = []"
| "chop (n # ns) xs = take n xs # chop ns (drop n xs)"

definition tensor_concat :: "'a tensor list \<Rightarrow> py_error + 'a tensor" where
  "tensor_concat gs =
     (if gs = [] then Inl TFError else Inr (rank1 (concat (map elems gs))))"

definition inferred_sizes :: "int \<Rightarrow> int list \<Rightarrow> int list" where
  "inferred_sizes whole size_splits =
     (let given = filter (\<lambda>n. n \<noteq> - 1) size_splits
      in if length given + 1 = length size_splits
         then map (\<lambda>n. if n = - 1 then whole - sum_list given else n) size_splits
         else size_splits)"

definition tensor_split :: "'a tensor \<Rightarrow> int list \<Rightarrow> py_error + 'a tensor list" where
  "tensor_split g size_splits =
     (let sizes = inferred_sizes (int (length (elems g))) size_splits
      in if list_all (\<lambda>n. 0 \<le> n) sizes \<and> sum_list sizes = int (length (elems g))
         then Inr (map rank1 (chop (map nat sizes) (elems g)))
         else Inl TFError)"

definition tensor_reshape :: "'a tensor \<Rightarrow> nat list \<Rightarrow> py_error + 'a tensor" where
  "tensor_reshape g new_shape =
     (if prod_list new_shape = length (elems g)
      then Inr \<lparr>shape = new_shape, elems = elems g\<rparr>
      else Inl TFError)"

text \<open>
  The sum of tensors of one shape, element by element, and the division of every element
  by a number, from the sum and the division of the elements.
\<close>

definition tensor_add :: "('a \<Rightarrow> 'a \<Rightarrow> 'a) \<Rightarrow> 'a tensor \<Rightarrow> 'a tensor \<Rightarrow> 'a tensor" where
  "tensor_add add g h = \<lparr>shape = shape g, elems = map (\<lambda>(x, y). add x y) (zip (elems g) (elems h))\<rparr>"

fun tensor_add_n :: "('a \<Rightarrow> 'a \<Rightarrow> 'a) \<Rightarrow> 'a tensor list \<Rightarrow> 'a tensor" where
  "tensor_add_n add [] = \<lparr>shape = [0], elems = []\<rparr>"
| "tensor_add_n add (g # gs) = foldl (tensor_add add) g gs"

definition tensor_divide :: "('a \<Rightarrow> nat \<Rightarrow> 'a) \<Rightarrow> 'a tensor \<Rightarrow> nat \<Rightarrow> 'a tensor" where
  "tensor_divide div_by g n = \<lparr>shape = shape g, elems = map (\<lambda>x. div_by x n) (elems g)\<rparr>"

text \<open>
  TensorFlow on tensors as lists, from the arithmetic of the elements, the test that an
  element is finite and the placement of tensors on devices.
\<close>

definition tensor_ops ::
  "('a \<Rightarrow> 'a \<Rightarrow> 'a) \<Rightarrow> ('a \<Rightarrow> nat \<Rightarrow> 'a) \<Rightarrow> ('a \<Rightarrow> bool) \<Rightarrow> ('a tensor \<Rightarrow> device)
     \<Rightarrow> 'a tensor tensorflow" where
  "tensor_ops add div_by is_finite device_of =
     \<lparr>tf_add_n = tensor_add_n add,
      tf_divide = tensor_divide div_by,
      tf_is_finite_all = (\<lambda>g. list_all is_finite (elems g)),
      tf_flatten = (\<lambda>g. rank1 (elems g)),
      tf_shape = shape,
      tf_size = (\<lambda>g. int (length (elems g))),
      tf_concat = tensor_concat,
      tf_split = tensor_split,
      tf_reshape = tensor_reshape,
      tf_device = device_of\<rparr>"

text \<open>
  The repacking as the specification words it: a replica's gradients are flattened and
  concatenated into one buffer, and the buffer is cut into contiguous chunks of the sizes
  \<open>split_sizes\<close>, each chunk a pseudo-gradient with a null parameter handle. A reduction
  keeps the pack sizes when every reduced pack has as many elements as the pack it
  replaces.
\<close>

definition buffer_of :: "('a tensor \<times> 'v) list \<Rightarrow> 'a list" where
  "buffer_of tower = concat (map (\<lambda>(g, v). elems g) tower)"

definition repacked :: "int \<Rightarrow> ('a tensor \<times> 'v) list \<Rightarrow> ('a tensor \<times> 'w option) list" where
  "repacked num_splits tower =
     map (\<lambda>chunk. (rank1 chunk, None))
       (chop (map nat (split_sizes (int (length (buffer_of tower))) num_splits))
          (buffer_of tower))"

definition same_pack_sizes ::
  "('a tensor \<times> 'w) list list \<Rightarrow> ('a tensor \<times> 'w) list list \<Rightarrow> bool" where
  "same_pack_sizes summed packs =
     list_all2 (\<lambda>s p. map (\<lambda>(g, v). length (elems g)) s = map (\<lambda>(g, v). length (elems g)) p)
       summed packs"

text \<open>
  Floating-point values with their non-finite members, and their arithmetic. The sum or
  the quotient of finite values is the exact result rounded to the type of the tensor,
  to an infinity when it is too large: the rounding \<open>rnd\<close> is a parameter, as the type is
  not fixed by the program. With a non-finite operand the result follows IEEE 754: NaN
  if an operand is NaN or the infinities have opposite signs, the infinity otherwise;
  a finite value divided by zero is NaN if it is zero and an infinity of its sign
  otherwise. The sign of a zero is not told apart.
\<close>

datatype fp = Finite real | PosInf | NegInf | NaN

fun fp_finite :: "fp \<Rightarrow> bool" where
  "fp_finite (Finite x) = True"
| "fp_finite _ = False"

fun fp_add :: "(real \<Rightarrow> fp) \<Rightarrow> fp \<Rightarrow> fp \<Rightarrow> fp" where
  "fp_add rnd (Finite x) (Finite y) = rnd (x + y)"
| "fp_add rnd NaN y = NaN"
| "fp_add rnd x NaN = NaN"
| "fp_add rnd PosInf NegInf = NaN"
| "fp_add rnd NegInf PosInf = NaN"
| "fp_add rnd PosInf y = PosInf"
| "fp_add rnd x PosInf = PosInf"
| "fp_add rnd NegInf y = NegInf"
| "fp_add rnd x NegInf = NegInf"

fun fp_div :: "(real \<Rightarrow> fp) \<Rightarrow> fp \<Rightarrow> nat \<Rightarrow> fp" where
  "fp_div rnd (Finite x) n =
     (if n = 0 then (if x = 0 then NaN else if 0 < x then PosInf else NegInf)
      else rnd (x / real n))"
| "fp_div rnd PosInf n = PosInf"
| "fp_div rnd NegInf n = NegInf"
| "fp_div rnd NaN n = NaN"

text \<open>
  TensorFlow on tensors of such values, for the examples. Their values are the integers
  from 1 to 15, whose sums and halves every binary floating-point type of TensorFlow
  holds exactly, so that the rounding of the examples returns the exact result.
\<close>

definition fp_tensors :: "fp tensor tensorflow" where
  "fp_tensors = tensor_ops (fp_add Finite) (fp_div Finite) fp_finite (\<lambda>g. ''/gpu:0'')"

section \<open>Example inputs\<close>

text \<open>A machine with two GPUs and automatic loss scaling, used to run the model.\<close>

definition two_gpus :: benchmark_cnn where
  "two_gpus =
     \<lparr>devices = [''/gpu:0'', ''/gpu:1''], raw_devices = [''/gpu:0'', ''/gpu:1''],
      param_server_device = ''/cpu:0'', cpu_device = ''/cpu:0'', gpu_indices = [0, 1],
      enable_auto_loss_scale = True, hierarchical_copy = False, gradient_repacking = 0\<rparr>"

text \<open>The same machine with hierarchical copy and a gradient repacking factor of 2.\<close>

definition two_gpus_repacking :: benchmark_cnn where
  "two_gpus_repacking = two_gpus\<lparr>hierarchical_copy := True, gradient_repacking := 2\<rparr>"

text \<open>The first GPU of that machine alone, with the same settings.\<close>

definition one_gpu_repacking :: benchmark_cnn where
  "one_gpu_repacking =
     two_gpus_repacking\<lparr>devices := [''/gpu:0''], raw_devices := [''/gpu:0''], gpu_indices := [0]\<rparr>"

text \<open>A parser that reads every spec string as the same two ranges.\<close>

definition two_ranges :: parse_all_reduce_spec_fn where
  "two_ranges s =
     Inr [\<lparr>alg = ''nccl'', shards = 1, limit = 1048576\<rparr>, \<lparr>alg = ''xring'', shards = 2, limit = - 1\<rparr>]"

text \<open>
  An all-reduce for the examples: every tower receives, at each position, the sum of the
  gradients that the towers hold at that position, next to its own variable.
\<close>

definition sum_over_towers :: "'g tensorflow \<Rightarrow> ('g, 'v) device_grads \<Rightarrow> ('g, 'v) device_grads" where
  "sum_over_towers tf tower_grads =
     map (\<lambda>tower. map (\<lambda>(single_grads, (g, v)). (tf_add_n tf (map fst single_grads), v))
                    (zip (zip_star tower_grads) tower))
       tower_grads"

text \<open>
  The sibling modules for the examples: the aggregation by copy of the specification in
  every aggregation function that returns one list, the sum over the towers in every
  reduction, and the split of the specification for gradients of four bytes an element.
\<close>

definition example_modules :: "'g tensorflow \<Rightarrow> ('g, 'v) modules" where
  "example_modules tf =
     \<lparr>sum_gradients_all_reduce =
        (\<lambda>prefixes tower_grads n a s idx b g. Inr (sum_over_towers tf tower_grads)),
      split_grads_by_size = spec_split_grads_by_size (\<lambda>g. 4 * tf_size tf g),
      aggregate_gradients_using_copy =
        spec_aggregate_gradients_using_copy_with_device_selection tf two_gpus,
      aggregate_gradients_using_copy_with_variable_colocation =
        spec_aggregate_gradients_using_copy_with_device_selection tf two_gpus,
      aggregate_gradients_using_copy_with_device_selection =
        spec_aggregate_gradients_using_copy_with_device_selection tf,
      aggregate_gradients_using_hierarchical_copy =
        (\<lambda>cnn tower_grads use_mean chk. Inr (sum_over_towers tf tower_grads, None)),
      aggregate_gradients_using_hierarchical_copy_packs =
        (\<lambda>cnn tower_grads use_mean chk. Inr (sum_over_towers tf tower_grads, None))\<rparr>"

text \<open>Two variables of a two-tower model and scalar gradients for them.\<close>

definition w0 :: variable where "w0 = \<lparr>name = ''v0/conv/w:0'', uid = 1\<rparr>"

definition w1 :: variable where "w1 = \<lparr>name = ''v1/conv/w:0'', uid = 2\<rparr>"

definition scalar :: "real \<Rightarrow> fp tensor" where
  "scalar x = \<lparr>shape = [], elems = [Finite x]\<rparr>"

text \<open>\<open>tf.get_variable\<close> in a graph where the name is free: a new variable of that name.\<close>

definition new_variable :: "string \<Rightarrow> variable \<Rightarrow> py_error + variable" where
  "new_variable my_name v = Inr \<lparr>name = my_name @ '':0'', uid = uid v + 100\<rparr>"

text \<open>The shadow variable of \<open>conv/w\<close> on the parameter server.\<close>

definition shadow_w :: variable where
  "shadow_w = \<lparr>name = ''ps_var/v0/conv/w:0'', uid = 101\<rparr>"

text \<open>
  Two workers of the distributed replicated mode with one parameter, their graphs, and a
  run in which both apply their gradient before worker 0 passes the barrier, reads the
  updated value and assigns it to its first tower's copy.
\<close>

definition example_device_grads :: "(fp tensor, variable) device_grads" where
  "example_device_grads = [[(scalar 1, w0)], [(scalar 2, w1)]]"

definition example_workers :: "fp tensor worker list" where
  "example_workers =
     [(two_gpus, example_device_grads, [(scalar 3, shadow_w)]),
      (two_gpus, example_device_grads, [(scalar 4, shadow_w)])]"

definition example_graphs :: "fp tensor graph_op list list" where
  "example_graphs =
     [graph_of [broadcast_op example_device_grads 0 0 (scalar 3, shadow_w),
                broadcast_op example_device_grads 1 0 (scalar 3, shadow_w)],
      graph_of [broadcast_op example_device_grads 0 0 (scalar 4, shadow_w),
                broadcast_op example_device_grads 1 0 (scalar 4, shadow_w)]]"

definition example_run :: "(nat \<times> fp tensor graph_op) list" where
  "example_run =
     [(0, ApplyGradients [(scalar 3, shadow_w)]),
      (1, ApplyGradients [(scalar 4, shadow_w)]),
      (0, barrier_op 0 (scalar 3, shadow_w)),
      (0, broadcast_read 0 (scalar 3, shadow_w)),
      (0, broadcast_op example_device_grads 0 0 (scalar 3, shadow_w))]"

section \<open>Facts about the string helpers\<close>

lemma split_not_Nil: "split sep s \<noteq> []"
  by (induction s) (auto split: list.splits)

lemma split_update_hd: "(split sep s)[0 := x] = x # tl (split sep s)"
  using split_not_Nil [of sep s] by (cases "split sep s") auto

lemma LocalReplicated_savable_loop_filter:
  "LocalReplicated_savable_loop vs params = params @ filter is_saved vs"
  by (induction vs arbitrary: params) (auto simp: is_saved_def scope_of_def Let_def)

lemma DistributedAllReduce_savable_loop_filter:
  "DistributedAllReduce_savable_loop vs params = params @ filter is_saved vs"
  by (induction vs arbitrary: params) (auto simp: is_saved_def scope_of_def Let_def)

lemma post_init_loops_agree:
  "LocalReplicated_post_init_loop m vs ops = DistributedAllReduce_post_init_loop m vs ops"
  by (induction vs arbitrary: ops) (auto simp: Let_def split: option.splits)

lemma LocalReplicated_post_init_loop_Inr:
  "(LocalReplicated_post_init_loop m vs acc = Inr ops) =
   (\<exists>new. ops = acc @ new \<and> list_all2 (copy_op m) (filter copied_after_init vs) new)"
proof (induction vs arbitrary: acc)
  case Nil
  then show ?case by auto
next
  case (Cons v vs)
  show ?case
  proof (cases "copied_after_init v")
    case False
    then show ?thesis
      using Cons.IH [of acc] by (auto simp: copied_after_init_def scope_of_def Let_def)
  next
    case True
    show ?thesis
    proof (cases "m (name_under_v0 v)")
      case None
      then show ?thesis using True
        by (auto simp: copied_after_init_def scope_of_def Let_def name_under_v0_def
            split_update_hd copy_op_def list_all2_Cons1)
    next
      case (Some c)
      then show ?thesis using True Cons.IH [of "acc @ [Assign v (ReadValue c []) []]"]
        by (auto simp: copied_after_init_def scope_of_def Let_def name_under_v0_def
            split_update_hd copy_op_def list_all2_Cons1)
    qed
  qed
qed

lemma LocalReplicated_post_init_loop_Inl:
  "(\<exists>e. LocalReplicated_post_init_loop m vs acc = Inl e) =
   (\<exists>v \<in> set vs. copied_after_init v \<and> m (name_under_v0 v) = None)"
proof (induction vs arbitrary: acc)
  case Nil
  then show ?case by auto
next
  case (Cons v vs)
  show ?case
  proof (cases "copied_after_init v")
    case False
    then show ?thesis
      using Cons.IH [of acc] by (auto simp: copied_after_init_def scope_of_def Let_def)
  next
    case True
    show ?thesis
    proof (cases "m (name_under_v0 v)")
      case None
      then show ?thesis using True
        by (auto simp: copied_after_init_def scope_of_def Let_def name_under_v0_def
            split_update_hd)
    next
      case (Some c)
      then show ?thesis using True Cons.IH [of "acc @ [Assign v (ReadValue c []) []]"]
        by (auto simp: copied_after_init_def scope_of_def Let_def name_under_v0_def
            split_update_hd)
    qed
  qed
qed

lemma digit_char_eq_0: "d < 10 \<Longrightarrow> (digit_char d = CHR ''0'') = (d = 0)"
proof -
  assume "d < 10"
  then have "d \<in> {0,1,2,3,4,5,6,7,8,9}" by auto
  then show ?thesis by (auto simp: digit_char_def)
qed

lemma digit_char_inj: "a < 10 \<Longrightarrow> b < 10 \<Longrightarrow> digit_char a = digit_char b \<Longrightarrow> a = b"
proof -
  assume "a < 10" "b < 10" and e: "digit_char a = digit_char b"
  then have "a \<in> {0,1,2,3,4,5,6,7,8,9}" "b \<in> {0,1,2,3,4,5,6,7,8,9}" by auto
  then show ?thesis using e by (auto simp: digit_char_def)
qed

lemma digit_char_not_slash: "d < 10 \<Longrightarrow> digit_char d \<noteq> CHR ''/''"
proof -
  assume "d < 10"
  then have "d \<in> {0,1,2,3,4,5,6,7,8,9}" by auto
  then show ?thesis by (auto simp: digit_char_def)
qed

lemma str_nat_not_Nil: "str_nat n \<noteq> []"
  by (subst str_nat.simps) auto

lemma str_nat_eq_0: "(str_nat n = ''0'') = (n = 0)"
proof (cases "n < 10")
  case True
  then show ?thesis using digit_char_eq_0 [of n] by (subst str_nat.simps) auto
next
  case False
  then show ?thesis using str_nat_not_Nil [of "n div 10"]
    by (subst str_nat.simps) (auto simp: append_eq_Cons_conv)
qed

lemma str_nat_no_slash: "CHR ''/'' \<notin> set (str_nat n)"
proof (induction n rule: str_nat.induct)
  case (1 n)
  show ?case
  proof (cases "n < 10")
    case True
    then show ?thesis using digit_char_not_slash [of n] by (subst str_nat.simps) auto
  next
    case False
    then show ?thesis using 1 digit_char_not_slash [of "n mod 10"]
      by (subst str_nat.simps) auto
  qed
qed

lemma str_nat_inj: "str_nat a = str_nat b \<Longrightarrow> a = b"
proof (induction a arbitrary: b rule: str_nat.induct)
  case (1 a)
  show ?case
  proof (cases "a < 10")
    case a: True
    show ?thesis
    proof (cases "b < 10")
      case True
      then show ?thesis using a "1.prems" digit_char_inj [of a b]
        by (simp add: str_nat.simps [of a] str_nat.simps [of b])
    next
      case False
      then show ?thesis using a "1.prems" str_nat_not_Nil [of "b div 10"]
        by (simp add: str_nat.simps [of a] str_nat.simps [of b] Cons_eq_append_conv)
    qed
  next
    case a: False
    show ?thesis
    proof (cases "b < 10")
      case True
      then show ?thesis using a "1.prems" str_nat_not_Nil [of "a div 10"]
        by (simp add: str_nat.simps [of a] str_nat.simps [of b] append_eq_Cons_conv)
    next
      case False
      then have "str_nat (a div 10) = str_nat (b div 10)" "digit_char (a mod 10) = digit_char (b mod 10)"
        using a "1.prems" by (simp_all add: str_nat.simps [of a] str_nat.simps [of b])
      then have "a div 10 = b div 10" "a mod 10 = b mod 10"
        using "1.IH" [OF a] digit_char_inj [of "a mod 10" "b mod 10"] by auto
      then show ?thesis by (metis div_mult_mod_eq)
    qed
  qed
qed

lemma split_no_sep: "sep \<notin> set s \<Longrightarrow> split sep (s @ sep # rest) = s # split sep rest"
  by (induction s) auto

lemma split_no_sep_whole: "sep \<notin> set s \<Longrightarrow> split sep s = [s]"
  by (induction s) auto

section \<open>Savable variables of the local replicated mode\<close>

text \<open>
  Claim C9 as it is worded: a global variable is saved exactly when it belongs to replica 0's
  scope. The code also keeps every variable whose name does not start with \<open>v\<close>: the
  variable \<open>global_step:0\<close> is saved although its scope is not \<open>v0\<close>.
\<close>

theorem C9_claim_as_stated_counterexample:
  "\<lparr>name = ''global_step:0'', uid = 0\<rparr>
     \<in> set (LocalReplicated_savable_variables
              [\<lparr>name = ''v0/conv/w:0'', uid = 1\<rparr>, \<lparr>name = ''global_step:0'', uid = 0\<rparr>])
   \<and> scope_of \<lparr>name = ''global_step:0'', uid = 0\<rparr> \<noteq> ''v0''"
  by (simp add: LocalReplicated_savable_variables_def scope_of_def startswith_def)

text \<open>
  Claim C9, amended: \<open>VariableMgrLocalReplicated.savable_variables\<close> returns, in the
  order of \<open>tf.global_variables()\<close>, exactly the variables whose scope is \<open>v0\<close> or
  whose name does not start with \<open>v\<close>. No variable created under the scope of a replica
  \<open>k \<noteq> 0\<close> is saved, and every global variable created under replica 0's scope is.
\<close>

theorem C9_savable_variables_LocalReplicated:
  "LocalReplicated_savable_variables global_vars =
     filter (\<lambda>v. scope_of v = ''v0'' \<or> \<not> startswith (name v) ''v'') global_vars
   \<and> (\<forall>v k rest. k \<noteq> 0 \<and> name v = create_outer_variable_scope k @ ''/'' @ rest
          \<longrightarrow> v \<notin> set (LocalReplicated_savable_variables global_vars))
   \<and> (\<forall>v rest. v \<in> set global_vars \<and> name v = create_outer_variable_scope 0 @ ''/'' @ rest
          \<longrightarrow> v \<in> set (LocalReplicated_savable_variables global_vars))"
proof -
  have flt: "LocalReplicated_savable_variables global_vars = filter is_saved global_vars"
    by (simp add: LocalReplicated_savable_variables_def LocalReplicated_savable_loop_filter)
  have scope: "scope_of v = create_outer_variable_scope k"
    if "name v = create_outer_variable_scope k @ ''/'' @ rest" for v k rest
  proof -
    have "CHR ''/'' \<notin> set (create_outer_variable_scope k)"
      using str_nat_no_slash [of k] by (simp add: create_outer_variable_scope_def)
    then show ?thesis
      using that split_no_sep [of "CHR ''/''" "create_outer_variable_scope k" rest]
      by (simp add: scope_of_def)
  qed
  have other: "\<not> is_saved v"
    if "k \<noteq> 0" "name v = create_outer_variable_scope k @ ''/'' @ rest" for v k rest
    using that scope [OF that(2)] str_nat_eq_0 [of k]
    by (simp add: is_saved_def create_outer_variable_scope_def startswith_def)
  have zero: "is_saved v"
    if "name v = create_outer_variable_scope 0 @ ''/'' @ rest" for v rest
    using scope [OF that] str_nat_eq_0 [of 0]
    by (simp add: is_saved_def create_outer_variable_scope_def)
  show ?thesis
    using other zero by (auto simp: flt is_saved_def [abs_def])
qed

theorem C9_savable_variables_LocalReplicated_witness:
  "LocalReplicated_savable_variables
     [\<lparr>name = ''v0/conv/w:0'', uid = 1\<rparr>, \<lparr>name = ''v1/conv/w:0'', uid = 2\<rparr>,
      \<lparr>name = ''global_step:0'', uid = 0\<rparr>]
   = [\<lparr>name = ''v0/conv/w:0'', uid = 1\<rparr>, \<lparr>name = ''global_step:0'', uid = 0\<rparr>]
   \<and> \<lparr>name = ''v1/conv/w:0'', uid = 2\<rparr> \<notin> set (LocalReplicated_savable_variables
     [\<lparr>name = ''v0/conv/w:0'', uid = 1\<rparr>, \<lparr>name = ''v1/conv/w:0'', uid = 2\<rparr>,
      \<lparr>name = ''global_step:0'', uid = 0\<rparr>])
   \<and> \<lparr>name = ''v0/conv/w:0'', uid = 1\<rparr> \<in> set (LocalReplicated_savable_variables
     [\<lparr>name = ''v0/conv/w:0'', uid = 1\<rparr>, \<lparr>name = ''v1/conv/w:0'', uid = 2\<rparr>,
      \<lparr>name = ''global_step:0'', uid = 0\<rparr>])"
proof -
  let ?gv = "[\<lparr>name = ''v0/conv/w:0'', uid = 1\<rparr>, \<lparr>name = ''v1/conv/w:0'', uid = 2\<rparr>,
      \<lparr>name = ''global_step:0'', uid = 0\<rparr>]"
  note inst = C9_savable_variables_LocalReplicated [of ?gv]
  have n1: "(1::nat) \<noteq> 0 \<and> name \<lparr>name = ''v1/conv/w:0'', uid = 2\<rparr> = create_outer_variable_scope 1 @ ''/'' @ ''conv/w:0''"
    by (simp add: create_outer_variable_scope_def str_nat.simps digit_char_def)
  have n0: "\<lparr>name = ''v0/conv/w:0'', uid = 1\<rparr> \<in> set ?gv \<and> name \<lparr>name = ''v0/conv/w:0'', uid = 1\<rparr> = create_outer_variable_scope 0 @ ''/'' @ ''conv/w:0''"
    by (simp add: create_outer_variable_scope_def str_nat.simps digit_char_def)
  have a: "LocalReplicated_savable_variables ?gv = [\<lparr>name = ''v0/conv/w:0'', uid = 1\<rparr>, \<lparr>name = ''global_step:0'', uid = 0\<rparr>]"
    using inst by (simp add: scope_of_def startswith_def)
  from inst n1 have b: "\<lparr>name = ''v1/conv/w:0'', uid = 2\<rparr> \<notin> set (LocalReplicated_savable_variables ?gv)" by blast
  from inst n0 have c: "\<lparr>name = ''v0/conv/w:0'', uid = 1\<rparr> \<in> set (LocalReplicated_savable_variables ?gv)" by blast
  from a b c show ?thesis by blast
qed

lemma var_by_name_Some:
  "var_by_name global_vars n = Some c \<Longrightarrow> name c = n \<and> c \<in> set global_vars"
  unfolding var_by_name_def by (auto dest!: map_of_SomeD)

section \<open>Local replicated and distributed all-reduce agree\<close>

text \<open>
  Claim C10: for every list of global variables, \<open>VariableMgrLocalReplicated\<close> and
  \<open>VariableMgrDistributedAllReduce\<close> return the same result from \<open>get_post_init_ops\<close>
  and from \<open>savable_variables\<close>. \<open>get_post_init_ops\<close> returns a list exactly when it
  holds, in order, one assignment for each variable whose name starts with \<open>v\<close> and
  whose scope is not \<open>v0\<close>, reading the variable registered under the same name with
  the scope replaced by \<open>v0\<close>; it raises KeyError exactly when some such variable has no
  counterpart under \<open>v0\<close>. \<open>savable_variables\<close> returns the variables of scope
  \<open>v0\<close> and those whose name does not start with \<open>v\<close>.
\<close>

theorem C10_LocalReplicated_DistributedAllReduce_agree:
  "LocalReplicated_get_post_init_ops global_vars
     = (DistributedAllReduce_get_post_init_ops global_vars :: py_error + 'g graph_op list)
   \<and> LocalReplicated_savable_variables global_vars
     = DistributedAllReduce_savable_variables global_vars
   \<and> ((LocalReplicated_get_post_init_ops global_vars = Inr (ops :: 'g graph_op list))
       = list_all2 (copy_op (var_by_name global_vars)) (filter copied_after_init global_vars) ops)
   \<and> ((\<exists>e. LocalReplicated_get_post_init_ops global_vars = (Inl e :: py_error + 'g graph_op list))
       = (\<exists>v \<in> set global_vars. copied_after_init v
            \<and> var_by_name global_vars (name_under_v0 v) = None))
   \<and> (\<forall>v c. var_by_name global_vars (name_under_v0 v) = Some c
         \<longrightarrow> name c = name_under_v0 v \<and> c \<in> set global_vars)
   \<and> LocalReplicated_savable_variables global_vars = filter is_saved global_vars"
proof -
  have a: "LocalReplicated_get_post_init_ops global_vars
     = (DistributedAllReduce_get_post_init_ops global_vars :: py_error + 'g graph_op list)"
    by (simp add: LocalReplicated_get_post_init_ops_def DistributedAllReduce_get_post_init_ops_def
        post_init_loops_agree)
  have b: "LocalReplicated_savable_variables global_vars
     = DistributedAllReduce_savable_variables global_vars"
    by (simp add: LocalReplicated_savable_variables_def DistributedAllReduce_savable_variables_def
        LocalReplicated_savable_loop_filter DistributedAllReduce_savable_loop_filter)
  have c: "(LocalReplicated_get_post_init_ops global_vars = Inr ops)
       = list_all2 (copy_op (var_by_name global_vars)) (filter copied_after_init global_vars) ops"
    by (simp add: LocalReplicated_get_post_init_ops_def LocalReplicated_post_init_loop_Inr)
  have d: "(\<exists>e. LocalReplicated_get_post_init_ops global_vars = (Inl e :: py_error + 'g graph_op list))
       = (\<exists>v \<in> set global_vars. copied_after_init v
            \<and> var_by_name global_vars (name_under_v0 v) = None)"
    unfolding LocalReplicated_get_post_init_ops_def
    by (rule LocalReplicated_post_init_loop_Inl)
  have e: "\<forall>v c. var_by_name global_vars (name_under_v0 v) = Some c
         \<longrightarrow> name c = name_under_v0 v \<and> c \<in> set global_vars"
    using var_by_name_Some by blast
  have f: "LocalReplicated_savable_variables global_vars = filter is_saved global_vars"
    by (simp add: LocalReplicated_savable_variables_def LocalReplicated_savable_loop_filter)
  from a b c d e f show ?thesis by blast
qed

theorem C10_LocalReplicated_DistributedAllReduce_agree_witness:
  "DistributedAllReduce_get_post_init_ops
     [\<lparr>name = ''v0/conv/w:0'', uid = 1\<rparr>, \<lparr>name = ''v1/conv/w:0'', uid = 2\<rparr>,
      \<lparr>name = ''global_step:0'', uid = 0\<rparr>]
   = (Inr [Assign \<lparr>name = ''v1/conv/w:0'', uid = 2\<rparr>
             (ReadValue \<lparr>name = ''v0/conv/w:0'', uid = 1\<rparr> []) []] :: py_error + unit graph_op list)
   \<and> DistributedAllReduce_savable_variables
     [\<lparr>name = ''v0/conv/w:0'', uid = 1\<rparr>, \<lparr>name = ''v1/conv/w:0'', uid = 2\<rparr>,
      \<lparr>name = ''global_step:0'', uid = 0\<rparr>]
   = [\<lparr>name = ''v0/conv/w:0'', uid = 1\<rparr>, \<lparr>name = ''global_step:0'', uid = 0\<rparr>]"
proof -
  let ?gv = "[\<lparr>name = ''v0/conv/w:0'', uid = 1\<rparr>, \<lparr>name = ''v1/conv/w:0'', uid = 2\<rparr>,
      \<lparr>name = ''global_step:0'', uid = 0\<rparr>]"
  let ?ops = "[Assign \<lparr>name = ''v1/conv/w:0'', uid = 2\<rparr>
             (ReadValue \<lparr>name = ''v0/conv/w:0'', uid = 1\<rparr> []) []] :: unit graph_op list"
  note inst = C10_LocalReplicated_DistributedAllReduce_agree [of ?gv ?ops]
  have flt: "filter copied_after_init ?gv = [\<lparr>name = ''v1/conv/w:0'', uid = 2\<rparr>]"
    by (simp add: copied_after_init_def scope_of_def startswith_def)
  have cp: "list_all2 (copy_op (var_by_name ?gv)) (filter copied_after_init ?gv) ?ops"
    unfolding flt by (simp add: copy_op_def var_by_name_def name_under_v0_def)
  have sv: "filter is_saved ?gv = [\<lparr>name = ''v0/conv/w:0'', uid = 1\<rparr>, \<lparr>name = ''global_step:0'', uid = 0\<rparr>]"
    by (simp add: is_saved_def scope_of_def startswith_def)
  from inst cp have "DistributedAllReduce_get_post_init_ops ?gv = (Inr ?ops :: py_error + unit graph_op list)"
    by metis
  moreover from inst sv have "DistributedAllReduce_savable_variables ?gv
     = [\<lparr>name = ''v0/conv/w:0'', uid = 1\<rparr>, \<lparr>name = ''global_step:0'', uid = 0\<rparr>]"
    by metis
  ultimately show ?thesis by blast
qed

section \<open>Constructors reject an invalid all-reduce spec\<close>

text \<open>
  Claim C7: the constructor of the distributed all-reduce manager raises ValueError for an
  all-reduce spec that is \<open>None\<close> or the empty string, and for a spec that parses to no
  range; the constructor of the local replicated manager raises ValueError when the parsed
  spec has more than one range. An exception of the parser leaves both constructors
  unchanged. The error is the constructor's result: no manager exists on which a later
  step could run, and the parser is called once.
\<close>

theorem C7_invalid_all_reduce_spec_raises:
  "DistributedAllReduce_init parse build cnn None job_name num_workers max_bytes max_group
     = Inl (ValueError ''distributed_all_reduce requires a non-empty all_reduce_spec'')
   \<and> DistributedAllReduce_init parse build cnn (Some []) job_name num_workers max_bytes max_group
     = Inl (ValueError ''distributed_all_reduce requires a non-empty all_reduce_spec'')
   \<and> (s \<noteq> [] \<and> parse s = Inr [] \<longrightarrow>
        DistributedAllReduce_init parse build cnn (Some s) job_name num_workers max_bytes max_group
          = Inl (ValueError ''all_reduce_spec must be specified''))
   \<and> (s \<noteq> [] \<and> parse s = Inr spec \<and> 1 < length spec \<longrightarrow>
        LocalReplicated_init parse cnn (Some s) max_bytes max_group
          = Inl (ValueError ''replicated mode does not support hybrid all-reduce strategies''))
   \<and> (s \<noteq> [] \<and> parse s = Inl e \<longrightarrow>
        LocalReplicated_init parse cnn (Some s) max_bytes max_group = Inl e
        \<and> DistributedAllReduce_init parse build cnn (Some s) job_name num_workers
             max_bytes max_group = Inl e)"
  by (simp add: DistributedAllReduce_init_def LocalReplicated_init_def truthy_def)

theorem C7_invalid_all_reduce_spec_raises_witness:
  "LocalReplicated_init two_ranges two_gpus (Some ''nccl:1m:xring'') 0 10
     = Inl (ValueError ''replicated mode does not support hybrid all-reduce strategies'')
   \<and> DistributedAllReduce_init two_ranges (\<lambda>job n. []) two_gpus (Some '''') ''worker'' 2 0 10
     = Inl (ValueError ''distributed_all_reduce requires a non-empty all_reduce_spec'')"
  using C7_invalid_all_reduce_spec_raises
    [of two_ranges "\<lambda>job n. []" two_gpus "''worker''" 2 0 10 "''nccl:1m:xring''"
        "[\<lparr>alg = ''nccl'', shards = 1, limit = 1048576\<rparr>, \<lparr>alg = ''xring'', shards = 2, limit = - 1\<rparr>]"]
  by (simp add: two_ranges_def)

lemma py_index_0: "py_index xs 0 = (if xs = [] then Inl IndexError else Inr (xs ! 0))"
  by (simp add: py_index_def)

section \<open>The inf/nan flag of the independent mode\<close>

text \<open>
  Claim C6: in the independent mode \<open>get_gradients_to_apply\<close> leaves the inf/nan flag as
  it was unless automatic loss scaling is enabled and \<open>device_num\<close> is 0; for device 0
  the flag becomes true exactly when some gradient of replica 0's list is not finite
  everywhere, and it depends on replica 0's list only. The gradients returned, and whether
  the call raises, are those of subscripting the gradient state, whatever the flag and the
  gradients' values.
\<close>

theorem C6_independent_inf_nan_flag:
  "(device_num \<noteq> 0 \<or> \<not> enable_auto_loss_scale cnn \<longrightarrow>
      Independent_get_gradients_to_apply tf cnn flag device_num st
        = map_sum (\<lambda>e. e) (\<lambda>tower_grad. (tower_grad, flag)) (py_index st device_num))
   \<and> (enable_auto_loss_scale cnn \<and> st \<noteq> [] \<longrightarrow>
      Independent_get_gradients_to_apply tf cnn flag 0 st
        = Inr (st ! 0, Some (\<exists>(g, v) \<in> set (st ! 0). \<not> tf_is_finite_all tf g)))
   \<and> (st \<noteq> [] \<and> st' \<noteq> [] \<and> st ! 0 = st' ! 0 \<longrightarrow>
      Independent_get_gradients_to_apply tf cnn flag 0 st
        = Independent_get_gradients_to_apply tf cnn flag 0 st')
   \<and> map_sum (\<lambda>e. e) fst (Independent_get_gradients_to_apply tf cnn flag device_num st)
        = py_index st device_num"
proof -
  have ex: "(\<not> list_all (\<lambda>b. b) (map (\<lambda>(grad, _). tf_is_finite_all tf grad) xs))
      = (\<exists>(g, v) \<in> set xs. \<not> tf_is_finite_all tf g)" for xs :: "('a \<times> 'b) list"
    by (induction xs) auto
  have a: "device_num \<noteq> 0 \<or> \<not> enable_auto_loss_scale cnn \<longrightarrow>
      Independent_get_gradients_to_apply tf cnn flag device_num st
        = map_sum (\<lambda>e. e) (\<lambda>tower_grad. (tower_grad, flag)) (py_index st device_num)"
    by (auto simp: Independent_get_gradients_to_apply_def split: sum.splits)
  have b: "enable_auto_loss_scale cnn \<and> st \<noteq> [] \<longrightarrow>
      Independent_get_gradients_to_apply tf cnn flag 0 st
        = Inr (st ! 0, Some (\<exists>(g, v) \<in> set (st ! 0). \<not> tf_is_finite_all tf g))" for st :: "('a, 'b) device_grads"
    by (simp add: Independent_get_gradients_to_apply_def py_index_0 ex)
  have c: "st \<noteq> [] \<and> st' \<noteq> [] \<and> st ! 0 = st' ! 0 \<longrightarrow>
      Independent_get_gradients_to_apply tf cnn flag 0 st
        = Independent_get_gradients_to_apply tf cnn flag 0 st'"
    by (simp add: Independent_get_gradients_to_apply_def py_index_0)
  have d: "map_sum (\<lambda>e. e) fst (Independent_get_gradients_to_apply tf cnn flag device_num st)
        = py_index st device_num"
    by (auto simp: Independent_get_gradients_to_apply_def Let_def split: sum.splits)
  from a b c d show ?thesis by blast
qed

theorem C6_independent_inf_nan_flag_witness:
  "Independent_get_gradients_to_apply fp_tensors two_gpus None 0
     [[(\<lparr>shape = [2], elems = [Finite 1, NaN]\<rparr>, w0)], [(scalar 2, w1)]]
     = Inr ([(\<lparr>shape = [2], elems = [Finite 1, NaN]\<rparr>, w0)], Some True)
   \<and> Independent_get_gradients_to_apply fp_tensors two_gpus None 1
     [[(scalar 1, w0)], [(\<lparr>shape = [2], elems = [Finite 1, NaN]\<rparr>, w1)]]
     = Inr ([(\<lparr>shape = [2], elems = [Finite 1, NaN]\<rparr>, w1)], None)"
proof -
  let ?bad = "\<lparr>shape = [2], elems = [Finite 1, NaN]\<rparr>"
  have en: "enable_auto_loss_scale two_gpus" by (simp add: two_gpus_def)
  have fin: "\<not> tf_is_finite_all fp_tensors ?bad"
    by (simp add: fp_tensors_def tensor_ops_def)
  have "Independent_get_gradients_to_apply fp_tensors two_gpus None 0
     [[(?bad, w0)], [(scalar 2, w1)]] = Inr ([(?bad, w0)], Some True)"
    using C6_independent_inf_nan_flag
      [of 0 two_gpus fp_tensors None "[[(?bad, w0)], [(scalar 2, w1)]]" "[[(?bad, w0)], [(scalar 2, w1)]]"]
      en fin by simp
  moreover have "Independent_get_gradients_to_apply fp_tensors two_gpus None 1
     [[(scalar 1, w0)], [(?bad, w1)]] = Inr ([(?bad, w1)], None)"
    using C6_independent_inf_nan_flag
      [of 1 two_gpus fp_tensors None "[[(scalar 1, w0)], [(?bad, w1)]]" "[[(scalar 1, w0)], [(?bad, w1)]]"]
    by (simp add: py_index_def)
  ultimately show ?thesis by blast
qed

lemma map_err_length: "map_err f xs = Inr ys \<Longrightarrow> length ys = length xs"
  by (induction xs arbitrary: ys) (auto split: sum.splits)

section \<open>The number of devices on which gradients are applied\<close>

text \<open>
  Claim C2 as it is worded gives every replicated mode as many apply devices as replicas.
  The distributed replicated manager keeps a copy of the variables on each tower
  (\<open>each_tower_has_variables\<close> holds) and still returns the parameter server device
  alone: with two replicas the list has length one.
\<close>

theorem C2_claim_as_stated_counterexample:
  "each_tower_has_variables (VariableMgrDistributedReplicated two_gpus)
   \<and> preprocess_device_grads fp_tensors (example_modules fp_tensors)
       (VariableMgrDistributedReplicated two_gpus) [[(scalar 1, w0)], [(scalar 2, w1)]]
     = Inr ([''/cpu:0''], [[(scalar 1, w0)], [(scalar 2, w1)]])
   \<and> length [''/cpu:0''] \<noteq> length (devices two_gpus)
   \<and> length (devices two_gpus) = length [[(scalar 1, w0)], [(scalar 2, w1)]]"
  by (simp add: DistributedReplicated_preprocess_device_grads_def two_gpus_def)

text \<open>
  Claim C2, amended: whenever \<open>preprocess_device_grads\<close> returns, for a device gradient
  matrix with one row per device of \<open>benchmark_cnn\<close>, the list of apply devices has length
  1 for the four parameter-server managers and for the distributed replicated manager,
  and length N, the number of replicas, for the independent, the local replicated and the
  distributed all-reduce manager.
\<close>

theorem C2_apply_devices_length:
  assumes "preprocess_device_grads tf m mgr device_grads = Inr (apply_devices, state)"
    and "length (devices (manager_cnn mgr)) = length device_grads"
  shows "length apply_devices = update_targets mgr (length device_grads)"
proof (cases mgr)
  case (VariableMgrLocalReplicated cnn spec b g)
  then show ?thesis using assms
    by (auto simp: LocalReplicated_preprocess_device_grads_def
        split: sum.splits option.splits if_splits)
next
  case (VariableMgrDistributedAllReduce cnn spec prefixes n b g)
  then show ?thesis using assms
    by (auto simp: DistributedAllReduce_preprocess_device_grads_def
        split: sum.splits if_splits dest: map_err_length)
qed (use assms in \<open>auto simp: Independent_preprocess_device_grads_def
      LocalFetchFromPS_preprocess_device_grads_def
      DistributedFetchFromPS_preprocess_device_grads_def
      DistributedReplicated_preprocess_device_grads_def\<close>)

theorem C2_apply_devices_length_witness:
  "length (fst (Independent_preprocess_device_grads two_gpus
       [[(scalar 1, w0)], [(scalar 2, w1)]])) = 2
   \<and> length (fst (LocalFetchFromPS_preprocess_device_grads two_gpus
       [[(scalar 1, w0)], [(scalar 2, w1)]])) = 1"
proof -
  let ?dg = "[[(scalar 1, w0)], [(scalar 2, w1)]]"
  have a: "preprocess_device_grads fp_tensors (example_modules fp_tensors)
      (VariableMgrIndependent two_gpus) ?dg
      = Inr (fst (Independent_preprocess_device_grads two_gpus ?dg), ?dg)"
    by (simp add: Independent_preprocess_device_grads_def)
  have b: "preprocess_device_grads fp_tensors (example_modules fp_tensors)
      (VariableMgrLocalFetchFromPS two_gpus) ?dg
      = Inr (fst (LocalFetchFromPS_preprocess_device_grads two_gpus ?dg), ?dg)"
    by (simp add: LocalFetchFromPS_preprocess_device_grads_def)
  have n: "length (devices (manager_cnn (VariableMgrIndependent two_gpus))) = length ?dg"
    "length (devices (manager_cnn (VariableMgrLocalFetchFromPS two_gpus))) = length ?dg"
    by (simp_all add: two_gpus_def)
  from C2_apply_devices_length [OF a n(1)] C2_apply_devices_length [OF b n(2)]
  show ?thesis by simp
qed

section \<open>Aggregation in the local replicated mode\<close>

lemma common_length_le: "row \<in> set rows \<Longrightarrow> common_length rows \<le> length row"
proof -
  have f: "foldr (\<lambda>x n. min (length x) n) rs k \<le> k" for rs :: "'a list list" and k
    by (induction rs) auto
  have g: "row \<in> set rs \<Longrightarrow> foldr (\<lambda>x n. min (length x) n) rs k \<le> length row"
    for rs :: "'a list list" and k
    by (induction rs) auto
  assume "row \<in> set rows"
  then show ?thesis using f g
    by (cases rows) (auto simp: common_length_def)
qed

lemma common_length_rect:
  "rows \<noteq> [] \<Longrightarrow> \<forall>row \<in> set rows. length row = n \<Longrightarrow> common_length rows = n"
proof -
  have g: "\<forall>row \<in> set rs. length row = n \<Longrightarrow> foldr (\<lambda>x k. min (length x) k) rs n = n"
    for rs :: "'a list list"
    by (induction rs) auto
  assume "rows \<noteq> []" "\<forall>row \<in> set rows. length row = n"
  then show ?thesis using g by (cases rows) (auto simp: common_length_def)
qed

lemma zip_star_nth:
  "j < common_length rows \<Longrightarrow> zip_star rows ! j = map (\<lambda>row. row ! j) rows"
  by (simp add: zip_star_def)

lemma length_zip_star: "length (zip_star rows) = common_length rows"
  by (simp add: zip_star_def)

lemma py_index_nat: "i < length xs \<Longrightarrow> py_index xs (int i) = Inr (xs ! i)"
  by (simp add: py_index_def)

lemma copy_branch_entry:
  assumes "i < length device_grads" "j < common_length device_grads"
  shows "map (\<lambda>((_, v), (g, _)). (g, v))
           (zip (device_grads ! i)
              (map (spec_aggregate_single tf False) (zip_star device_grads))) ! j
         = (tf_add_n tf (map (\<lambda>tower. fst (tower ! j)) device_grads), snd (device_grads ! i ! j))"
proof -
  have le: "common_length device_grads \<le> length (device_grads ! i)"
    using assms(1) by (simp add: common_length_le)
  then have j: "j < length (device_grads ! i)" using assms(2) by simp
  show ?thesis using assms j
    by (simp add: length_zip_star zip_star_nth spec_aggregate_single_def Let_def
        split_beta comp_def)
qed

lemma copy_branch_length:
  assumes "i < length device_grads"
  shows "length (map (\<lambda>((_, v), (g, _)). (g, v))
           (zip (device_grads ! i)
              (map (spec_aggregate_single tf False) (zip_star device_grads))))
         = common_length device_grads"
  using assms common_length_le [of "device_grads ! i" device_grads]
  by (simp add: length_zip_star)

text \<open>
  On tensors as lists over a commutative monoid, \<open>tf.add_n\<close> of tensors of one size is
  the sum element by element.
\<close>

lemma foldl_tensor_add_sums:
  fixes g :: "('a :: comm_monoid_add) tensor"
  assumes "length (elems g) = n" "\<forall>h \<in> set gs. length (elems h) = n" "k < n"
  shows "length (elems (foldl (tensor_add (+)) g gs)) = n
       \<and> elems (foldl (tensor_add (+)) g gs) ! k = elems g ! k + (\<Sum>h \<leftarrow> gs. elems h ! k)"
  using assms
proof (induction gs arbitrary: g)
  case Nil
  then show ?case by simp
next
  case (Cons h gs)
  let ?g = "tensor_add (+) g h"
  have l: "length (elems ?g) = n" using Cons.prems by (simp add: tensor_add_def)
  have e: "elems ?g ! k = elems g ! k + elems h ! k"
    using Cons.prems by (simp add: tensor_add_def)
  from Cons.IH [OF l _ Cons.prems(3)] Cons.prems(2) e
  show ?case by (simp add: add.assoc)
qed

lemma tensor_add_n_sums:
  fixes gs :: "('a :: comm_monoid_add) tensor list"
  assumes "gs \<noteq> []" "\<forall>g \<in> set gs. length (elems g) = n" "k < n"
  shows "elems (tensor_add_n (+) gs) ! k = (\<Sum>g \<leftarrow> gs. elems g ! k)"
proof (cases gs)
  case Nil
  then show ?thesis using assms(1) by simp
next
  case (Cons g gs')
  then show ?thesis
    using foldl_tensor_add_sums [of g n gs' k] assms(2,3) by simp
qed

text \<open>
  Claim C1: in the local replicated mode with no all-reduce spec and hierarchical copy
  disabled, with the aggregation by copy of the specification, \<open>preprocess_device_grads\<close>
  returns the devices of \<open>benchmark_cnn\<close> and one list per replica. Each list has one
  entry per position present in every replica's list; the gradient at a position is
  \<open>tf.add_n\<close>, the sum, of all replicas' gradients at that position, it is the same in
  all the lists, and it is paired with the replica's own variable.
  \<open>get_gradients_to_apply(i)\<close> returns the list of replica \<open>i\<close>. When every replica's
  list has \<open>n\<close> entries, so has every returned list.
\<close>

theorem C1_local_replicated_sum:
  assumes agg: "aggregate_gradients_using_copy_with_device_selection m
                  = spec_aggregate_gradients_using_copy_with_device_selection tf"
    and hier: "\<not> hierarchical_copy cnn"
  shows "\<exists>out flag'.
           LocalReplicated_preprocess_device_grads tf m cnn None max_bytes max_group flag
               device_grads = Inr (devices cnn, out, flag')
         \<and> length out = length device_grads
         \<and> (\<forall>i < length device_grads.
               LocalReplicated_get_gradients_to_apply (int i) out = Inr (out ! i)
             \<and> length (out ! i) = common_length device_grads
             \<and> (\<forall>j < common_length device_grads.
                   fst (out ! i ! j) = tf_add_n tf (map (\<lambda>tower. fst (tower ! j)) device_grads)
                 \<and> snd (out ! i ! j) = snd (device_grads ! i ! j)
                 \<and> (\<forall>i' < length device_grads. fst (out ! i' ! j) = fst (out ! i ! j))))
         \<and> (\<forall>n. device_grads \<noteq> [] \<and> (\<forall>tower \<in> set device_grads. length tower = n)
               \<longrightarrow> common_length device_grads = n)"
proof -
  let ?agg = "map (spec_aggregate_single tf False) (zip_star device_grads)"
  let ?out = "map (\<lambda>arr. map (\<lambda>((_, v), (g, _)). (g, v)) (zip arr ?agg)) device_grads"
  obtain flag' where pre:
    "LocalReplicated_preprocess_device_grads tf m cnn None max_bytes max_group flag
       device_grads = Inr (devices cnn, ?out, flag')"
    using agg hier
    by (simp add: LocalReplicated_preprocess_device_grads_def
        spec_aggregate_gradients_using_copy_with_device_selection_def)
  have len: "length ?out = length device_grads" by simp
  have row: "?out ! i = map (\<lambda>((_, v), (g, _)). (g, v)) (zip (device_grads ! i) ?agg)"
    if "i < length device_grads" for i using that by simp
  have entry: "?out ! i ! j
      = (tf_add_n tf (map (\<lambda>tower. fst (tower ! j)) device_grads), snd (device_grads ! i ! j))"
    if "i < length device_grads" "j < common_length device_grads" for i j
    using copy_branch_entry [OF that, of tf] row [OF that(1)] by simp
  have rowlen: "length (?out ! i) = common_length device_grads"
    if "i < length device_grads" for i
    using copy_branch_length [OF that, of tf] row [OF that] by simp
  have get: "LocalReplicated_get_gradients_to_apply (int i) ?out = Inr (?out ! i)"
    if "i < length device_grads" for i
    using that py_index_nat [of i ?out]
    by (simp add: LocalReplicated_get_gradients_to_apply_def)
  have rect: "\<forall>n. device_grads \<noteq> [] \<and> (\<forall>tower \<in> set device_grads. length tower = n)
               \<longrightarrow> common_length device_grads = n"
    using common_length_rect by blast
  show ?thesis
    apply (rule exI [of _ ?out])
    apply (rule exI [of _ flag'])
    using pre len entry rowlen get rect by simp
qed

theorem C1_local_replicated_sum_witness:
  "LocalReplicated_preprocess_device_grads fp_tensors (example_modules fp_tensors) two_gpus
       None 0 10 None [[(scalar 1, w0)], [(scalar 2, w1)]]
     = Inr ([''/gpu:0'', ''/gpu:1''], [[(scalar 3, w0)], [(scalar 3, w1)]], Some False)
   \<and> LocalReplicated_get_gradients_to_apply 1 [[(scalar 3, w0)], [(scalar 3, w1)]]
     = Inr [(scalar 3, w1)]"
proof -
  let ?dg = "[[(scalar 1, w0)], [(scalar 2, w1)]]"
  have agg: "aggregate_gradients_using_copy_with_device_selection (example_modules fp_tensors)
      = (spec_aggregate_gradients_using_copy_with_device_selection fp_tensors
          :: (fp tensor, variable) aggregate_with_device_selection_fn)"
    by (simp add: example_modules_def)
  have hier: "\<not> hierarchical_copy two_gpus" by (simp add: two_gpus_def)
  have cl: "common_length ?dg = 1" by (simp add: common_length_def)
  from C1_local_replicated_sum [OF agg hier, of 0 10 None ?dg]
  obtain out flag' where pre:
      "LocalReplicated_preprocess_device_grads fp_tensors (example_modules fp_tensors) two_gpus
         None 0 10 None ?dg = Inr (devices two_gpus, out, flag')"
    and len: "length out = 2"
    and rows: "\<forall>i < 2. LocalReplicated_get_gradients_to_apply (int i) out = Inr (out ! i)
        \<and> length (out ! i) = 1
        \<and> (\<forall>j < 1. fst (out ! i ! j) = tf_add_n fp_tensors (map (\<lambda>tower. fst (tower ! j)) ?dg)
              \<and> snd (out ! i ! j) = snd (?dg ! i ! j))"
    unfolding cl by auto
  have sum: "tf_add_n fp_tensors (map (\<lambda>tower. fst (tower ! 0)) ?dg) = scalar 3"
    by (simp add: fp_tensors_def tensor_ops_def tensor_add_def scalar_def)
  have i0: "(0::nat) < 2" and i1: "(1::nat) < 2" by simp_all
  from rows i0 have row0: "length (out ! 0) = 1"
      "fst (out ! 0 ! 0) = tf_add_n fp_tensors (map (\<lambda>tower. fst (tower ! 0)) ?dg)"
      "snd (out ! 0 ! 0) = snd (?dg ! 0 ! 0)"
    by blast+
  from rows i1 have row1: "length (out ! 1) = 1"
      "fst (out ! 1 ! 0) = tf_add_n fp_tensors (map (\<lambda>tower. fst (tower ! 0)) ?dg)"
      "snd (out ! 1 ! 0) = snd (?dg ! 1 ! 0)"
      "LocalReplicated_get_gradients_to_apply (int 1) out = Inr (out ! 1)"
    by blast+
  have r0: "length (out ! 0) = 1" "out ! 0 ! 0 = (scalar 3, w0)"
    using row0 sum by (simp_all add: prod_eq_iff)
  have r1: "length (out ! 1) = 1" "out ! 1 ! 0 = (scalar 3, w1)"
    using row1 sum by (simp_all add: prod_eq_iff)
  have g1: "LocalReplicated_get_gradients_to_apply 1 out = Inr (out ! 1)"
    using row1(4) by simp
  have o0: "out ! 0 = [(scalar 3, w0)]" using r0 by (cases "out ! 0") auto
  have o1: "out ! 1 = [(scalar 3, w1)]" using r1 by (cases "out ! 1") auto
  have out: "out = [[(scalar 3, w0)], [(scalar 3, w1)]]"
    using len o0 o1 by (auto simp: list_eq_iff_nth_eq less_Suc_eq numeral_2_eq_2)
  have flag: "flag' = Some False" using pre
    by (simp add: LocalReplicated_preprocess_device_grads_def example_modules_def
        spec_aggregate_gradients_using_copy_with_device_selection_def two_gpus_def
        zip_star_def common_length_def fp_tensors_def tensor_ops_def scalar_def)
  show ?thesis using pre g1 out flag by (simp add: two_gpus_def)
qed

lemma py_index_out_of_range:
  "i < - int (length xs) \<or> int (length xs) \<le> i \<Longrightarrow> py_index xs i = Inl IndexError"
  by (auto simp: py_index_def)

section \<open>A device index out of range\<close>

text \<open>
  With \<open>device_num\<close> outside the range of the apply devices, every manager but the
  distributed replicated one raises: the managers that subscript the gradient state raise
  IndexError (ValueError in the distributed all-reduce manager for an index that is too
  large), and the parameter-server managers assert that \<open>device_num\<close> is 0.
\<close>

lemma out_of_range_raises_elsewhere:
  assumes "\<forall>cnn. mgr \<noteq> VariableMgrDistributedReplicated cnn"
    and "device_num < - int (length apply_devices) \<or> int (length apply_devices) \<le> device_num"
    and "length apply_devices = update_targets mgr (length st)"
  shows "\<exists>e. get_gradients_to_apply tf m get_variable prefix mgr device_num st = Inl e"
proof (cases mgr)
  case (VariableMgrIndependent cnn)
  then show ?thesis using assms py_index_out_of_range [of device_num st]
    by (auto simp: Independent_get_gradients_to_apply_def)
next
  case (VariableMgrLocalReplicated cnn spec b g)
  then show ?thesis using assms py_index_out_of_range [of device_num st]
    by (auto simp: LocalReplicated_get_gradients_to_apply_def)
next
  case (VariableMgrDistributedAllReduce cnn spec prefixes n b g)
  then show ?thesis using assms py_index_out_of_range [of device_num st]
    by (auto simp: DistributedAllReduce_get_gradients_to_apply_def)
next
  case (VariableMgrDistributedReplicated cnn)
  then show ?thesis using assms by simp
qed (use assms in \<open>auto simp: LocalFetchFromPS_get_gradients_to_apply_def
      DistributedFetchFromPS_get_gradients_to_apply_def\<close>)

text \<open>
  Claim C8: in every mode \<open>get_gradients_to_apply\<close> raises for a device index out of
  range of the apply devices. \<open>VariableMgrDistributedReplicated\<close> does not, for it never
  reads \<open>device_num\<close>: after preprocessing returned one apply device, the call with
  \<open>device_num = 1\<close> returns the averaged gradients with their shadow variables, where
  \<open>VariableMgrDistributedFetchFromPS\<close>, which returns the same apply devices, raises
  AssertionError.
\<close>

theorem C8_distributed_replicated_ignores_device_num:
  "preprocess_device_grads fp_tensors (example_modules fp_tensors)
       (VariableMgrDistributedReplicated two_gpus) [[(scalar 1, w0)], [(scalar 3, w1)]]
     = Inr ([''/cpu:0''], [[(scalar 1, w0)], [(scalar 3, w1)]])
   \<and> get_gradients_to_apply fp_tensors (example_modules fp_tensors) new_variable ''ps_var''
       (VariableMgrDistributedReplicated two_gpus) 1 [[(scalar 1, w0)], [(scalar 3, w1)]]
     = Inr [(scalar 2, \<lparr>name = ''ps_var/v0/conv/w:0'', uid = 101\<rparr>)]
   \<and> get_gradients_to_apply fp_tensors (example_modules fp_tensors) new_variable ''ps_var''
       (VariableMgrDistributedFetchFromPS two_gpus) 1 [[(scalar 1, w0)], [(scalar 3, w1)]]
     = Inl AssertionError"
  by (simp add: DistributedReplicated_preprocess_device_grads_def two_gpus_def
      DistributedReplicated_get_gradients_to_apply_def example_modules_def
      DistributedFetchFromPS_get_gradients_to_apply_def
      spec_aggregate_gradients_using_copy_with_device_selection_def
      spec_aggregate_single_def zip_star_def common_length_def
      fp_tensors_def tensor_ops_def tensor_add_def tensor_divide_def scalar_def
      w0_def w1_def new_variable_def endswith_def)

section \<open>The ranges of the distributed all-reduce mode\<close>

lemma spec_loop_trace:
  "DistributedAllReduce_spec_loop m cnn prefixes nw b g spec remaining agg = Inr (remaining', agg')
   \<Longrightarrow> \<exists>trace. spec_trace m spec remaining = Inr trace
         \<and> final_remainder remaining trace = remaining'"
proof (induction spec arbitrary: remaining agg)
  case Nil
  then show ?case by (simp add: final_remainder_def remainder_before_def)
next
  case (Cons t ts)
  let ?step = "if limit t < 0 then Inr (remaining, [])
               else split_grads_by_size m (limit t) remaining"
  from Cons.prems obtain this rest where step: "?step = Inr (this, rest)"
    by (cases ?step) (auto split: if_splits)
  from Cons.prems step obtain agg2 where
    rec: "DistributedAllReduce_spec_loop m cnn prefixes nw b g ts rest agg2 = Inr (remaining', agg')"
    by (auto split: if_splits sum.splits)
  from Cons.IH [OF rec] obtain trace where
    tr: "spec_trace m ts rest = Inr trace" "final_remainder rest trace = remaining'"
    by blast
  have "spec_trace m (t # ts) remaining = Inr ((this, rest) # trace)"
    using step tr(1) by (auto split: if_splits)
  moreover have "final_remainder remaining ((this, rest) # trace) = remaining'"
    using tr(2) by (cases trace) (auto simp: final_remainder_def remainder_before_def)
  ultimately show ?case by blast
qed

lemma spec_trace_length: "spec_trace m spec remaining = Inr trace \<Longrightarrow> length trace = length spec"
  by (induction spec arbitrary: remaining trace) (auto split: sum.splits if_splits)

lemma spec_trace_step:
  "spec_trace m spec remaining = Inr trace \<Longrightarrow> k < length spec \<Longrightarrow>
     (limit (spec ! k) < 0 \<longrightarrow> trace ! k = (remainder_before remaining trace k, []))
   \<and> (0 \<le> limit (spec ! k) \<longrightarrow>
        split_grads_by_size m (limit (spec ! k)) (remainder_before remaining trace k)
          = Inr (trace ! k))"
proof (induction spec arbitrary: remaining trace k)
  case Nil
  then show ?case by simp
next
  case (Cons t ts)
  let ?step = "if limit t < 0 then Inr (remaining, [])
               else split_grads_by_size m (limit t) remaining"
  from Cons.prems(1) obtain this rest trace' where
    step: "?step = Inr (this, rest)" and tr: "spec_trace m ts rest = Inr trace'"
    and trace: "trace = (this, rest) # trace'"
    by (cases ?step) (auto split: sum.splits if_splits)
  show ?case
  proof (cases k)
    case 0
    then show ?thesis using step trace
      by (auto simp: remainder_before_def split: if_splits)
  next
    case (Suc k')
    then have k': "k' < length ts" using Cons.prems(2) by simp
    have rb: "remainder_before remaining trace k = remainder_before rest trace' k'"
      using Suc trace by (cases k') (auto simp: remainder_before_def)
    show ?thesis using Cons.IH [OF tr k'] Suc trace rb by simp
  qed
qed

lemma spec_trace_conserves:
  assumes "\<And>l r this rest. split_grads_by_size m l r = Inr (this, rest)
             \<Longrightarrow> mset (concat this) + mset (concat rest) = mset (concat r)"
  shows "spec_trace m spec remaining = Inr trace \<Longrightarrow>
     mset (concat remaining)
       = (\<Sum>(this, rest) \<leftarrow> trace. mset (concat this))
         + mset (concat (final_remainder remaining trace))"
proof (induction spec arbitrary: remaining trace)
  case Nil
  then show ?case by (simp add: final_remainder_def remainder_before_def)
next
  case (Cons t ts)
  let ?step = "if limit t < 0 then Inr (remaining, [])
               else split_grads_by_size m (limit t) remaining"
  from Cons.prems(1) obtain this rest trace' where
    step: "?step = Inr (this, rest)" and tr: "spec_trace m ts rest = Inr trace'"
    and trace: "trace = (this, rest) # trace'"
    by (cases ?step) (auto split: sum.splits if_splits)
  have one: "mset (concat this) + mset (concat rest) = mset (concat remaining)"
    using step assms by (auto split: if_splits)
  have fin: "final_remainder remaining trace = final_remainder rest trace'"
    using trace by (cases trace') (auto simp: final_remainder_def remainder_before_def)
  show ?case using Cons.IH [OF tr] one fin trace by (simp add: add.assoc)
qed

lemma final_remainder_Cons:
  "final_remainder remaining ((this, rest) # trace) = final_remainder rest trace"
  by (cases trace) (auto simp: final_remainder_def remainder_before_def)

lemma spec_loop_iff:
  "(DistributedAllReduce_spec_loop m cnn prefixes nw b g spec remaining agg = Inr (remaining', agg'))
   = (\<exists>trace. spec_trace m spec remaining = Inr trace
         \<and> final_remainder remaining trace = remaining'
         \<and> reduce_ranges m cnn prefixes nw b g spec (map fst trace) agg = Inr agg')"
proof (induction spec arbitrary: remaining agg)
  case Nil
  then show ?case by (auto simp: final_remainder_def remainder_before_def)
next
  case (Cons t ts)
  let ?step = "if limit t < 0 then Inr (remaining, [])
               else split_grads_by_size m (limit t) remaining"
  show ?case
  proof (cases ?step)
    case (Inl e)
    then show ?thesis by (auto split: if_splits)
  next
    case (Inr p)
    obtain this rest where p: "p = (this, rest)" by (cases p)
    have tr: "(\<exists>trace. spec_trace m (t # ts) remaining = Inr trace
         \<and> final_remainder remaining trace = remaining'
         \<and> reduce_ranges m cnn prefixes nw b g (t # ts) (map fst trace) agg = Inr agg')
      = (\<exists>trace'. spec_trace m ts rest = Inr trace'
         \<and> final_remainder rest trace' = remaining'
         \<and> reduce_ranges m cnn prefixes nw b g (t # ts) (this # map fst trace') agg = Inr agg')"
      using Inr p by (auto simp: final_remainder_Cons split: sum.splits if_splits)
    show ?thesis
    proof (cases "this = []")
      case True
      have "DistributedAllReduce_spec_loop m cnn prefixes nw b g (t # ts) remaining agg
          = DistributedAllReduce_spec_loop m cnn prefixes nw b g ts rest agg"
        using Inr p True by (auto split: if_splits)
      then show ?thesis unfolding tr using True Cons.IH [of rest agg] by simp
    next
      case False
      let ?red = "sum_gradients_all_reduce m prefixes this nw (alg t) (shards t) (gpu_indices cnn) b g"
      show ?thesis
      proof (cases ?red)
        case (Inl e)
        have "DistributedAllReduce_spec_loop m cnn prefixes nw b g (t # ts) remaining agg = Inl e"
          using Inr p False Inl by (auto split: if_splits)
        then show ?thesis unfolding tr using False Inl by simp
      next
        case r: (Inr r)
        consider (first) "agg = []" | (bad) "agg \<noteq> []" "length agg \<noteq> length r"
          | (join) "agg \<noteq> []" "length agg = length r" by blast
        then show ?thesis
        proof cases
          case first
          have "DistributedAllReduce_spec_loop m cnn prefixes nw b g (t # ts) remaining agg
              = DistributedAllReduce_spec_loop m cnn prefixes nw b g ts rest r"
            using Inr p False r first by (auto split: if_splits)
          then show ?thesis unfolding tr using False r first Cons.IH [of rest r] by simp
        next
          case bad
          have "DistributedAllReduce_spec_loop m cnn prefixes nw b g (t # ts) remaining agg
              = Inl AssertionError"
            using Inr p False r bad by (auto split: if_splits)
          then show ?thesis unfolding tr using False r bad by simp
        next
          case join
          have "DistributedAllReduce_spec_loop m cnn prefixes nw b g (t # ts) remaining agg
              = DistributedAllReduce_spec_loop m cnn prefixes nw b g ts rest
                  (map (\<lambda>(a, r). a @ r) (zip agg r))"
            using Inr p False r join by (auto split: if_splits)
          then show ?thesis unfolding tr using False r join
              Cons.IH [of rest "map (\<lambda>(a, r). a @ r) (zip agg r)"] by simp
        qed
      qed
    qed
  qed
qed

lemma within_limit_bounded:
  "0 < within_limit byte_size byte_limit running tower \<Longrightarrow>
   running + (\<Sum>(g, v) \<leftarrow> take (within_limit byte_size byte_limit running tower) tower. byte_size g) \<le> byte_limit"
proof (induction tower arbitrary: running)
  case Nil
  then show ?case by simp
next
  case (Cons x tower)
  obtain g v where x: "x = (g, v)" by (cases x)
  from Cons.prems x have le: "running + byte_size g \<le> byte_limit" by (auto split: if_splits)
  show ?case
  proof (cases "0 < within_limit byte_size byte_limit (running + byte_size g) tower")
    case True
    from Cons.IH [OF True] show ?thesis using x le by (simp add: add.assoc)
  next
    case False
    then show ?thesis using x le by simp
  qed
qed

lemma first_batch_bounded:
  "0 \<le> byte_limit \<Longrightarrow>
   (\<Sum>(g, v) \<leftarrow> take (first_batch byte_size byte_limit tower) tower. byte_size g) \<le> byte_limit
   \<or> first_batch byte_size byte_limit tower = 1"
proof (cases "0 < within_limit byte_size byte_limit 0 tower")
  case True
  then have "tower \<noteq> []" by (cases tower) auto
  then have "first_batch byte_size byte_limit tower = within_limit byte_size byte_limit 0 tower"
    using True by (simp add: first_batch_def)
  then show ?thesis using within_limit_bounded [OF True] by simp
next
  case False
  assume "0 \<le> byte_limit"
  then show ?thesis using False by (cases tower) (auto simp: first_batch_def)
qed

lemma mset_concat_nonempty:
  "mset (concat (filter (\<lambda>tower. tower \<noteq> []) rows)) = mset (concat rows)"
  by (induction rows) auto

lemma spec_split_conserves:
  "spec_split_grads_by_size byte_size byte_limit rows = Inr (this, rest)
   \<Longrightarrow> mset (concat this) + mset (concat rest) = mset (concat rows)"
proof -
  have "mset (concat (map (\<lambda>tower. take (n tower) tower) rows))
      + mset (concat (map (\<lambda>tower. drop (n tower) tower) rows)) = mset (concat rows)"
    for n :: "('a \<times> 'b) list \<Rightarrow> nat"
  proof (induction rows)
    case Nil
    then show ?case by simp
  next
    case (Cons row rows)
    have "mset (take (n row) row) + mset (drop (n row) row) = mset row"
      by (metis append_take_drop_id mset_append)
    then show ?case using Cons by (simp add: ac_simps)
  qed
  moreover assume "spec_split_grads_by_size byte_size byte_limit rows = Inr (this, rest)"
  ultimately show ?thesis
    by (auto simp: spec_split_grads_by_size_def mset_concat_nonempty)
qed

text \<open>
  Claim C3: in the distributed all-reduce mode the loop of \<open>preprocess_device_grads\<close>
  ends with a remainder and a gradient state exactly when the ranges of the spec, taken
  in order, each on the remainder left by the one before, yield that remainder, and the
  reductions of the partitions they take, joined tower by tower, yield that state.
  \<open>preprocess_device_grads\<close> raises AssertionError when the remainder after the last
  range is not empty. When it returns, a range with a negative limit took the whole
  remainder and left none, a range with a limit of at least 0 took what
  \<open>split_grads_by_size\<close> returned for that limit, the final remainder is empty, the
  state returned is the joined reductions of the partitions, and the devices returned are
  those of the first gradient of each tower. When \<open>split_grads_by_size\<close> only divides
  its input between its two results, the partitions together hold every
  (gradient, variable) entry of the input exactly as often as the input does. With the
  split of the specification that holds, and a range with a limit of at least 0 takes of
  every tower of its remainder a prefix, of at most the limit in bytes or of one
  gradient, and leaves what follows it.
\<close>

theorem C3_distributed_all_reduce_partitions:
  "(\<forall>remaining aggregated.
       (DistributedAllReduce_spec_loop m cnn prefixes num_workers max_bytes max_group
          spec device_grads [] = Inr (remaining, aggregated))
       = (\<exists>trace. spec_trace m spec device_grads = Inr trace
            \<and> final_remainder device_grads trace = remaining
            \<and> reduce_ranges m cnn prefixes num_workers max_bytes max_group
                 spec (map fst trace) [] = Inr aggregated))
   \<and> (\<forall>remaining aggregated.
       DistributedAllReduce_spec_loop m cnn prefixes num_workers max_bytes max_group
         spec device_grads [] = Inr (remaining, aggregated) \<and> remaining \<noteq> []
       \<longrightarrow> DistributedAllReduce_preprocess_device_grads tf m cnn spec prefixes num_workers
             max_bytes max_group device_grads = Inl AssertionError)
   \<and> (\<forall>apply_devices state.
       DistributedAllReduce_preprocess_device_grads tf m cnn spec prefixes num_workers
         max_bytes max_group device_grads = Inr (apply_devices, state)
       \<longrightarrow> (\<exists>trace. spec_trace m spec device_grads = Inr trace
             \<and> length trace = length spec
             \<and> (\<forall>k < length spec.
                   (limit (spec ! k) < 0 \<longrightarrow>
                      trace ! k = (remainder_before device_grads trace k, []))
                 \<and> (0 \<le> limit (spec ! k) \<longrightarrow>
                      split_grads_by_size m (limit (spec ! k))
                        (remainder_before device_grads trace k) = Inr (trace ! k)))
             \<and> final_remainder device_grads trace = []
             \<and> reduce_ranges m cnn prefixes num_workers max_bytes max_group
                  spec (map fst trace) [] = Inr state
             \<and> map_err (first_grad_device tf) device_grads = Inr apply_devices
             \<and> ((\<forall>l r this rest. split_grads_by_size m l r = Inr (this, rest)
                     \<longrightarrow> mset (concat this) + mset (concat rest) = mset (concat r))
                \<longrightarrow> mset (concat device_grads)
                      = (\<Sum>(this, rest) \<leftarrow> trace. mset (concat this)))
             \<and> (\<forall>byte_size. split_grads_by_size m = spec_split_grads_by_size byte_size
                \<longrightarrow> mset (concat device_grads)
                      = (\<Sum>(this, rest) \<leftarrow> trace. mset (concat this))
                  \<and> (\<forall>k < length spec. 0 \<le> limit (spec ! k) \<longrightarrow>
                        fst (trace ! k)
                          = filter (\<lambda>tower. tower \<noteq> [])
                              (map (\<lambda>tower. take (first_batch byte_size (limit (spec ! k)) tower) tower)
                                 (remainder_before device_grads trace k))
                      \<and> snd (trace ! k)
                          = filter (\<lambda>tower. tower \<noteq> [])
                              (map (\<lambda>tower. drop (first_batch byte_size (limit (spec ! k)) tower) tower)
                                 (remainder_before device_grads trace k))
                      \<and> (\<forall>tower \<in> set (remainder_before device_grads trace k).
                            (\<Sum>(g, v) \<leftarrow> take (first_batch byte_size (limit (spec ! k)) tower) tower.
                                byte_size g) \<le> limit (spec ! k)
                          \<or> first_batch byte_size (limit (spec ! k)) tower = 1)))))"
proof -
  have i: "(DistributedAllReduce_spec_loop m cnn prefixes num_workers max_bytes max_group
          spec device_grads [] = Inr (remaining, aggregated))
       = (\<exists>trace. spec_trace m spec device_grads = Inr trace
            \<and> final_remainder device_grads trace = remaining
            \<and> reduce_ranges m cnn prefixes num_workers max_bytes max_group
                 spec (map fst trace) [] = Inr aggregated)" for remaining aggregated
    by (rule spec_loop_iff)
  have a: "DistributedAllReduce_preprocess_device_grads tf m cnn spec prefixes num_workers
             max_bytes max_group device_grads = Inl AssertionError"
    if "DistributedAllReduce_spec_loop m cnn prefixes num_workers max_bytes max_group
         spec device_grads [] = Inr (remaining, aggregated) \<and> remaining \<noteq> []"
    for remaining aggregated
    using that by (simp add: DistributedAllReduce_preprocess_device_grads_def)
  have b: "\<exists>trace. spec_trace m spec device_grads = Inr trace
             \<and> length trace = length spec
             \<and> (\<forall>k < length spec.
                   (limit (spec ! k) < 0 \<longrightarrow>
                      trace ! k = (remainder_before device_grads trace k, []))
                 \<and> (0 \<le> limit (spec ! k) \<longrightarrow>
                      split_grads_by_size m (limit (spec ! k))
                        (remainder_before device_grads trace k) = Inr (trace ! k)))
             \<and> final_remainder device_grads trace = []
             \<and> reduce_ranges m cnn prefixes num_workers max_bytes max_group
                  spec (map fst trace) [] = Inr state
             \<and> map_err (first_grad_device tf) device_grads = Inr apply_devices
             \<and> ((\<forall>l r this rest. split_grads_by_size m l r = Inr (this, rest)
                     \<longrightarrow> mset (concat this) + mset (concat rest) = mset (concat r))
                \<longrightarrow> mset (concat device_grads)
                      = (\<Sum>(this, rest) \<leftarrow> trace. mset (concat this)))
             \<and> (\<forall>byte_size. split_grads_by_size m = spec_split_grads_by_size byte_size
                \<longrightarrow> mset (concat device_grads)
                      = (\<Sum>(this, rest) \<leftarrow> trace. mset (concat this))
                  \<and> (\<forall>k < length spec. 0 \<le> limit (spec ! k) \<longrightarrow>
                        fst (trace ! k)
                          = filter (\<lambda>tower. tower \<noteq> [])
                              (map (\<lambda>tower. take (first_batch byte_size (limit (spec ! k)) tower) tower)
                                 (remainder_before device_grads trace k))
                      \<and> snd (trace ! k)
                          = filter (\<lambda>tower. tower \<noteq> [])
                              (map (\<lambda>tower. drop (first_batch byte_size (limit (spec ! k)) tower) tower)
                                 (remainder_before device_grads trace k))
                      \<and> (\<forall>tower \<in> set (remainder_before device_grads trace k).
                            (\<Sum>(g, v) \<leftarrow> take (first_batch byte_size (limit (spec ! k)) tower) tower.
                                byte_size g) \<le> limit (spec ! k)
                          \<or> first_batch byte_size (limit (spec ! k)) tower = 1)))"
    if pre: "DistributedAllReduce_preprocess_device_grads tf m cnn spec prefixes num_workers
         max_bytes max_group device_grads = Inr (apply_devices, state)"
    for apply_devices state
  proof -
    from pre have
      loop: "DistributedAllReduce_spec_loop m cnn prefixes num_workers max_bytes max_group
         spec device_grads [] = Inr ([], state)"
      and devs: "map_err (first_grad_device tf) device_grads = Inr apply_devices"
      by (auto simp: DistributedAllReduce_preprocess_device_grads_def
          split: sum.splits if_splits)
    from loop [unfolded spec_loop_iff] obtain trace where
      tr: "spec_trace m spec device_grads = Inr trace"
      and fin: "final_remainder device_grads trace = []"
      and red: "reduce_ranges m cnn prefixes num_workers max_bytes max_group
                  spec (map fst trace) [] = Inr state" by blast
    note steps = spec_trace_step [OF tr]
    have cons: "mset (concat device_grads) = (\<Sum>(this, rest) \<leftarrow> trace. mset (concat this))"
      if "\<forall>l r this rest. split_grads_by_size m l r = Inr (this, rest)
            \<longrightarrow> mset (concat this) + mset (concat rest) = mset (concat r)"
      using spec_trace_conserves [OF _ tr] that fin by simp
    have modelled: "mset (concat device_grads)
                      = (\<Sum>(this, rest) \<leftarrow> trace. mset (concat this))
                  \<and> (\<forall>k < length spec. 0 \<le> limit (spec ! k) \<longrightarrow>
                        fst (trace ! k)
                          = filter (\<lambda>tower. tower \<noteq> [])
                              (map (\<lambda>tower. take (first_batch byte_size (limit (spec ! k)) tower) tower)
                                 (remainder_before device_grads trace k))
                      \<and> snd (trace ! k)
                          = filter (\<lambda>tower. tower \<noteq> [])
                              (map (\<lambda>tower. drop (first_batch byte_size (limit (spec ! k)) tower) tower)
                                 (remainder_before device_grads trace k))
                      \<and> (\<forall>tower \<in> set (remainder_before device_grads trace k).
                            (\<Sum>(g, v) \<leftarrow> take (first_batch byte_size (limit (spec ! k)) tower) tower.
                                byte_size g) \<le> limit (spec ! k)
                          \<or> first_batch byte_size (limit (spec ! k)) tower = 1))"
      if sp: "split_grads_by_size m = spec_split_grads_by_size byte_size" for byte_size
    proof (intro conjI allI impI)
      have "\<forall>l r this rest. split_grads_by_size m l r = Inr (this, rest)
            \<longrightarrow> mset (concat this) + mset (concat rest) = mset (concat r)"
        unfolding sp by (blast intro: spec_split_conserves)
      then show "mset (concat device_grads) = (\<Sum>(this, rest) \<leftarrow> trace. mset (concat this))"
        by (rule cons)
    next
      fix k assume k: "k < length spec" and l: "0 \<le> limit (spec ! k)"
      from steps [OF k] l have
        "spec_split_grads_by_size byte_size (limit (spec ! k))
           (remainder_before device_grads trace k) = Inr (trace ! k)"
        unfolding sp by simp
      then show "fst (trace ! k)
            = filter (\<lambda>tower. tower \<noteq> [])
                (map (\<lambda>tower. take (first_batch byte_size (limit (spec ! k)) tower) tower)
                   (remainder_before device_grads trace k))"
        by (cases "trace ! k") (auto simp: spec_split_grads_by_size_def)
    next
      fix k assume k: "k < length spec" and l: "0 \<le> limit (spec ! k)"
      from steps [OF k] l have
        "spec_split_grads_by_size byte_size (limit (spec ! k))
           (remainder_before device_grads trace k) = Inr (trace ! k)"
        unfolding sp by simp
      then show "snd (trace ! k)
            = filter (\<lambda>tower. tower \<noteq> [])
                (map (\<lambda>tower. drop (first_batch byte_size (limit (spec ! k)) tower) tower)
                   (remainder_before device_grads trace k))"
        by (cases "trace ! k") (auto simp: spec_split_grads_by_size_def)
    next
      fix k assume k: "k < length spec" and l: "0 \<le> limit (spec ! k)"
      show "\<forall>tower \<in> set (remainder_before device_grads trace k).
              (\<Sum>(g, v) \<leftarrow> take (first_batch byte_size (limit (spec ! k)) tower) tower.
                  byte_size g) \<le> limit (spec ! k)
            \<or> first_batch byte_size (limit (spec ! k)) tower = 1"
        using first_batch_bounded [OF l] by blast
    qed
    show ?thesis
      apply (rule exI [of _ trace])
      using tr fin red devs spec_trace_length [OF tr] steps cons modelled by blast
  qed
  from i a b show ?thesis by blast
qed

theorem C3_distributed_all_reduce_partitions_witness:
  "DistributedAllReduce_preprocess_device_grads fp_tensors (example_modules fp_tensors) two_gpus
       [\<lparr>alg = ''nccl'', shards = 1, limit = 8\<rparr>, \<lparr>alg = ''xring'', shards = 2, limit = - 1\<rparr>]
       [''/job:worker/task:0''] 1 0 10
       [[(scalar 1, w0), (\<lparr>shape = [3], elems = [Finite 1, Finite 2, Finite 3]\<rparr>, w0)],
        [(scalar 2, w1), (\<lparr>shape = [3], elems = [Finite 4, Finite 5, Finite 6]\<rparr>, w1)]]
     = Inr ([''/gpu:0'', ''/gpu:0''],
        [[(scalar 3, w0), (\<lparr>shape = [3], elems = [Finite 5, Finite 7, Finite 9]\<rparr>, w0)],
         [(scalar 3, w1), (\<lparr>shape = [3], elems = [Finite 5, Finite 7, Finite 9]\<rparr>, w1)]])
   \<and> spec_trace (example_modules fp_tensors)
       [\<lparr>alg = ''nccl'', shards = 1, limit = 8\<rparr>, \<lparr>alg = ''xring'', shards = 2, limit = - 1\<rparr>]
       [[(scalar 1, w0), (\<lparr>shape = [3], elems = [Finite 1, Finite 2, Finite 3]\<rparr>, w0)],
        [(scalar 2, w1), (\<lparr>shape = [3], elems = [Finite 4, Finite 5, Finite 6]\<rparr>, w1)]]
     = Inr [([[(scalar 1, w0)], [(scalar 2, w1)]],
             [[(\<lparr>shape = [3], elems = [Finite 1, Finite 2, Finite 3]\<rparr>, w0)],
              [(\<lparr>shape = [3], elems = [Finite 4, Finite 5, Finite 6]\<rparr>, w1)]]),
            ([[(\<lparr>shape = [3], elems = [Finite 1, Finite 2, Finite 3]\<rparr>, w0)],
              [(\<lparr>shape = [3], elems = [Finite 4, Finite 5, Finite 6]\<rparr>, w1)]], [])]
   \<and> reduce_ranges (example_modules fp_tensors) two_gpus [''/job:worker/task:0''] 1 0 10
       [\<lparr>alg = ''nccl'', shards = 1, limit = 8\<rparr>, \<lparr>alg = ''xring'', shards = 2, limit = - 1\<rparr>]
       [[[(scalar 1, w0)], [(scalar 2, w1)]],
        [[(\<lparr>shape = [3], elems = [Finite 1, Finite 2, Finite 3]\<rparr>, w0)],
         [(\<lparr>shape = [3], elems = [Finite 4, Finite 5, Finite 6]\<rparr>, w1)]]] []
     = Inr [[(scalar 3, w0), (\<lparr>shape = [3], elems = [Finite 5, Finite 7, Finite 9]\<rparr>, w0)],
            [(scalar 3, w1), (\<lparr>shape = [3], elems = [Finite 5, Finite 7, Finite 9]\<rparr>, w1)]]
   \<and> mset (concat
       [[(scalar 1, w0), (\<lparr>shape = [3], elems = [Finite 1, Finite 2, Finite 3]\<rparr>, w0)],
        [(scalar 2, w1), (\<lparr>shape = [3], elems = [Finite 4, Finite 5, Finite 6]\<rparr>, w1)]])
     = mset (concat [[(scalar 1, w0)], [(scalar 2, w1)]])
       + mset (concat [[(\<lparr>shape = [3], elems = [Finite 1, Finite 2, Finite 3]\<rparr>, w0)],
                       [(\<lparr>shape = [3], elems = [Finite 4, Finite 5, Finite 6]\<rparr>, w1)]])
   \<and> DistributedAllReduce_preprocess_device_grads fp_tensors (example_modules fp_tensors) two_gpus
       [\<lparr>alg = ''nccl'', shards = 1, limit = 8\<rparr>]
       [''/job:worker/task:0''] 1 0 10
       [[(scalar 1, w0), (\<lparr>shape = [3], elems = [Finite 1, Finite 2, Finite 3]\<rparr>, w0)],
        [(scalar 2, w1), (\<lparr>shape = [3], elems = [Finite 4, Finite 5, Finite 6]\<rparr>, w1)]]
     = Inl AssertionError"
proof -
  let ?r1 = "\<lparr>alg = ''nccl'', shards = 1, limit = 8\<rparr>"
  let ?spec = "[?r1, \<lparr>alg = ''xring'', shards = 2, limit = - 1\<rparr>]"
  let ?b0 = "\<lparr>shape = [3], elems = [Finite 1, Finite 2, Finite 3]\<rparr>"
  let ?b1 = "\<lparr>shape = [3], elems = [Finite 4, Finite 5, Finite 6]\<rparr>"
  let ?s = "\<lparr>shape = [3], elems = [Finite 5, Finite 7, Finite 9]\<rparr>"
  let ?dg = "[[(scalar 1, w0), (?b0, w0)], [(scalar 2, w1), (?b1, w1)]]"
  let ?p0 = "[[(scalar 1, w0)], [(scalar 2, w1)]]"
  let ?rest0 = "[[(?b0, w0)], [(?b1, w1)]]"
  let ?joined = "[[(scalar 3, w0), (?s, w0)], [(scalar 3, w1), (?s, w1)]]"
  let ?m = "example_modules fp_tensors :: (fp tensor, variable) modules"
  let ?bytes = "\<lambda>g. 4 * tf_size fp_tensors g"
  have sz: "tf_size fp_tensors (scalar x) = 1" "tf_size fp_tensors ?b0 = 3"
    "tf_size fp_tensors ?b1 = 3" for x
    by (simp_all add: fp_tensors_def tensor_ops_def scalar_def)
  have sp: "split_grads_by_size ?m = spec_split_grads_by_size ?bytes"
    by (simp add: example_modules_def)
  have split: "split_grads_by_size ?m 8 ?dg = Inr (?p0, ?rest0)"
    by (simp add: sp spec_split_grads_by_size_def first_batch_def sz)
  have sum0: "sum_gradients_all_reduce ?m p ?p0 n a s i b g
      = Inr [[(scalar 3, w0)], [(scalar 3, w1)]]" for p n a s i b g
    by (simp add: example_modules_def sum_over_towers_def zip_star_def common_length_def
        fp_tensors_def tensor_ops_def tensor_add_def scalar_def)
  have sum1: "sum_gradients_all_reduce ?m p ?rest0 n a s i b g
      = Inr [[(?s, w0)], [(?s, w1)]]" for p n a s i b g
    by (simp add: example_modules_def sum_over_towers_def zip_star_def common_length_def
        fp_tensors_def tensor_ops_def tensor_add_def)
  have dev: "tf_device fp_tensors x = ''/gpu:0''" for x
    by (simp add: fp_tensors_def tensor_ops_def)
  have pre: "DistributedAllReduce_preprocess_device_grads fp_tensors ?m two_gpus ?spec
       [''/job:worker/task:0''] 1 0 10 ?dg = Inr ([''/gpu:0'', ''/gpu:0''], ?joined)"
    by (simp add: DistributedAllReduce_preprocess_device_grads_def split sum0 sum1
        first_grad_device_def dev)
  have loop1: "DistributedAllReduce_spec_loop ?m two_gpus [''/job:worker/task:0''] 1 0 10
       [?r1] ?dg [] = Inr (?rest0, [[(scalar 3, w0)], [(scalar 3, w1)]]) \<and> ?rest0 \<noteq> []"
    by (simp add: split sum0)
  from C3_distributed_all_reduce_partitions
    [of ?m two_gpus "[''/job:worker/task:0'']" 1 0 10 "[?r1]" ?dg fp_tensors] loop1
  have err: "DistributedAllReduce_preprocess_device_grads fp_tensors ?m two_gpus [?r1]
       [''/job:worker/task:0''] 1 0 10 ?dg = Inl AssertionError"
    by blast
  from C3_distributed_all_reduce_partitions
    [of ?m two_gpus "[''/job:worker/task:0'']" 1 0 10 ?spec ?dg fp_tensors] pre
  obtain trace where tr: "spec_trace ?m ?spec ?dg = Inr trace"
    and len: "length trace = length ?spec"
    and fin: "final_remainder ?dg trace = []"
    and steps: "\<forall>k < length ?spec.
                   (limit (?spec ! k) < 0 \<longrightarrow>
                      trace ! k = (remainder_before ?dg trace k, []))
                 \<and> (0 \<le> limit (?spec ! k) \<longrightarrow>
                      split_grads_by_size ?m (limit (?spec ! k))
                        (remainder_before ?dg trace k) = Inr (trace ! k))"
    and red: "reduce_ranges ?m two_gpus [''/job:worker/task:0''] 1 0 10 ?spec (map fst trace) []
                = Inr ?joined"
    and acc: "\<forall>byte_size. split_grads_by_size ?m = spec_split_grads_by_size byte_size
                \<longrightarrow> mset (concat ?dg) = (\<Sum>(this, rest) \<leftarrow> trace. mset (concat this))
                  \<and> (\<forall>k < length ?spec. 0 \<le> limit (?spec ! k) \<longrightarrow>
                        fst (trace ! k)
                          = filter (\<lambda>tower. tower \<noteq> [])
                              (map (\<lambda>tower. take (first_batch byte_size (limit (?spec ! k)) tower) tower)
                                 (remainder_before ?dg trace k))
                      \<and> snd (trace ! k)
                          = filter (\<lambda>tower. tower \<noteq> [])
                              (map (\<lambda>tower. drop (first_batch byte_size (limit (?spec ! k)) tower) tower)
                                 (remainder_before ?dg trace k))
                      \<and> (\<forall>tower \<in> set (remainder_before ?dg trace k).
                            (\<Sum>(g, v) \<leftarrow> take (first_batch byte_size (limit (?spec ! k)) tower) tower.
                                byte_size g) \<le> limit (?spec ! k)
                          \<or> first_batch byte_size (limit (?spec ! k)) tower = 1))"
    by blast
  have k0: "(0::nat) < length ?spec" and k1: "(1::nat) < length ?spec" by simp_all
  have s0: "(limit (?spec ! 0) < 0 \<longrightarrow> trace ! 0 = (remainder_before ?dg trace 0, []))
      \<and> (0 \<le> limit (?spec ! 0) \<longrightarrow>
            split_grads_by_size ?m (limit (?spec ! 0)) (remainder_before ?dg trace 0)
              = Inr (trace ! 0))"
    using steps k0 by blast
  have s1: "(limit (?spec ! 1) < 0 \<longrightarrow> trace ! 1 = (remainder_before ?dg trace 1, []))
      \<and> (0 \<le> limit (?spec ! 1) \<longrightarrow>
            split_grads_by_size ?m (limit (?spec ! 1)) (remainder_before ?dg trace 1)
              = Inr (trace ! 1))"
    using steps k1 by blast
  have t0: "trace ! 0 = (?p0, ?rest0)"
    using s0 split by (simp add: remainder_before_def)
  have t1: "trace ! 1 = (?rest0, [])"
    using s1 t0 by (simp add: remainder_before_def)
  have "trace = [trace ! 0, trace ! 1]"
    using len by (auto simp: list_eq_iff_nth_eq less_Suc_eq numeral_2_eq_2)
  then have tv: "trace = [(?p0, ?rest0), (?rest0, [])]"
    using t0 t1 by simp
  from acc sp have "mset (concat ?dg) = (\<Sum>(this, rest) \<leftarrow> trace. mset (concat this))"
    by blast
  then have ms: "mset (concat ?dg) = mset (concat ?p0) + mset (concat ?rest0)"
    unfolding tv by simp
  have rd: "reduce_ranges ?m two_gpus [''/job:worker/task:0''] 1 0 10 ?spec [?p0, ?rest0] []
                = Inr ?joined"
    using red unfolding tv by simp
  have trv: "spec_trace ?m ?spec ?dg = Inr [(?p0, ?rest0), (?rest0, [])]"
    using tr unfolding tv .
  show ?thesis
    apply (intro conjI)
        apply (rule pre)
       apply (rule trv)
      apply (rule rd)
     apply (rule ms)
    apply (rule err)
    done
qed

section \<open>Gradient repacking\<close>

lemma length_chop: "length (chop ns xs) = length ns"
  by (induction ns arbitrary: xs) auto

lemma concat_chop: "sum_list ns = length xs \<Longrightarrow> concat (chop ns xs) = xs"
proof (induction ns arbitrary: xs)
  case Nil
  then show ?case by simp
next
  case (Cons n ns)
  then have "sum_list ns = length (drop n xs)" by simp
  from Cons.IH [OF this] show ?case by simp
qed

lemma map_length_chop: "sum_list ns \<le> length xs \<Longrightarrow> map length (chop ns xs) = ns"
proof (induction ns arbitrary: xs)
  case Nil
  then show ?case by simp
next
  case (Cons n ns)
  then have "sum_list ns \<le> length (drop n xs)" by simp
  from Cons.IH [OF this] Cons.prems show ?case by simp
qed

lemma chop_concat: "chop (map length xss) (concat xss) = xss"
  by (induction xss) auto

lemma map_err_all:
  "(\<And>x. x \<in> set xs \<Longrightarrow> f x = Inr (h x)) \<Longrightarrow> map_err f xs = Inr (map h xs)"
  by (induction xs) auto

lemma split_sizes_length: "0 < K \<Longrightarrow> length (split_sizes T K) = nat K"
  by (simp add: split_sizes_def Let_def)

lemma split_sizes_sum: "sum_list (split_sizes T K) = (if 0 < K then T else T - (T div K) * (K - 1))"
  by (simp add: split_sizes_def Let_def sum_list_replicate algebra_simps)

lemma split_sizes_nonneg:
  assumes "0 < K" "0 \<le> T"
  shows "list_all (\<lambda>n. 0 \<le> n) (split_sizes T K)"
proof -
  have q: "0 \<le> T div K" using assms by (simp add: pos_imp_zdiv_nonneg_iff)
  have "(T div K) * K + T mod K = T" by simp
  moreover have "0 \<le> T mod K" using assms(1) by simp
  ultimately have "(T div K) * K \<le> T" by linarith
  moreover have "(T div K) * (K - 1) \<le> (T div K) * K"
    using q by (simp add: mult_left_mono)
  ultimately have "0 \<le> T - (T div K) * (K - 1)" by linarith
  then show ?thesis using q by (simp add: split_sizes_def Let_def list_all_iff)
qed

lemma zip_replicate_right: "length xs = n \<Longrightarrow> zip xs (replicate n y) = map (\<lambda>x. (x, y)) xs"
  by (induction xs arbitrary: n) auto

lemma sizes_sum: "sum_list (map (\<lambda>(g, v). int (length (elems g))) tower) = int (length (buffer_of tower))"
  by (induction tower) (auto simp: buffer_of_def)

lemma sizes_sum_nat: "sum_list (map (\<lambda>(g, v). length (elems g)) tower) = length (buffer_of tower)"
  by (induction tower) (auto simp: buffer_of_def)

lemma inferred_sizes_nonneg:
  "list_all (\<lambda>n. 0 \<le> n) size_splits \<Longrightarrow> inferred_sizes whole size_splits = size_splits"
proof -
  assume "list_all (\<lambda>n. 0 \<le> n) size_splits"
  then have "filter (\<lambda>n. n \<noteq> - 1) size_splits = size_splits"
    by (induction size_splits) auto
  then show ?thesis by (simp add: inferred_sizes_def)
qed

lemma tensor_split_nonneg:
  "list_all (\<lambda>n. 0 \<le> n) size_splits \<Longrightarrow> sum_list size_splits = int (length (elems g))
   \<Longrightarrow> tensor_split g size_splits = Inr (map rank1 (chop (map nat size_splits) (elems g)))"
  by (simp add: tensor_split_def inferred_sizes_nonneg)

lemma pack_tower_ok:
  assumes "tower \<noteq> []" "0 < K"
  shows "pack_tower (tensor_ops add div_by is_finite device_of) K tower
         = Inr (repacked K tower, map (\<lambda>(g, v). shape g) tower,
                map (\<lambda>(g, v). int (length (elems g))) tower)"
proof -
  let ?B = "buffer_of tower"
  let ?sizes = "split_sizes (int (length ?B)) K"
  have flat: "map elems (map (\<lambda>(g, _). rank1 (elems g)) tower) = map (\<lambda>(g, v). elems g) tower"
    by (simp add: rank1_def split_beta)
  have cat: "tensor_concat (map (\<lambda>(g, _). rank1 (elems g)) tower) = Inr (rank1 ?B)"
    using assms(1) by (simp add: tensor_concat_def buffer_of_def comp_def case_prod_unfold rank1_def)
  have nn: "list_all (\<lambda>n. 0 \<le> n) ?sizes"
    using split_sizes_nonneg [OF assms(2), of "int (length ?B)"] by simp
  have sm: "sum_list ?sizes = int (length ?B)"
    using assms(2) by (simp add: split_sizes_sum)
  have spl: "tensor_split (rank1 ?B) ?sizes = Inr (map rank1 (chop (map nat ?sizes) ?B))"
    using nn sm by (simp add: tensor_split_nonneg rank1_def)
  have len: "length (map rank1 (chop (map nat ?sizes) ?B)) = nat K"
    using assms(2) by (simp add: length_chop split_sizes_length)
  have zp: "zip (map rank1 (chop (map nat ?sizes) ?B)) (replicate (nat K) None)
      = repacked K tower"
    using zip_replicate_right [OF len] by (simp add: repacked_def comp_def)
  show ?thesis
    using assms(1) cat spl zp
    by (simp add: pack_tower_def tensor_ops_def rank1_def)
qed

lemma map_err_zip_reshape:
  "list_all2 (\<lambda>s c. prod_list s = length c) shapes chunks \<Longrightarrow>
   map_err (\<lambda>(shape, grad). tensor_reshape grad shape) (zip shapes (map rank1 chunks))
     = Inr (map (\<lambda>(s, c). \<lparr>shape = s, elems = c\<rparr>) (zip shapes chunks))"
  by (induction rule: list_all2_induct) (auto simp: tensor_reshape_def rank1_def)

lemma rebuild_zip:
  "length chunks = length tower \<Longrightarrow>
   map (\<lambda>(g, (_, v)). (g, v))
     (zip (map (\<lambda>(s, c). \<lparr>shape = s, elems = c\<rparr>)
             (zip (map (\<lambda>(g, v). shape g) tower) chunks)) tower)
   = map (\<lambda>(chunk, (g, v)). (\<lparr>shape = shape g, elems = chunk\<rparr>, v)) (zip chunks tower)"
  by (induction chunks tower rule: list_induct2) auto

lemma unpack_tower_ok:
  assumes wf: "\<forall>(g, v) \<in> set tower. well_formed g"
    and ne: "summed \<noteq> []"
    and tot: "length (concat (map (\<lambda>(g, v). elems g) summed)) = length (buffer_of tower)"
  shows "unpack_tower (tensor_ops add div_by is_finite device_of)
           (summed, tower, map (\<lambda>(g, v). shape g) tower,
            map (\<lambda>(g, v). int (length (elems g))) tower)
         = Inr (map (\<lambda>(chunk, (g, v)). (\<lparr>shape = shape g, elems = chunk\<rparr>, v))
                  (zip (chop (map (\<lambda>(g, v). length (elems g)) tower)
                          (concat (map (\<lambda>(g, v). elems g) summed))) tower))"
proof -
  let ?E = "concat (map (\<lambda>(g, v). elems g) summed)"
  let ?ns = "map (\<lambda>(g, v). length (elems g)) tower"
  let ?sizes = "map (\<lambda>(g, v). int (length (elems g))) tower"
  let ?shapes = "map (\<lambda>(g, v). shape g) tower"
  let ?chunks = "chop ?ns ?E"
  have fl: "map elems (map (\<lambda>(g, _). g) summed) = map (\<lambda>(g, v). elems g) summed"
    by (simp add: split_beta)
  have cat: "tensor_concat (map (\<lambda>(g, _). g) summed) = Inr (rank1 ?E)"
    using ne by (simp add: tensor_concat_def comp_def case_prod_unfold)
  have nat_sizes: "map (nat \<circ> (\<lambda>(g, v). int (length (elems g)))) tower = ?ns"
    by (simp add: comp_def case_prod_unfold)
  have nn: "list_all (\<lambda>n. 0 \<le> n) ?sizes" by (simp add: list_all_iff split_beta)
  have sm: "sum_list ?sizes = int (length ?E)" using tot by (simp add: sizes_sum)
  have spl: "tensor_split (rank1 ?E) ?sizes = Inr (map rank1 ?chunks)"
    using nn sm by (simp add: tensor_split_nonneg rank1_def nat_sizes)
  have sumns: "sum_list ?ns = length ?E" using tot by (simp add: sizes_sum_nat)
  have lens: "map length ?chunks = ?ns" using sumns by (simp add: map_length_chop)
  have lc: "length ?chunks = length tower" by (simp add: length_chop)
  have la: "list_all2 (\<lambda>s c. prod_list s = length c) ?shapes ?chunks"
  proof (rule list_all2_all_nthI)
    show "length ?shapes = length ?chunks" using lc by simp
  next
    fix j assume j: "j < length ?shapes"
    then have jt: "j < length tower" by simp
    have "length (?chunks ! j) = map length ?chunks ! j" using jt lc by simp
    also have "\<dots> = length (elems (fst (tower ! j)))"
      using jt by (simp add: lens split_beta)
    finally have l: "length (?chunks ! j) = length (elems (fst (tower ! j)))" .
    have "well_formed (fst (tower ! j))"
      using wf jt by (metis (mono_tags, lifting) case_prodD nth_mem prod.collapse)
    then show "prod_list (?shapes ! j) = length (?chunks ! j)"
      using jt l by (simp add: well_formed_def split_beta)
  qed
  have rs: "map_err (\<lambda>(shape, grad). tensor_reshape grad shape) (zip ?shapes (map rank1 ?chunks))
      = Inr (map (\<lambda>(s, c). \<lparr>shape = s, elems = c\<rparr>) (zip ?shapes ?chunks))"
    using map_err_zip_reshape [OF la] .
  show ?thesis
    using ne cat spl rs rebuild_zip [OF lc]
    by (simp add: unpack_tower_def tensor_ops_def)
qed

lemma unpack_identity:
  assumes wf: "\<forall>(g, v) \<in> set tower. well_formed g"
  shows "map (\<lambda>(chunk, (g, v)). (\<lparr>shape = shape g, elems = chunk\<rparr>, v))
           (zip (chop (map (\<lambda>(g, v). length (elems g)) tower) (buffer_of tower)) tower)
         = tower"
proof -
  have m: "map (\<lambda>(g, v). length (elems g)) tower = map length (map (\<lambda>(g, v). elems g) tower)"
    by (simp add: comp_def split_beta)
  have ch: "chop (map (\<lambda>(g, v). length (elems g)) tower) (buffer_of tower)
      = map (\<lambda>(g, v). elems g) tower"
    unfolding m buffer_of_def by (rule chop_concat)
  have eta: "\<lparr>shape = shape g, elems = elems g\<rparr> = g" for g :: "'a tensor"
    by (cases g) simp
  show ?thesis
    unfolding ch
    by (simp add: zip_map1 case_prod_unfold zip_same_conv_map comp_def eta)
qed

lemma repacked_buffer:
  assumes "0 < K"
  shows "concat (map (\<lambda>(p, v). elems p) (repacked K tower)) = buffer_of tower"
proof -
  let ?B = "buffer_of tower"
  have "sum_list (map nat (split_sizes (int (length ?B)) K)) = length ?B"
  proof -
    have nn: "list_all (\<lambda>n. 0 \<le> n) (split_sizes (int (length ?B)) K)"
      using split_sizes_nonneg [OF assms, of "int (length ?B)"] by simp
    have "int (sum_list (map nat xs)) = sum_list xs" if "list_all (\<lambda>n. 0 \<le> n) xs" for xs
      using that by (induction xs) auto
    from this [OF nn] show ?thesis using assms by (simp add: split_sizes_sum)
  qed
  from concat_chop [OF this] show ?thesis
    by (simp add: repacked_def comp_def rank1_def)
qed

lemma map_err_map_all:
  "(\<And>x. x \<in> set xs \<Longrightarrow> f (k x) = Inr (h x)) \<Longrightarrow> map_err f (map k xs) = Inr (map h xs)"
  by (induction xs) auto

lemma zip_with_own_maps: "zip xs (zip (map f xs) (map g xs)) = map (\<lambda>x. (x, f x, g x)) xs"
  by (induction xs) auto

lemma repacked_length: "0 < K \<Longrightarrow> length (repacked K tower) = nat K"
  by (simp add: repacked_def length_chop split_sizes_length)

lemma repacked_sizes:
  assumes "0 < K"
  shows "map (\<lambda>(p, v). int (length (elems p))) (repacked K tower)
         = split_sizes (int (length (buffer_of tower))) K"
proof -
  let ?B = "buffer_of tower"
  let ?sz = "split_sizes (int (length ?B)) K"
  have nn: "list_all (\<lambda>n. 0 \<le> n) ?sz"
    using split_sizes_nonneg [OF assms, of "int (length ?B)"] by simp
  have cast: "int (sum_list (map nat xs)) = sum_list xs \<and> map (\<lambda>n. int (nat n)) xs = xs"
    if "list_all (\<lambda>n. 0 \<le> n) xs" for xs
    using that by (induction xs) auto
  have "sum_list (map nat ?sz) = length ?B"
    using cast [OF nn] assms by (simp add: split_sizes_sum)
  then have "map length (chop (map nat ?sz) ?B) = map nat ?sz"
    by (simp add: map_length_chop)
  then have "map (\<lambda>c. int (length c)) (chop (map nat ?sz) ?B) = map (\<lambda>n. int (nat n)) ?sz"
    by (metis (no_types, lifting) map_map comp_def map_eq_conv)
  then show ?thesis using cast [OF nn]
    by (simp add: repacked_def comp_def rank1_def)
qed

lemma repack_and_aggregate_ok:
  fixes device_grads :: "('a tensor, 'v) device_grads"
  assumes K: "0 < gradient_repacking cnn"
    and tf: "tf = tensor_ops add div_by is_finite device_of"
    and ne: "\<forall>tower \<in> set device_grads. tower \<noteq> []"
    and wf: "\<forall>tower \<in> set device_grads. \<forall>(g, v) \<in> set tower. well_formed g"
    and agg: "aggregate_gradients_using_hierarchical_copy_packs m cnn
                (map (repacked (gradient_repacking cnn)) device_grads)
                False (enable_auto_loss_scale cnn) = Inr (summed, flag')"
    and same: "same_pack_sizes summed (map (repacked (gradient_repacking cnn)) device_grads)"
  shows "repack_and_aggregate tf m cnn device_grads
         = Inr (map (\<lambda>(s, tower).
                  map (\<lambda>(chunk, (g, v)). (\<lparr>shape = shape g, elems = chunk\<rparr>, v))
                    (zip (chop (map (\<lambda>(g, v). length (elems g)) tower)
                            (concat (map (\<lambda>(g, v). elems g) s))) tower))
                  (zip summed device_grads), flag')"
proof -
  let ?K = "gradient_repacking cnn"
  let ?sh = "\<lambda>tower :: ('a tensor \<times> 'v) list. map (\<lambda>(g, v). shape g) tower"
  let ?sz = "\<lambda>tower :: ('a tensor \<times> 'v) list. map (\<lambda>(g, v). int (length (elems g))) tower"
  let ?packed = "map (\<lambda>tower. (repacked ?K tower :: ('a tensor \<times> 'v option) list, ?sh tower, ?sz tower))
                   device_grads"
  let ?rebuild = "\<lambda>(s :: ('a tensor \<times> 'v option) list, tower :: ('a tensor \<times> 'v) list).
                  map (\<lambda>(chunk, (g, v)). (\<lparr>shape = shape g, elems = chunk\<rparr>, v))
                    (zip (chop (map (\<lambda>(g, v). length (elems g)) tower)
                            (concat (map (\<lambda>(g, v). elems g) s))) tower)"
  have pack: "map_err (pack_tower tf ?K) device_grads = Inr ?packed"
    using ne K by (intro map_err_all) (simp add: tf pack_tower_ok)
  have fsts: "map (\<lambda>(packs, shapes, sizes). packs) ?packed = map (repacked ?K) device_grads"
    "map (\<lambda>(packs, shapes, sizes). shapes) ?packed = map ?sh device_grads"
    "map (\<lambda>(packs, shapes, sizes). sizes) ?packed = map ?sz device_grads"
    by (simp_all add: comp_def)
  have zz: "zip summed (zip device_grads (zip (map ?sh device_grads) (map ?sz device_grads)))
      = map (\<lambda>(s, tower). (s, tower, ?sh tower, ?sz tower)) (zip summed device_grads)"
    by (subst zip_with_own_maps, subst zip_map2) simp
  have one: "unpack_tower tf ((\<lambda>(s, tower). (s, tower, ?sh tower, ?sz tower)) x) = Inr (?rebuild x)"
    if x: "x \<in> set (zip summed device_grads)" for x
  proof -
    obtain s tower where xe: "x = (s, tower)" by (cases x)
    have tw: "tower \<in> set device_grads" using x xe by (auto dest: set_zip_rightD)
    have "(s, repacked ?K tower) \<in> set (zip summed (map (repacked ?K) device_grads))"
      using x xe by (force simp: zip_map2)
    then have sizes: "map (\<lambda>(g, v). length (elems g)) s
        = map (\<lambda>(g, v). length (elems g)) (repacked ?K tower :: ('a tensor \<times> 'v option) list)"
      using same by (auto simp: same_pack_sizes_def list_all2_iff)
    then have "length s = length (repacked ?K tower :: ('a tensor \<times> 'v option) list)"
      by (metis length_map)
    then have sne: "s \<noteq> []" using K by (auto simp: repacked_length)
    have len_concat: "length (concat (map (\<lambda>(g, v). elems g) ps))
        = sum_list (map (\<lambda>(g, v). length (elems g)) ps)" for ps :: "('a tensor \<times> 'v option) list"
      by (induction ps) auto
    have rb: "concat (map (\<lambda>(p, v). elems p)
                 (repacked ?K tower :: ('a tensor \<times> 'v option) list)) = buffer_of tower"
      using K by (rule repacked_buffer)
    have "length (concat (map (\<lambda>(g, v). elems g) s))
        = sum_list (map (\<lambda>(g, v). length (elems g)) s)"
      by (rule len_concat)
    also have "\<dots> = sum_list (map (\<lambda>(g, v). length (elems g))
                          (repacked ?K tower :: ('a tensor \<times> 'v option) list))"
      by (simp only: sizes)
    also have "\<dots> = length (concat (map (\<lambda>(g, v). elems g)
                          (repacked ?K tower :: ('a tensor \<times> 'v option) list)))"
      by (rule len_concat [symmetric])
    also have "\<dots> = length (buffer_of tower)" by (simp only: rb)
    finally have tot: "length (concat (map (\<lambda>(g, v). elems g) s)) = length (buffer_of tower)" .
    have wft: "\<forall>(g, v) \<in> set tower. well_formed g" using wf tw by blast
    show ?thesis
      using unpack_tower_ok [OF wft sne tot, of add div_by is_finite device_of]
      by (simp add: xe tf)
  qed
  have unp: "map_err (unpack_tower tf)
      (zip summed (zip device_grads (zip (map ?sh device_grads) (map ?sz device_grads))))
      = Inr (map ?rebuild (zip summed device_grads))"
    unfolding zz using one by (rule map_err_map_all)
  show ?thesis
    using pack agg unp
    by (simp add: repack_and_aggregate_def fsts del: map_map)
qed

lemma rebuilt_rows:
  fixes device_grads :: "('a tensor, 'v) device_grads"
    and summed :: "('a tensor \<times> 'v option) list list"
  assumes len: "length summed = length device_grads"
    and tot: "\<forall>t < length device_grads.
                length (concat (map (\<lambda>(g, v). elems g) (summed ! t))) = length (buffer_of (device_grads ! t))"
  defines "out \<equiv> map (\<lambda>(s, tower).
                  map (\<lambda>(chunk, (g, v)). (\<lparr>shape = shape g, elems = chunk\<rparr>, v))
                    (zip (chop (map (\<lambda>(g, v). length (elems g)) tower)
                            (concat (map (\<lambda>(g, v). elems g) s))) tower))
                  (zip summed device_grads)"
  shows "length out = length device_grads"
    and "\<forall>t < length device_grads. length (out ! t) = length (device_grads ! t)
           \<and> (\<forall>j < length (device_grads ! t).
                 shape (fst (out ! t ! j)) = shape (fst (device_grads ! t ! j))
               \<and> snd (out ! t ! j) = snd (device_grads ! t ! j))"
proof -
  show "length out = length device_grads" using len by (simp add: out_def)
  show "\<forall>t < length device_grads. length (out ! t) = length (device_grads ! t)
           \<and> (\<forall>j < length (device_grads ! t).
                 shape (fst (out ! t ! j)) = shape (fst (device_grads ! t ! j))
               \<and> snd (out ! t ! j) = snd (device_grads ! t ! j))"
  proof (intro allI impI)
    fix t assume t: "t < length device_grads"
    let ?tower = "device_grads ! t"
    let ?chunks = "chop (map (\<lambda>(g, v). length (elems g)) ?tower)
                     (concat (map (\<lambda>(g, v). elems g) (summed ! t)))"
    have row: "out ! t = map (\<lambda>(chunk, (g, v)). (\<lparr>shape = shape g, elems = chunk\<rparr>, v))
                          (zip ?chunks ?tower)"
      using t len by (simp add: out_def)
    have lc: "length ?chunks = length ?tower" by (simp add: length_chop)
    show "length (out ! t) = length ?tower
           \<and> (\<forall>j < length ?tower.
                 shape (fst (out ! t ! j)) = shape (fst (?tower ! j))
               \<and> snd (out ! t ! j) = snd (?tower ! j))"
      using lc by (simp add: row case_prod_unfold)
  qed
qed

lemma rebuilt_elems:
  fixes device_grads :: "('a tensor, 'v) device_grads"
    and summed :: "('a tensor \<times> 'v option) list list"
  assumes len: "length summed = length device_grads"
    and tot: "\<forall>t < length device_grads.
                length (concat (map (\<lambda>(g, v). elems g) (summed ! t))) = length (buffer_of (device_grads ! t))"
  defines "out \<equiv> map (\<lambda>(s, tower).
                  map (\<lambda>(chunk, (g, v)). (\<lparr>shape = shape g, elems = chunk\<rparr>, v))
                    (zip (chop (map (\<lambda>(g, v). length (elems g)) tower)
                            (concat (map (\<lambda>(g, v). elems g) s))) tower))
                  (zip summed device_grads)"
  shows "\<forall>t < length device_grads.
           buffer_of (out ! t) = concat (map (\<lambda>(p, v). elems p) (summed ! t))
         \<and> map (\<lambda>(g, v). length (elems g)) (out ! t)
             = map (\<lambda>(g, v). length (elems g)) (device_grads ! t)"
proof (intro allI impI)
  fix t assume t: "t < length device_grads"
  let ?tower = "device_grads ! t"
  let ?E = "concat (map (\<lambda>(g, v). elems g) (summed ! t))"
  let ?sizes = "map (\<lambda>(g, v). length (elems g)) ?tower"
  let ?chunks = "chop ?sizes ?E"
  have row: "out ! t = map (\<lambda>(chunk, (g, v)). (\<lparr>shape = shape g, elems = chunk\<rparr>, v))
                        (zip ?chunks ?tower)"
    using t len by (simp add: out_def)
  have lc: "length ?chunks = length ?tower" by (simp add: length_chop)
  have sm: "sum_list ?sizes = length ?E"
    using tot t by (simp add: sizes_sum_nat)
  have els: "map (\<lambda>(g, v). elems g) (out ! t) = ?chunks"
  proof -
    have "map (\<lambda>(g, v). elems g) (out ! t) = map fst (zip ?chunks ?tower)"
      by (simp add: row case_prod_unfold comp_def)
    also have "\<dots> = ?chunks" using lc by simp
    finally show ?thesis .
  qed
  have "buffer_of (out ! t) = concat ?chunks"
    unfolding buffer_of_def els ..
  then have one: "buffer_of (out ! t) = ?E" using sm by (simp add: concat_chop)
  have "map (\<lambda>(g, v). length (elems g)) (out ! t) = map length (map (\<lambda>(g, v). elems g) (out ! t))"
    by (simp add: case_prod_unfold comp_def)
  also have "\<dots> = map length ?chunks" by (simp only: els)
  also have "\<dots> = ?sizes" using sm by (simp add: map_length_chop)
  finally have two: "map (\<lambda>(g, v). length (elems g)) (out ! t) = ?sizes" .
  from one two show "buffer_of (out ! t) = ?E
         \<and> map (\<lambda>(g, v). length (elems g)) (out ! t) = ?sizes" by simp
qed

text \<open>
  Claim C4: in the local replicated mode with hierarchical copy, no all-reduce spec and a
  repacking factor \<open>K > 0\<close>, on tensors as lists, every replica's gradients are
  flattened and concatenated into one buffer of \<open>T\<close> elements and cut into \<open>K\<close>
  contiguous packs paired with \<open>None\<close>; the first \<open>K - 1\<close> packs have \<open>T div K\<close>
  elements, the last has \<open>T - (T div K) * (K - 1)\<close>, and the sizes sum to \<open>T\<close>.
  Whenever the reduction returns packs of the sizes it was given,
  \<open>preprocess_device_grads\<close> returns one list per replica: the elements of a replica's
  reduced packs, concatenated, are cut again at the sizes of its original gradients, and
  every piece is given the shape of the original gradient at its position and paired with
  that gradient's variable. So the list of a replica holds, in order, the elements of its
  reduced packs, in tensors of the original sizes and shapes with the original variables;
  when the reduction returns the packs unchanged, the original device gradients are
  returned. The towers are not empty and the gradients are well formed.
\<close>

theorem C4_repack_round_trip:
  fixes device_grads :: "('a tensor, 'v) device_grads"
  assumes K: "0 < gradient_repacking cnn"
    and hc: "hierarchical_copy cnn"
    and tf: "tf = tensor_ops add div_by is_finite device_of"
    and ne: "\<forall>tower \<in> set device_grads. tower \<noteq> []"
    and wf: "\<forall>tower \<in> set device_grads. \<forall>(g, v) \<in> set tower. well_formed g"
  shows "split_sizes T (gradient_repacking cnn)
           = replicate (nat (gradient_repacking cnn - 1)) (T div gradient_repacking cnn)
             @ [T - (T div gradient_repacking cnn) * (gradient_repacking cnn - 1)]
       \<and> sum_list (split_sizes T (gradient_repacking cnn)) = T
       \<and> map_err (pack_tower tf (gradient_repacking cnn)) device_grads
           = Inr (map (\<lambda>tower. (repacked (gradient_repacking cnn) tower,
                                 map (\<lambda>(g, v). shape g) tower,
                                 map (\<lambda>(g, v). int (length (elems g))) tower)) device_grads)
       \<and> (\<forall>tower \<in> set device_grads.
             map (\<lambda>(p, v). int (length (elems p)))
                 (repacked (gradient_repacking cnn) tower :: ('a tensor \<times> 'v option) list)
               = split_sizes (int (length (buffer_of tower))) (gradient_repacking cnn)
           \<and> concat (map (\<lambda>(p, v). elems p)
                 (repacked (gradient_repacking cnn) tower :: ('a tensor \<times> 'v option) list))
               = buffer_of tower)
       \<and> (\<forall>summed flag'.
             aggregate_gradients_using_hierarchical_copy_packs m cnn
                (map (repacked (gradient_repacking cnn)) device_grads)
                False (enable_auto_loss_scale cnn) = Inr (summed, flag')
             \<and> same_pack_sizes summed (map (repacked (gradient_repacking cnn)) device_grads)
           \<longrightarrow> (\<exists>out.
                 LocalReplicated_preprocess_device_grads tf m cnn None max_bytes max_group
                     flag device_grads = Inr (devices cnn, out, flag')
               \<and> length out = length device_grads
               \<and> (\<forall>t < length device_grads. length (out ! t) = length (device_grads ! t)
                     \<and> (\<forall>j < length (device_grads ! t).
                           shape (fst (out ! t ! j)) = shape (fst (device_grads ! t ! j))
                         \<and> snd (out ! t ! j) = snd (device_grads ! t ! j)))
               \<and> out = map (\<lambda>(s, tower).
                        map (\<lambda>(chunk, (g, v)). (\<lparr>shape = shape g, elems = chunk\<rparr>, v))
                          (zip (chop (map (\<lambda>(g, v). length (elems g)) tower)
                                  (concat (map (\<lambda>(p, v). elems p) s))) tower))
                       (zip summed device_grads)
               \<and> (\<forall>t < length device_grads.
                     buffer_of (out ! t) = concat (map (\<lambda>(p, v). elems p) (summed ! t))
                   \<and> map (\<lambda>(g, v). length (elems g)) (out ! t)
                       = map (\<lambda>(g, v). length (elems g)) (device_grads ! t))
               \<and> (summed = map (repacked (gradient_repacking cnn)) device_grads
                     \<longrightarrow> out = device_grads)))"
proof -
  let ?K = "gradient_repacking cnn"
  let ?packs = "map (repacked ?K) device_grads :: ('a tensor \<times> 'v option) list list"
  let ?rebuild = "\<lambda>(s :: ('a tensor \<times> 'v option) list, tower :: ('a tensor \<times> 'v) list).
                  map (\<lambda>(chunk, (g, v)). (\<lparr>shape = shape g, elems = chunk\<rparr>, v))
                    (zip (chop (map (\<lambda>(g, v). length (elems g)) tower)
                            (concat (map (\<lambda>(g, v). elems g) s))) tower)"
  have a: "split_sizes T ?K = replicate (nat (?K - 1)) (T div ?K) @ [T - (T div ?K) * (?K - 1)]"
    by (simp add: split_sizes_def Let_def)
  have b: "sum_list (split_sizes T ?K) = T" using K by (simp add: split_sizes_sum)
  have c: "map_err (pack_tower tf ?K) device_grads
           = Inr (map (\<lambda>tower. (repacked ?K tower, map (\<lambda>(g, v). shape g) tower,
                                 map (\<lambda>(g, v). int (length (elems g))) tower)) device_grads)"
    using ne K by (intro map_err_all) (simp add: tf pack_tower_ok)
  have d: "\<forall>tower \<in> set device_grads.
             map (\<lambda>(p, v). int (length (elems p)))
                 (repacked ?K tower :: ('a tensor \<times> 'v option) list)
               = split_sizes (int (length (buffer_of tower))) ?K
           \<and> concat (map (\<lambda>(p, v). elems p)
                 (repacked ?K tower :: ('a tensor \<times> 'v option) list))
               = buffer_of tower"
    using repacked_sizes [OF K] repacked_buffer [OF K] by blast
  have e: "\<exists>out.
                 LocalReplicated_preprocess_device_grads tf m cnn None max_bytes max_group
                     flag device_grads = Inr (devices cnn, out, flag')
               \<and> length out = length device_grads
               \<and> (\<forall>t < length device_grads. length (out ! t) = length (device_grads ! t)
                     \<and> (\<forall>j < length (device_grads ! t).
                           shape (fst (out ! t ! j)) = shape (fst (device_grads ! t ! j))
                         \<and> snd (out ! t ! j) = snd (device_grads ! t ! j)))
               \<and> out = map ?rebuild (zip summed device_grads)
               \<and> (\<forall>t < length device_grads.
                     buffer_of (out ! t) = concat (map (\<lambda>(p, v). elems p) (summed ! t))
                   \<and> map (\<lambda>(g, v). length (elems g)) (out ! t)
                       = map (\<lambda>(g, v). length (elems g)) (device_grads ! t))
               \<and> (summed = ?packs \<longrightarrow> out = device_grads)"
    if agg: "aggregate_gradients_using_hierarchical_copy_packs m cnn ?packs
                False (enable_auto_loss_scale cnn) = Inr (summed, flag')"
      and same: "same_pack_sizes summed ?packs"
    for summed flag'
  proof -
    let ?out = "map ?rebuild (zip summed device_grads)"
    have ra: "repack_and_aggregate tf m cnn device_grads = Inr (?out, flag')"
      using repack_and_aggregate_ok [OF K tf ne wf agg same] .
    have pre: "LocalReplicated_preprocess_device_grads tf m cnn None max_bytes max_group
                     flag device_grads = Inr (devices cnn, ?out, flag')"
      using K hc ra by (simp add: LocalReplicated_preprocess_device_grads_def)
    have len: "length summed = length device_grads"
      using same by (auto simp: same_pack_sizes_def dest: list_all2_lengthD)
    have len_concat: "length (concat (map (\<lambda>(g, v). elems g) ps))
        = sum_list (map (\<lambda>(g, v). length (elems g)) ps)" for ps :: "('a tensor \<times> 'v option) list"
      by (induction ps) auto
    have tot: "\<forall>t < length device_grads.
                length (concat (map (\<lambda>(g, v). elems g) (summed ! t)))
                  = length (buffer_of (device_grads ! t))"
    proof (intro allI impI)
      fix t assume t: "t < length device_grads"
      have sz: "map (\<lambda>(g, v). length (elems g)) (summed ! t)
          = map (\<lambda>(g, v). length (elems g))
              (repacked ?K (device_grads ! t) :: ('a tensor \<times> 'v option) list)"
        using same t len by (auto simp: same_pack_sizes_def list_all2_conv_all_nth)
      have rb: "concat (map (\<lambda>(p, v). elems p)
                 (repacked ?K (device_grads ! t) :: ('a tensor \<times> 'v option) list))
                = buffer_of (device_grads ! t)"
        using K by (rule repacked_buffer)
      have "length (concat (map (\<lambda>(g, v). elems g) (summed ! t)))
          = sum_list (map (\<lambda>(g, v). length (elems g)) (summed ! t))" by (rule len_concat)
      also have "\<dots> = sum_list (map (\<lambda>(g, v). length (elems g))
              (repacked ?K (device_grads ! t) :: ('a tensor \<times> 'v option) list))"
        by (simp only: sz)
      also have "\<dots> = length (concat (map (\<lambda>(g, v). elems g)
              (repacked ?K (device_grads ! t) :: ('a tensor \<times> 'v option) list)))"
        by (rule len_concat [symmetric])
      also have "\<dots> = length (buffer_of (device_grads ! t))" by (simp only: rb)
      finally show "length (concat (map (\<lambda>(g, v). elems g) (summed ! t)))
                  = length (buffer_of (device_grads ! t))" .
    qed
    note rows = rebuilt_rows [OF len tot]
    note els = rebuilt_elems [OF len tot]
    have ident: "?out = device_grads" if s: "summed = ?packs"
    proof -
      have "?rebuild (repacked ?K tower, tower) = tower" if "tower \<in> set device_grads" for tower
      proof -
        have rb: "concat (map (\<lambda>(p, v). elems p)
                 (repacked ?K tower :: ('a tensor \<times> 'v option) list)) = buffer_of tower"
          using K by (rule repacked_buffer)
        have "\<forall>(g, v) \<in> set tower. well_formed g" using wf that by blast
        from unpack_identity [OF this] show ?thesis by (simp add: rb)
      qed
      then have "map ?rebuild (map (\<lambda>tower. (repacked ?K tower, tower)) device_grads) = device_grads"
        by (simp add: map_idI)
      moreover have "zip ?packs device_grads = map (\<lambda>tower. (repacked ?K tower, tower)) device_grads"
        by (simp add: zip_map1 zip_same_conv_map)
      ultimately show ?thesis using s by simp
    qed
    show ?thesis
      apply (rule exI [of _ ?out])
      using pre rows els ident by blast
  qed
  from a b c d e show ?thesis by blast
qed

theorem C4_repack_round_trip_witness:
  "LocalReplicated_preprocess_device_grads fp_tensors (example_modules fp_tensors)
       two_gpus_repacking None 0 10 None
       [[(\<lparr>shape = [2], elems = [Finite 1, Finite 2]\<rparr>, w0),
         (\<lparr>shape = [3, 1], elems = [Finite 3, Finite 4, Finite 5]\<rparr>, w0)],
        [(\<lparr>shape = [2], elems = [Finite 6, Finite 7]\<rparr>, w1),
         (\<lparr>shape = [3, 1], elems = [Finite 8, Finite 9, Finite 10]\<rparr>, w1)]]
     = Inr ([''/gpu:0'', ''/gpu:1''],
       [[(\<lparr>shape = [2], elems = [Finite 7, Finite 9]\<rparr>, w0),
         (\<lparr>shape = [3, 1], elems = [Finite 11, Finite 13, Finite 15]\<rparr>, w0)],
        [(\<lparr>shape = [2], elems = [Finite 7, Finite 9]\<rparr>, w1),
         (\<lparr>shape = [3, 1], elems = [Finite 11, Finite 13, Finite 15]\<rparr>, w1)]], None)
   \<and> LocalReplicated_preprocess_device_grads fp_tensors (example_modules fp_tensors)
       one_gpu_repacking None 0 10 None
       [[(\<lparr>shape = [2], elems = [Finite 1, Finite 2]\<rparr>, w0),
         (\<lparr>shape = [3, 1], elems = [Finite 3, Finite 4, Finite 5]\<rparr>, w0)]]
     = Inr ([''/gpu:0''],
       [[(\<lparr>shape = [2], elems = [Finite 1, Finite 2]\<rparr>, w0),
         (\<lparr>shape = [3, 1], elems = [Finite 3, Finite 4, Finite 5]\<rparr>, w0)]], None)
   \<and> split_sizes 5 2 = [2, 3]
   \<and> sum_list (split_sizes 5 2) = 5"
proof -
  let ?t0 = "[(\<lparr>shape = [2], elems = [Finite 1, Finite 2]\<rparr>, w0),
         (\<lparr>shape = [3, 1], elems = [Finite 3, Finite 4, Finite 5]\<rparr>, w0)]"
  let ?t1 = "[(\<lparr>shape = [2], elems = [Finite 6, Finite 7]\<rparr>, w1),
         (\<lparr>shape = [3, 1], elems = [Finite 8, Finite 9, Finite 10]\<rparr>, w1)]"
  let ?dg = "[?t0, ?t1]"
  let ?one = "[?t0]"
  let ?m = "example_modules fp_tensors :: (fp tensor, variable) modules"
  let ?packs = "map (repacked (gradient_repacking two_gpus_repacking)) ?dg
                  :: (fp tensor \<times> variable option) list list"
  let ?packs1 = "map (repacked (gradient_repacking one_gpu_repacking)) ?one
                  :: (fp tensor \<times> variable option) list list"
  let ?summed = "[[(\<lparr>shape = [2], elems = [Finite 7, Finite 9]\<rparr>, None),
                   (\<lparr>shape = [3], elems = [Finite 11, Finite 13, Finite 15]\<rparr>, None)],
                  [(\<lparr>shape = [2], elems = [Finite 7, Finite 9]\<rparr>, None),
                   (\<lparr>shape = [3], elems = [Finite 11, Finite 13, Finite 15]\<rparr>, None)]]
                  :: (fp tensor \<times> variable option) list list"
  have K: "0 < gradient_repacking two_gpus_repacking"
    and K2: "gradient_repacking two_gpus_repacking = 2"
    and hc: "hierarchical_copy two_gpus_repacking"
    and dv: "devices two_gpus_repacking = [''/gpu:0'', ''/gpu:1'']"
    by (simp_all add: two_gpus_repacking_def two_gpus_def)
  have K': "0 < gradient_repacking one_gpu_repacking"
    and K2': "gradient_repacking one_gpu_repacking = 2"
    and hc': "hierarchical_copy one_gpu_repacking"
    and dv': "devices one_gpu_repacking = [''/gpu:0'']"
    by (simp_all add: one_gpu_repacking_def two_gpus_repacking_def two_gpus_def)
  have tf: "fp_tensors = tensor_ops (fp_add Finite) (fp_div Finite) fp_finite (\<lambda>g. ''/gpu:0'')"
    by (simp add: fp_tensors_def)
  have ne: "\<forall>tower \<in> set ?dg. tower \<noteq> []" and ne': "\<forall>tower \<in> set ?one. tower \<noteq> []"
    by simp_all
  have wf: "\<forall>tower \<in> set ?dg. \<forall>(g, v) \<in> set tower. well_formed g"
    and wf': "\<forall>tower \<in> set ?one. \<forall>(g, v) \<in> set tower. well_formed g"
    by (simp_all add: well_formed_def)
  have s52: "split_sizes 5 2 = [2, 3]" by (simp add: split_sizes_def Let_def)
  have pk: "?packs = [[(\<lparr>shape = [2], elems = [Finite 1, Finite 2]\<rparr>, None),
                       (\<lparr>shape = [3], elems = [Finite 3, Finite 4, Finite 5]\<rparr>, None)],
                      [(\<lparr>shape = [2], elems = [Finite 6, Finite 7]\<rparr>, None),
                       (\<lparr>shape = [3], elems = [Finite 8, Finite 9, Finite 10]\<rparr>, None)]]"
    by (simp add: K2 repacked_def buffer_of_def s52 rank1_def)
  have pk1: "?packs1 = [[(\<lparr>shape = [2], elems = [Finite 1, Finite 2]\<rparr>, None),
                       (\<lparr>shape = [3], elems = [Finite 3, Finite 4, Finite 5]\<rparr>, None)]]"
    by (simp add: K2' repacked_def buffer_of_def s52 rank1_def)
  have agg: "aggregate_gradients_using_hierarchical_copy_packs ?m two_gpus_repacking ?packs
                False (enable_auto_loss_scale two_gpus_repacking) = Inr (?summed, None)"
    unfolding pk
    by (simp add: example_modules_def sum_over_towers_def zip_star_def common_length_def
        fp_tensors_def tensor_ops_def tensor_add_def)
  have agg1: "aggregate_gradients_using_hierarchical_copy_packs ?m one_gpu_repacking ?packs1
                False (enable_auto_loss_scale one_gpu_repacking) = Inr (?packs1, None)"
    unfolding pk1
    by (simp add: example_modules_def sum_over_towers_def zip_star_def common_length_def
        fp_tensors_def tensor_ops_def tensor_add_def)
  have same: "same_pack_sizes ?summed ?packs"
    unfolding pk by (simp add: same_pack_sizes_def)
  have same1: "same_pack_sizes ?packs1 ?packs1"
    by (simp add: same_pack_sizes_def list_all2_same)
  note inst = C4_repack_round_trip [OF K hc tf ne wf, of 5 ?m 0 10 None]
  note inst1 = C4_repack_round_trip [OF K' hc' tf ne' wf', of 5 ?m 0 10 None]
  note conc = inst [THEN conjunct2, THEN conjunct2, THEN conjunct2, THEN conjunct2,
      rule_format, OF conjI [OF agg same]]
  note conc1 = inst1 [THEN conjunct2, THEN conjunct2, THEN conjunct2, THEN conjunct2,
      rule_format, OF conjI [OF agg1 same1]]
  from conc obtain out where
    pre: "LocalReplicated_preprocess_device_grads fp_tensors ?m two_gpus_repacking None 0 10
            None ?dg = Inr (devices two_gpus_repacking, out, None)"
    and ex: "out = map (\<lambda>(s, tower).
                        map (\<lambda>(chunk, (g, v)). (\<lparr>shape = shape g, elems = chunk\<rparr>, v))
                          (zip (chop (map (\<lambda>(g, v). length (elems g)) tower)
                                  (concat (map (\<lambda>(p, v). elems p) s))) tower))
                       (zip ?summed ?dg)"
    by (elim exE conjE) (rule that)
  from conc1 obtain out1 where
    pre1: "LocalReplicated_preprocess_device_grads fp_tensors ?m one_gpu_repacking None 0 10
            None ?one = Inr (devices one_gpu_repacking, out1, None)"
    and id: "?packs1 = ?packs1 \<longrightarrow> out1 = ?one"
    by (elim exE conjE) (rule that)
  note sz = inst [THEN conjunct1]
  note sm = inst [THEN conjunct2, THEN conjunct1]
  have a: "split_sizes 5 2 = [2, 3]" using sz unfolding K2 by simp
  have b: "sum_list (split_sizes 5 2) = 5" using sm unfolding K2 .
  have c: "out1 = ?one" using id by simp
  have d: "out = [[(\<lparr>shape = [2], elems = [Finite 7, Finite 9]\<rparr>, w0),
         (\<lparr>shape = [3, 1], elems = [Finite 11, Finite 13, Finite 15]\<rparr>, w0)],
        [(\<lparr>shape = [2], elems = [Finite 7, Finite 9]\<rparr>, w1),
         (\<lparr>shape = [3, 1], elems = [Finite 11, Finite 13, Finite 15]\<rparr>, w1)]]"
    unfolding ex by simp
  show ?thesis
    apply (intro conjI)
       apply (simp only: pre dv d)
      apply (simp only: pre1 dv' c)
     apply (rule a)
    apply (rule b)
    done
qed

section \<open>The barrier of the distributed replicated mode\<close>

lemma map_err_determined:
  "map_err f xs = Inr ys \<Longrightarrow> (\<And>x y. x \<in> set xs \<Longrightarrow> f x = Inr y \<Longrightarrow> y = h x)
   \<Longrightarrow> ys = map h xs"
proof (induction xs arbitrary: ys)
  case Nil
  then show ?case by simp
next
  case (Cons x xs)
  from Cons.prems(1) obtain y ys' where fx: "f x = Inr y" and rest: "map_err f xs = Inr ys'"
    and ys: "ys = y # ys'"
    by (auto split: sum.splits)
  have "ys' = map h xs" using Cons.IH [OF rest] Cons.prems(2) by simp
  moreover have "y = h x" using Cons.prems(2) [of x y] fx by simp
  ultimately show ?case using ys by simp
qed

lemma py_index_nat_Inr: "py_index xs (int i) = Inr y \<Longrightarrow> y = xs ! i"
  by (auto simp: py_index_def split: if_splits)

lemma broadcast_assigns_ok:
  assumes "broadcast_assigns cnn device_grads i updated_value barrier = Inr assigns"
  shows "assigns = map (\<lambda>d. Assign (snd (device_grads ! d ! i)) updated_value [barrier])
                     [0..<length (devices cnn)]"
proof (rule map_err_determined [OF assms [unfolded broadcast_assigns_def]])
  fix d y
  assume "(case py_index device_grads (int d) of
             Inl e \<Rightarrow> Inl e
           | Inr tower \<Rightarrow>
               (case py_index tower (int i) of
                  Inl e \<Rightarrow> Inl e
                | Inr (g, v) \<Rightarrow> Inr (Assign v updated_value [barrier]))) = Inr y"
  then show "y = Assign (snd (device_grads ! d ! i)) updated_value [barrier]"
    by (auto split: sum.splits dest!: py_index_nat_Inr) (metis snd_conv)
qed

lemma apply_gradients_ops_loop_ok:
  "apply_gradients_ops_loop cnn device_grads i0 grads = Inr ops \<Longrightarrow>
   ops = concat (map (\<lambda>k. map (\<lambda>d. broadcast_op device_grads d (i0 + k) (grads ! k))
                           [0..<length (devices cnn)])
                 [0..<length grads])"
proof (induction grads arbitrary: i0 ops)
  case Nil
  then show ?case by simp
next
  case (Cons gv grads)
  obtain g v where gv: "gv = (g, v)" by (cases gv)
  let ?b = "add_sync_queues_and_barrier (''replicate_variable_'' @ str_nat i0) [ApplyGradients [(g, v)]]"
  from Cons.prems gv obtain assigns rest where
    as: "broadcast_assigns cnn device_grads i0 (ReadValue v [?b]) ?b = Inr assigns"
    and rest: "apply_gradients_ops_loop cnn device_grads (Suc i0) grads = Inr rest"
    and ops: "ops = assigns @ rest"
    by (auto simp: Let_def split: sum.splits)
  have a: "assigns = map (\<lambda>d. broadcast_op device_grads d i0 gv) [0..<length (devices cnn)]"
    using broadcast_assigns_ok [OF as]
    by (simp add: gv broadcast_op_def broadcast_read_def barrier_op_def barrier_name_def
        add_sync_queues_and_barrier_def)
  have r: "rest = concat (map (\<lambda>k. map (\<lambda>d. broadcast_op device_grads d (Suc i0 + k) (grads ! k))
                           [0..<length (devices cnn)]) [0..<length grads])"
    using Cons.IH [OF rest] .
  have idx: "[0..<length (gv # grads)] = 0 # map Suc [0..<length grads]"
    by (simp add: upt_conv_Cons map_Suc_upt del: upt_Suc)
  show ?case
    unfolding idx ops a r by (simp add: comp_def)
qed

lemma broadcast_op_returned:
  assumes "get_apply_gradients_ops_func cnn device_grads grads = Inr ops"
    and "i < length grads" "d < length (devices cnn)"
  shows "broadcast_op device_grads d i (grads ! i) \<in> set ops"
proof -
  have ops: "ops = concat (map (\<lambda>k. map (\<lambda>d. broadcast_op device_grads d (0 + k) (grads ! k))
                           [0..<length (devices cnn)]) [0..<length grads])"
    using apply_gradients_ops_loop_ok [OF assms(1) [unfolded get_apply_gradients_ops_func_def]] .
  have "broadcast_op device_grads d i (grads ! i)
      \<in> set (map (\<lambda>d. broadcast_op device_grads d (0 + i) (grads ! i)) [0..<length (devices cnn)])"
    using assms(3) by simp
  moreover have "map (\<lambda>d. broadcast_op device_grads d (0 + i) (grads ! i)) [0..<length (devices cnn)]
      \<in> set (map (\<lambda>k. map (\<lambda>d. broadcast_op device_grads d (0 + k) (grads ! k))
                           [0..<length (devices cnn)]) [0..<length grads])"
    using assms(2) by (simp add: image_iff) (rule bexI [of _ i], simp_all)
  ultimately show ?thesis unfolding ops set_concat by blast
qed

lemma reachable_broadcast_op:
  "reachable_ops (broadcast_op device_grads d i gv)
   = [broadcast_op device_grads d i gv, broadcast_read i gv, barrier_op i gv,
      ApplyGradients [gv], barrier_op i gv, ApplyGradients [gv]]"
  by (simp add: broadcast_op_def broadcast_read_def barrier_op_def)

lemma barrier_in_graph:
  assumes "get_apply_gradients_ops_func cnn device_grads grads = Inr ops"
    and "i < length grads" "devices cnn \<noteq> []"
  shows "barrier_op i (grads ! i) \<in> set (graph_of ops)"
proof -
  have "broadcast_op device_grads 0 i (grads ! i) \<in> set ops"
    using broadcast_op_returned [OF assms(1,2), of 0] assms(3) by simp
  then show ?thesis
    unfolding graph_of_def using reachable_broadcast_op [of device_grads 0 i "grads ! i"]
    by (auto intro!: bexI [of _ "broadcast_op device_grads 0 i (grads ! i)"])
qed

lemma barriers_of_graph:
  assumes "get_apply_gradients_ops_func cnn device_grads grads = Inr ops"
    and "SyncBarrier n after \<in> set (graph_of ops)"
  shows "\<exists>j < length grads. SyncBarrier n after = barrier_op j (grads ! j)"
proof -
  from assms(2) obtain b where b: "b \<in> set ops" and r: "SyncBarrier n after \<in> set (reachable_ops b)"
    by (auto simp: graph_of_def)
  from b obtain j d where j: "j < length grads" and be: "b = broadcast_op device_grads d j (grads ! j)"
    using apply_gradients_ops_loop_ok [OF assms(1) [unfolded get_apply_gradients_ops_func_def]]
    by auto
  from r have "SyncBarrier n after = barrier_op j (grads ! j)"
    unfolding be reachable_broadcast_op
    by (auto simp: broadcast_op_def broadcast_read_def)
  with j show ?thesis by blast
qed

lemma barrier_name_inj: "(barrier_name i = barrier_name j) = (i = j)"
  using str_nat_inj [of i j] by (auto simp: barrier_name_def)

lemma valid_runD:
  assumes "valid_run graphs run" "k < length run" "run ! k = (w, b)"
  shows "\<forall>d \<in> set (op_inputs b). (w, d) \<in> set (take k run)"
    and "\<forall>ev \<in> set (barrier_waits_for graphs b). ev \<in> set (take k run)"
proof -
  from assms(1,2) have "case run ! k of (w, b) \<Rightarrow>
                 list_all (\<lambda>d. (w, d) \<in> set (take k run)) (op_inputs b)
               \<and> list_all (\<lambda>ev. ev \<in> set (take k run)) (barrier_waits_for graphs b)"
    by (simp add: valid_run_def list_all_iff)
  then have both: "list_all (\<lambda>d. (w, d) \<in> set (take k run)) (op_inputs b)
               \<and> list_all (\<lambda>ev. ev \<in> set (take k run)) (barrier_waits_for graphs b)"
    by (simp add: assms(3))
  show "\<forall>d \<in> set (op_inputs b). (w, d) \<in> set (take k run)"
    using both by (simp add: list_all_iff)
  show "\<forall>ev \<in> set (barrier_waits_for graphs b). ev \<in> set (take k run)"
    using both by (simp add: list_all_iff)
qed

lemma in_take_nth: "x \<in> set (take k xs) \<Longrightarrow> \<exists>k' < k. k' < length xs \<and> xs ! k' = x"
  by (auto simp: in_set_conv_nth)

lemma take_mono: "x \<in> set (take k' xs) \<Longrightarrow> k' \<le> k \<Longrightarrow> x \<in> set (take k xs)"
  using set_take_subset_set_take [of k' k xs] by auto

lemma barrier_waits_for_mem:
  assumes "w' < length graphs" "SyncBarrier n after' \<in> set (graphs ! w')" "d \<in> set after'"
  shows "(w', d) \<in> set (barrier_waits_for graphs (SyncBarrier n after))"
proof -
  have "d \<in> set (concat (map (entered_after n) (graphs ! w')))"
    using assms(2,3) by (auto simp: entered_after_def intro!: bexI [of _ "SyncBarrier n after'"])
  then show ?thesis using assms(1)
    by (auto simp: barrier_waits_for_def intro!: bexI [of _ w'])
qed

lemma barrier_waits_for_cases:
  assumes "ev \<in> set (barrier_waits_for graphs (SyncBarrier n after))"
  shows "fst ev < length graphs
         \<and> (\<exists>after'. SyncBarrier n after' \<in> set (graphs ! fst ev) \<and> snd ev \<in> set after')"
  using assms
  by (auto simp: barrier_waits_for_def entered_after_def split: graph_op.splits if_splits)

lemma after_barrier:
  assumes valid: "valid_run graphs run" and k: "k < length run" and ev: "run ! k = (w, b)"
    and dep: "barrier_op i gv \<in> set (op_inputs b)"
    and w': "w' < length graphs" and other: "barrier_op i gv' \<in> set (graphs ! w')"
  shows "(w, barrier_op i gv) \<in> set (take k run)"
    and "(w', ApplyGradients [gv']) \<in> set (take k run)"
proof -
  show b: "(w, barrier_op i gv) \<in> set (take k run)"
    using valid_runD(1) [OF valid k ev] dep by blast
  from in_take_nth [OF b] obtain k1 where k1: "k1 < k" "k1 < length run"
    and at: "run ! k1 = (w, barrier_op i gv)" by blast
  have "(w', ApplyGradients [gv']) \<in> set (barrier_waits_for graphs (barrier_op i gv))"
    using barrier_waits_for_mem [OF w', of "barrier_name i" "[ApplyGradients [gv']]"
        "ApplyGradients [gv']" "[ApplyGradients [gv]]"] other
    by (simp add: barrier_op_def)
  then have "(w', ApplyGradients [gv']) \<in> set (take k1 run)"
    using valid_runD(2) [OF valid k1(2) at] by blast
  then show "(w', ApplyGradients [gv']) \<in> set (take k run)"
    using k1(1) by (auto intro: take_mono)
qed

lemma built_graphsD:
  assumes "built_graphs workers graphs" "w < length workers" "workers ! w = (cnn, device_grads, grads)"
  shows "length graphs = length workers" "devices cnn \<noteq> []"
    "\<exists>ops. get_apply_gradients_ops_func cnn device_grads grads = Inr ops \<and> graphs ! w = graph_of ops"
proof -
  show "length graphs = length workers" using assms(1) by (simp add: built_graphs_def)
  from assms(1,2) have "case workers ! w of (cnn, device_grads, grads) \<Rightarrow>
                   devices cnn \<noteq> []
                 \<and> map_sum (\<lambda>e. e) graph_of (get_apply_gradients_ops_func cnn device_grads grads)
                     = Inr (graphs ! w)"
    by (simp add: built_graphs_def list_all_iff)
  then have both: "devices cnn \<noteq> []
                 \<and> map_sum (\<lambda>e. e) graph_of (get_apply_gradients_ops_func cnn device_grads grads)
                     = Inr (graphs ! w)"
    by (simp add: assms(3))
  then show "devices cnn \<noteq> []" by simp
  from both show "\<exists>ops. get_apply_gradients_ops_func cnn device_grads grads = Inr ops
      \<and> graphs ! w = graph_of ops"
    by (cases "get_apply_gradients_ops_func cnn device_grads grads") auto
qed

text \<open>
  Claim C5: in the distributed replicated mode \<open>get_apply_gradients_ops_func\<close> returns,
  for every parameter index \<open>i\<close> and every tower, one assignment of the updated shadow
  value to the tower's copy. The assignment and the read of the updated value carry a
  control dependency on the barrier \<open>replicate_variable_<i>\<close>, which is entered after
  the apply operation of parameter \<open>i\<close>. So in every valid run of the workers' graphs,
  when such an assignment or read completes on a worker, that worker's barrier and the
  apply operation for \<open>i\<close> on every worker have completed before. Barrier names of
  different indices differ, and the barrier of index \<open>i\<close> waits for nothing but the
  apply operations of index \<open>i\<close>.
\<close>

theorem C5_barrier_orders_broadcast_after_apply:
  assumes built: "built_graphs workers graphs"
    and valid: "valid_run graphs run"
    and w: "w < length workers"
    and worker: "workers ! w = (cnn, device_grads, grads)"
  shows "get_apply_gradients_ops_func cnn device_grads grads
           = Inr (concat (map (\<lambda>i. map (\<lambda>d. broadcast_op device_grads d i (grads ! i))
                                      [0..<length (devices cnn)])
                            [0..<length grads]))
       \<and> (\<forall>i < length grads. \<forall>k < length run.
             (\<exists>d < length (devices cnn). run ! k = (w, broadcast_op device_grads d i (grads ! i)))
             \<or> run ! k = (w, broadcast_read i (grads ! i))
           \<longrightarrow> (w, barrier_op i (grads ! i)) \<in> set (take k run)
             \<and> (\<forall>w' < length workers. i < length (worker_grads (workers ! w'))
                   \<longrightarrow> (w', ApplyGradients [worker_grads (workers ! w') ! i]) \<in> set (take k run)))
       \<and> (\<forall>i j. (barrier_name i = barrier_name j) = (i = j))
       \<and> (\<forall>i gv ev. ev \<in> set (barrier_waits_for graphs (barrier_op i gv))
             \<longrightarrow> fst ev < length workers \<and> i < length (worker_grads (workers ! fst ev))
               \<and> snd ev = ApplyGradients [worker_grads (workers ! fst ev) ! i])"
proof -
  note lg = built_graphsD(1) [OF built w worker]
  from built_graphsD(3) [OF built w worker] obtain ops where
    ops: "get_apply_gradients_ops_func cnn device_grads grads = Inr ops" by blast
  have a: "get_apply_gradients_ops_func cnn device_grads grads
           = Inr (concat (map (\<lambda>i. map (\<lambda>d. broadcast_op device_grads d i (grads ! i))
                                      [0..<length (devices cnn)])
                            [0..<length grads]))"
    using apply_gradients_ops_loop_ok [OF ops [unfolded get_apply_gradients_ops_func_def]] ops
    by simp
  have b: "(w, barrier_op i (grads ! i)) \<in> set (take k run)
             \<and> (\<forall>w' < length workers. i < length (worker_grads (workers ! w'))
                   \<longrightarrow> (w', ApplyGradients [worker_grads (workers ! w') ! i]) \<in> set (take k run))"
    if i: "i < length grads" and k: "k < length run"
      and ev: "(\<exists>d < length (devices cnn). run ! k = (w, broadcast_op device_grads d i (grads ! i)))
             \<or> run ! k = (w, broadcast_read i (grads ! i))"
    for i k
  proof -
    from ev obtain b where at: "run ! k = (w, b)"
      and dep: "barrier_op i (grads ! i) \<in> set (op_inputs b)"
      by (auto simp: broadcast_op_def broadcast_read_def)
    have self: "barrier_op i (grads ! i) \<in> set (graphs ! w)"
      using built_graphsD(2,3) [OF built w worker] barrier_in_graph [OF _ i] by auto
    have w_g: "w < length graphs" using w lg by simp
    have first: "(w, barrier_op i (grads ! i)) \<in> set (take k run)"
      using after_barrier(1) [OF valid k at dep w_g self] .
    have others: "(w', ApplyGradients [worker_grads (workers ! w') ! i]) \<in> set (take k run)"
      if w': "w' < length workers" and i': "i < length (worker_grads (workers ! w'))" for w'
    proof -
      obtain cnn' dg' grads' where wk: "workers ! w' = (cnn', dg', grads')"
        by (cases "workers ! w'") auto
      have g': "worker_grads (workers ! w') = grads'" by (simp add: wk worker_grads_def)
      have "barrier_op i (grads' ! i) \<in> set (graphs ! w')"
        using built_graphsD(2,3) [OF built w' wk] barrier_in_graph [of cnn' dg' grads' _ i] i' g'
        by auto
      then show ?thesis
        using after_barrier(2) [OF valid k at dep, of w' "grads' ! i"] w' lg g' by simp
    qed
    from first others show ?thesis by blast
  qed
  have c: "\<forall>i j. (barrier_name i = barrier_name j) = (i = j)"
    using barrier_name_inj by blast
  have d: "fst ev < length workers \<and> i < length (worker_grads (workers ! fst ev))
               \<and> snd ev = ApplyGradients [worker_grads (workers ! fst ev) ! i]"
    if mem: "ev \<in> set (barrier_waits_for graphs (barrier_op i gv))" for i gv ev
  proof -
    from mem barrier_waits_for_cases [of ev graphs "barrier_name i" "[ApplyGradients [gv]]"]
    obtain after' where fw: "fst ev < length graphs"
      and bar: "SyncBarrier (barrier_name i) after' \<in> set (graphs ! fst ev)"
      and sn: "snd ev \<in> set after'"
      by (auto simp: barrier_op_def)
    have fw': "fst ev < length workers" using fw lg by simp
    obtain cnn' dg' grads' where wk: "workers ! fst ev = (cnn', dg', grads')"
      by (cases "workers ! fst ev") auto
    from built_graphsD(3) [OF built fw' wk] obtain ops' where
      ops': "get_apply_gradients_ops_func cnn' dg' grads' = Inr ops'"
      and gr: "graphs ! fst ev = graph_of ops'" by blast
    from barriers_of_graph [OF ops' bar [unfolded gr]] obtain j where
      j: "j < length grads'" and eq: "SyncBarrier (barrier_name i) after' = barrier_op j (grads' ! j)"
      by blast
    from eq have "barrier_name i = barrier_name j" "after' = [ApplyGradients [grads' ! j]]"
      by (simp_all add: barrier_op_def)
    then have "j = i" "after' = [ApplyGradients [grads' ! i]]"
      using barrier_name_inj by auto
    then show ?thesis using j sn fw' by (simp add: wk worker_grads_def)
  qed
  from a b c d show ?thesis by blast
qed

theorem C5_barrier_orders_broadcast_after_apply_witness:
  "get_apply_gradients_ops_func two_gpus example_device_grads [(scalar 3, shadow_w)]
     = Inr [broadcast_op example_device_grads 0 0 (scalar 3, shadow_w),
            broadcast_op example_device_grads 1 0 (scalar 3, shadow_w)]
   \<and> example_run ! 4 = (0, broadcast_op example_device_grads 0 0 (scalar 3, shadow_w))
   \<and> (0, barrier_op 0 (scalar 3, shadow_w)) \<in> set (take 4 example_run)
   \<and> (1, ApplyGradients [(scalar 4, shadow_w)]) \<in> set (take 4 example_run)"
proof -
  let ?gv0 = "(scalar 3, shadow_w)"
  let ?gv1 = "(scalar 4, shadow_w)"
  have ops: "get_apply_gradients_ops_func two_gpus example_device_grads [(scalar x, shadow_w)]
     = Inr [broadcast_op example_device_grads 0 0 (scalar x, shadow_w),
            broadcast_op example_device_grads 1 0 (scalar x, shadow_w)]" for x
    by (simp add: get_apply_gradients_ops_func_def broadcast_assigns_def two_gpus_def
        example_device_grads_def py_index_def broadcast_op_def broadcast_read_def barrier_op_def
        barrier_name_def add_sync_queues_and_barrier_def upt_conv_Cons Let_def)
  have dev: "devices two_gpus \<noteq> []" by (simp add: two_gpus_def)
  have built: "built_graphs example_workers example_graphs"
    by (simp add: built_graphs_def example_workers_def example_graphs_def ops dev upt_conv_Cons)
  have waits: "barrier_waits_for example_graphs (barrier_op 0 ?gv0)
      = [(0, ApplyGradients [?gv0]), (0, ApplyGradients [?gv0]),
         (0, ApplyGradients [?gv0]), (0, ApplyGradients [?gv0]),
         (1, ApplyGradients [?gv1]), (1, ApplyGradients [?gv1]),
         (1, ApplyGradients [?gv1]), (1, ApplyGradients [?gv1])]"
    by (simp add: barrier_waits_for_def example_graphs_def graph_of_def reachable_broadcast_op
        barrier_op_def entered_after_def broadcast_op_def broadcast_read_def upt_conv_Cons)
  have nowait: "barrier_waits_for example_graphs (ApplyGradients gv) = []"
    "barrier_waits_for example_graphs (broadcast_read 0 ?gv0) = []"
    "barrier_waits_for example_graphs (broadcast_op example_device_grads 0 0 ?gv0) = []" for gv
    by (simp_all add: barrier_waits_for_def broadcast_read_def broadcast_op_def)
  have valid: "valid_run example_graphs example_run"
    unfolding valid_run_def example_run_def
    by (simp add: upt_conv_Cons waits nowait)
      (simp add: barrier_op_def broadcast_read_def broadcast_op_def)
  have w: "(0::nat) < length example_workers" by (simp add: example_workers_def)
  have worker: "example_workers ! 0 = (two_gpus, example_device_grads, [?gv0])"
    by (simp add: example_workers_def)
  note inst = C5_barrier_orders_broadcast_after_apply [OF built valid w worker]
  have at: "example_run ! 4 = (0, broadcast_op example_device_grads 0 0 ?gv0)"
    by (simp add: example_run_def)
  have i: "(0::nat) < length [?gv0]" and k: "(4::nat) < length example_run"
    and d: "(0::nat) < length (devices two_gpus)"
    by (simp_all add: example_run_def two_gpus_def)
  from inst have step: "\<forall>i < length [?gv0]. \<forall>k < length example_run.
             (\<exists>d < length (devices two_gpus).
                example_run ! k = (0, broadcast_op example_device_grads d i ([?gv0] ! i)))
             \<or> example_run ! k = (0, broadcast_read i ([?gv0] ! i))
           \<longrightarrow> (0, barrier_op i ([?gv0] ! i)) \<in> set (take k example_run)
             \<and> (\<forall>w' < length example_workers. i < length (worker_grads (example_workers ! w'))
                   \<longrightarrow> (w', ApplyGradients [worker_grads (example_workers ! w') ! i])
                         \<in> set (take k example_run))"
    by blast
  have prem: "(\<exists>d < length (devices two_gpus).
                example_run ! 4 = (0, broadcast_op example_device_grads d 0 ([?gv0] ! 0)))
             \<or> example_run ! 4 = (0, broadcast_read 0 ([?gv0] ! 0))"
    using at d by auto
  from step i k prem have concl: "(0, barrier_op 0 ([?gv0] ! 0)) \<in> set (take 4 example_run)
             \<and> (\<forall>w' < length example_workers. 0 < length (worker_grads (example_workers ! w'))
                   \<longrightarrow> (w', ApplyGradients [worker_grads (example_workers ! w') ! 0])
                         \<in> set (take 4 example_run))"
    by blast
  have w1: "(1::nat) < length example_workers"
    "0 < length (worker_grads (example_workers ! 1))"
    "worker_grads (example_workers ! 1) ! 0 = ?gv1"
    by (simp_all add: example_workers_def worker_grads_def)
  from concl w1 have "(1, ApplyGradients [?gv1]) \<in> set (take 4 example_run)"
    by (metis)
  moreover from concl have "(0, barrier_op 0 ?gv0) \<in> set (take 4 example_run)" by simp
  moreover from inst have "get_apply_gradients_ops_func two_gpus example_device_grads [?gv0]
     = Inr [broadcast_op example_device_grads 0 0 ?gv0, broadcast_op example_device_grads 1 0 ?gv0]"
    by (simp add: two_gpus_def upt_conv_Cons)
  ultimately show ?thesis using at by blast
qed

end
